(* ===== verification/Prelude.thy ===== *)
theory Prelude
  imports Main "HOL-Library.Multiset"
begin

text \<open>
  Shared vocabulary of the development: the names of the model's basic types, the
  collection of the facts the component proofs unfold, and the reference definition
  \<open>first_by\<close> (keep the first element of each key, in order) with the generic list
  lemmas the Hook Merger's proofs rest on.
\<close>

named_theorems model_simps "equations of the model that the component proofs unfold"

type_synonym class_name = string \<comment> \<open>\<^verbatim>\<open>h.__class__.__name__\<close>\<close>
type_synonym obj_id = nat \<comment> \<open>Python object identity\<close>
type_synonym addr = nat \<comment> \<open>address of a mutable Python list\<close>

subsection \<open>First occurrence of each key\<close>

text \<open>
  \<open>first_by f xs\<close> keeps, from left to right, each element whose key \<open>f\<close> has not
  been seen before: the declarative specification of the deduplication loop.
\<close>

fun first_by :: "('a \<Rightarrow> 'k) \<Rightarrow> 'a list \<Rightarrow> 'a list" where
  "first_by f [] = []"
| "first_by f (x # xs) = x # first_by f (filter (\<lambda>y. f y \<noteq> f x) xs)"

lemma set_first_by_subset: "set (first_by f xs) \<subseteq> set xs"
  by (induction f xs rule: first_by.induct) auto

lemma image_first_by: "f ` set (first_by f xs) = f ` set xs"
  by (induction f xs rule: first_by.induct) auto

lemma distinct_first_by: "distinct (map f (first_by f xs))"
proof (induction f xs rule: first_by.induct)
  case (2 f x xs)
  have "f x \<notin> f ` set (first_by f (filter (\<lambda>y. f y \<noteq> f x) xs))"
    unfolding image_first_by by auto
  with "2.IH" show ?case by simp
qed simp

lemma first_by_append:
  "first_by f (xs @ ys) = first_by f xs @ first_by f (filter (\<lambda>y. f y \<notin> f ` set xs) ys)"
proof (induction xs arbitrary: ys rule: length_induct)
  case (1 xs)
  show ?case
  proof (cases xs)
    case Nil then show ?thesis by simp
  next
    case (Cons x xs')
    have "length (filter (\<lambda>y. f y \<noteq> f x) xs') < length xs"
      using Cons by (simp add: le_imp_less_Suc)
    then have IH: "first_by f (filter (\<lambda>y. f y \<noteq> f x) xs' @ filter (\<lambda>y. f y \<noteq> f x) ys) =
      first_by f (filter (\<lambda>y. f y \<noteq> f x) xs') @
      first_by f (filter (\<lambda>y. f y \<notin> f ` set (filter (\<lambda>y. f y \<noteq> f x) xs')) (filter (\<lambda>y. f y \<noteq> f x) ys))"
      using "1.IH" by blast
    have "filter (\<lambda>y. f y \<notin> f ` set (filter (\<lambda>y. f y \<noteq> f x) xs')) (filter (\<lambda>y. f y \<noteq> f x) ys)
        = filter (\<lambda>y. f y \<notin> f ` set xs) ys"
      using Cons by (auto simp: filter_filter intro!: filter_cong)
    with IH Cons show ?thesis by simp
  qed
qed

lemma mem_first_by_new: "f x \<notin> f ` set xs \<Longrightarrow> x \<in> set (first_by f (xs @ x # ys))"
  by (simp add: first_by_append)

lemma first_by_twice: "first_by f (xs @ xs) = first_by f xs"
proof -
  have "filter (\<lambda>y. f y \<notin> f ` set xs) xs = []" by (simp add: filter_empty_conv)
  then show ?thesis by (simp add: first_by_append)
qed

lemma first_by_distinct: "distinct (map f xs) \<Longrightarrow> first_by f xs = xs"
proof (induction f xs rule: first_by.induct)
  case (2 f x xs)
  have "\<forall>y\<in>set xs. f y \<noteq> f x"
    using "2.prems" by (auto simp: image_iff)
  then have "filter (\<lambda>y. f y \<noteq> f x) xs = xs"
    by (simp add: filter_id_conv)
  with 2 show ?case by simp
qed simp

lemma first_by_idem: "first_by f (first_by f xs) = first_by f xs"
  by (rule first_by_distinct [OF distinct_first_by])

lemma filter_not_insert:
  "filter (\<lambda>y. f y \<notin> insert k K) xs = filter (\<lambda>y. f y \<noteq> k) (filter (\<lambda>y. f y \<notin> K) xs)"
  by (induction xs) auto

lemma find_filter_implied:
  "(\<And>y. P y \<Longrightarrow> Q y) \<Longrightarrow> find P (filter Q xs) = find P xs"
  by (induction xs) auto

lemma find_first_by: "find (\<lambda>y. f y = c) (first_by f xs) = find (\<lambda>y. f y = c) xs"
proof (induction f xs rule: first_by.induct)
  case (2 f x xs)
  show ?case
  proof (cases "f x = c")
    case False
    then have "find (\<lambda>y. f y = c) (filter (\<lambda>y. f y \<noteq> f x) xs) = find (\<lambda>y. f y = c) xs"
      by (intro find_filter_implied) auto
    with "2.IH" False show ?thesis by simp
  qed simp
qed simp

lemma find_append_skip: "\<forall>x\<in>set xs. \<not> P x \<Longrightarrow> find P (xs @ ys) = find P ys"
  by (induction xs) auto

lemma filter_first_by_key:
  "filter (\<lambda>y. f y = c) (first_by f xs) = (case find (\<lambda>y. f y = c) xs of None \<Rightarrow> [] | Some y \<Rightarrow> [y])"
proof (induction f xs rule: first_by.induct)
  case (2 f x xs)
  show ?case
  proof (cases "f x = c")
    case True
    have "\<forall>y\<in>set (first_by f (filter (\<lambda>y. f y \<noteq> f x) xs)). f y \<noteq> c"
      using True set_first_by_subset by fastforce
    then have "filter (\<lambda>y. f y = c) (first_by f (filter (\<lambda>y. f y \<noteq> f x) xs)) = []"
      by (simp add: filter_empty_conv)
    with True show ?thesis by simp
  next
    case False
    then have "find (\<lambda>y. f y = c) (filter (\<lambda>y. f y \<noteq> f x) xs) = find (\<lambda>y. f y = c) xs"
      by (intro find_filter_implied) auto
    with "2.IH" False show ?thesis by simp
  qed
qed simp

lemma map_of_keyed_filter:
  "k \<noteq> c \<Longrightarrow> map_of (map (\<lambda>x. (f x, x)) (filter (\<lambda>y. f y \<noteq> c) xs)) k = map_of (map (\<lambda>x. (f x, x)) xs) k"
  by (induction xs) auto

lemma map_of_keyed_first_by:
  "map_of (map (\<lambda>x. (f x, x)) (first_by f xs)) = map_of (map (\<lambda>x. (f x, x)) xs)"
proof (induction f xs rule: first_by.induct)
  case (2 f x xs)
  show ?case
  proof
    fix k
    show "map_of (map (\<lambda>x. (f x, x)) (first_by f (x # xs))) k = map_of (map (\<lambda>x. (f x, x)) (x # xs)) k"
      using "2.IH" map_of_keyed_filter [of k "f x" f xs] by (cases "k = f x") simp_all
  qed
qed simp

lemma filter_keys_first_by_out:
  "filter (\<lambda>y. f y \<notin> f ` set xs) (first_by f xs) = []"
  using set_first_by_subset by (fastforce simp: filter_empty_conv)

lemma filter_keys_first_by_in:
  "filter (\<lambda>y. f y \<notin> K) (first_by f (filter (\<lambda>y. f y \<notin> K) ys)) = first_by f (filter (\<lambda>y. f y \<notin> K) ys)"
  using set_first_by_subset by (fastforce simp: filter_id_conv)

lemma filter_first_by_keys:
  "filter (\<lambda>y. f y \<notin> K) (first_by f ys) = first_by f (filter (\<lambda>y. f y \<notin> K) ys)"
proof (induction f ys rule: first_by.induct)
  case (2 f x xs)
  have "filter (\<lambda>y. f y \<notin> K) (filter (\<lambda>y. f y \<noteq> f x) xs) = filter (\<lambda>y. f y \<noteq> f x) (filter (\<lambda>y. f y \<notin> K) xs)"
    by (simp add: filter_filter conj_commute)
  moreover have "f x \<in> K \<Longrightarrow> filter (\<lambda>y. f y \<notin> K) (filter (\<lambda>y. f y \<noteq> f x) xs) = filter (\<lambda>y. f y \<notin> K) xs"
    by (auto simp: filter_filter intro!: filter_cong)
  ultimately show ?case using "2.IH" by simp
qed simp

lemma first_by_nested: "first_by f (xs @ first_by f ys) = first_by f (xs @ ys)"
  by (simp add: first_by_append filter_first_by_keys first_by_idem)

lemma first_by_remerge: "first_by f (xs @ first_by f (xs @ ys)) = first_by f (xs @ ys)"
proof -
  let ?K = "f ` set xs"
  have "filter (\<lambda>y. f y \<notin> ?K) (first_by f (xs @ ys)) = first_by f (filter (\<lambda>y. f y \<notin> ?K) ys)"
    by (simp add: first_by_append filter_keys_first_by_out filter_keys_first_by_in)
  then show ?thesis by (simp add: first_by_append first_by_idem)
qed

end
