(* ===== verification/Collaborators.thy ===== *)
theory Collaborators
  imports Prelude
begin

text \<open>
  The collaborators that \<^verbatim>\<open>estimator_util.py\<close> calls but does not define: Python's
  dictionary \<^verbatim>\<open>get\<close> and truth values, the process-wide \<^verbatim>\<open>common_util.GlobalDict\<close>
  that holds the stop signal, and the \<^verbatim>\<open>logger\<close>, whose output is kept as a list of
  structured records (format string and arguments) so that the diagnostics the code
  emits can be stated and counted.
\<close>

subsection \<open>Python values and dictionaries\<close>

datatype pyval = PyNone | PyBool bool | PyInt int | PyStr string

text \<open>Python truthiness of the values a \<^verbatim>\<open>GlobalDict\<close> entry may hold.\<close>

fun truthy :: "pyval \<Rightarrow> bool" where
  "truthy PyNone = False"
| "truthy (PyBool b) = b"
| "truthy (PyInt i) = (i \<noteq> 0)"
| "truthy (PyStr s) = (s \<noteq> [])"

text \<open>\<^verbatim>\<open>d.get(key, default)\<close> on a dictionary seen as a map.\<close>

definition dict_get :: "('k \<rightharpoonup> 'v) \<Rightarrow> 'k \<Rightarrow> 'v \<Rightarrow> 'v" where
  "dict_get d k dflt = (case d k of None \<Rightarrow> dflt | Some v \<Rightarrow> v)"

subsection \<open>The shared stop signal\<close>

text \<open>
  \<^verbatim>\<open>common_util.GlobalDict()\<close> is a process-wide singleton dictionary; external logic
  writes \<^verbatim>\<open>"should_stop"\<close> into it (a map update of the state's dictionary), and
  the stop predicate reads it.
\<close>

type_synonym global_dict = "string \<rightharpoonup> pyval"

definition global_get :: "global_dict \<Rightarrow> string \<Rightarrow> pyval \<Rightarrow> pyval" where
  "global_get d k dflt = dict_get d k dflt"

subsection \<open>Log records\<close>

text \<open>
  A call \<^verbatim>\<open>logger.info(fmt, a, b)\<close> is recorded as \<open>Info fmt [a, b]\<close>; an argument is
  a string, a list of class names (printed by the logger as a Python list) or an
  integer (TensorFlow's \<^verbatim>\<open>%d\<close> of a global step).
\<close>

datatype log_arg = Arg_str string | Arg_names "string list" | Arg_int int

datatype log_entry = Info string "log_arg list" | Warning string "log_arg list"

fun is_warning :: "log_entry \<Rightarrow> bool" where
  "is_warning (Warning _ _) = True"
| "is_warning (Info _ _) = False"

subsection \<open>Dictionary lemmas\<close>

declare global_get_def [model_simps]

lemma dict_get_None [simp]: "d k = None \<Longrightarrow> dict_get d k dflt = dflt"
  and dict_get_Some [simp]: "d k = Some v \<Longrightarrow> dict_get d k dflt = v"
  by (simp_all add: dict_get_def)

lemma dict_get_upd [simp]: "dict_get (d(k \<mapsto> v)) k' dflt = (if k' = k then v else dict_get d k' dflt)"
  by (simp add: dict_get_def)

end
