(* ===== verification/Hooks.thy ===== *)
theory Hooks
  imports Collaborators
begin

text \<open>
  The Hook Merger of \<^verbatim>\<open>src/dlrover/trainer/tensorflow/util/estimator_util.py\<close>:
  the hook objects, the four hook fields of TensorFlow's \<^verbatim>\<open>EstimatorSpec\<close>, the
  deduplication loop \<^verbatim>\<open>_unique\<close> and the function \<^verbatim>\<open>append_hooks\<close>, with their
  behaviour on every branch, the reference definition \<open>first_by\<close> they implement, and
  the merge properties P1--P5 of the specification.
\<close>

subsection \<open>Hooks and the estimator spec\<close>

text \<open>
  A hook is an opaque object: the code reads only \<^verbatim>\<open>h.__class__.__name__\<close>. Its
  identity (\<open>hook_obj\<close>) tells instances of one class apart; \<open>hook_action\<close> records
  what the engine's \<^verbatim>\<open>after_run\<close> does with it: nothing the model observes, evaluate
  a stop predicate every \<open>n\<close> seconds (TensorFlow's \<^verbatim>\<open>_StopOnPredicateHook\<close>, built on
  the chief), or read the shared stop variable after every step
  (\<^verbatim>\<open>_CheckForStoppingHook\<close>, built on the other workers).
\<close>

datatype hook_action = Opaque_hook | Stop_on_predicate nat | Check_for_stopping

record hook =
  hook_class :: class_name
  hook_obj :: obj_id
  hook_action :: hook_action

text \<open>The four hook categories, named by \<^verbatim>\<open>TFConstants\<close>.\<close>

datatype hook_key =
  EstimatorTrainingChiefHooks
| EstimatorTrainingHooks
| EstimatorEvaluationHooks
| EstimatorPredictionHooks

fun key_name :: "hook_key \<Rightarrow> string" where
  "key_name EstimatorTrainingChiefHooks = ''training_chief_hooks''"
| "key_name EstimatorTrainingHooks = ''training_hooks''"
| "key_name EstimatorEvaluationHooks = ''evaluation_hooks''"
| "key_name EstimatorPredictionHooks = ''prediction_hooks''"

text \<open>
  \<^verbatim>\<open>EstimatorSpec\<close> is a named tuple; its four hook fields are the record's fields,
  every other field (mode, predictions, loss, train op, scaffold, \<dots>) is the record's
  extension \<open>'a\<close>, which no operation of the model can touch. \<open>None\<close> is a field
  that holds \<^verbatim>\<open>None\<close> or an empty tuple, which \<^verbatim>\<open>append_hooks\<close> reads as \<^verbatim>\<open>[]\<close>.
\<close>

record estimator_spec =
  training_chief_hooks :: "hook list option"
  training_hooks :: "hook list option"
  evaluation_hooks :: "hook list option"
  prediction_hooks :: "hook list option"

text \<open>\<^verbatim>\<open>getattr(estimator_spec, key)\<close>.\<close>

fun get_hooks :: "'a estimator_spec_scheme \<Rightarrow> hook_key \<Rightarrow> hook list option" where
  "get_hooks s EstimatorTrainingChiefHooks = training_chief_hooks s"
| "get_hooks s EstimatorTrainingHooks = training_hooks s"
| "get_hooks s EstimatorEvaluationHooks = evaluation_hooks s"
| "get_hooks s EstimatorPredictionHooks = prediction_hooks s"

text \<open>\<^verbatim>\<open>estimator_spec._replace(**{key: hooks})\<close>: a copy with one field replaced.\<close>

fun replace_hooks :: "'a estimator_spec_scheme \<Rightarrow> hook_key \<Rightarrow> hook list \<Rightarrow> 'a estimator_spec_scheme" where
  "replace_hooks s EstimatorTrainingChiefHooks hs = s\<lparr>training_chief_hooks := Some hs\<rparr>"
| "replace_hooks s EstimatorTrainingHooks hs = s\<lparr>training_hooks := Some hs\<rparr>"
| "replace_hooks s EstimatorEvaluationHooks hs = s\<lparr>evaluation_hooks := Some hs\<rparr>"
| "replace_hooks s EstimatorPredictionHooks hs = s\<lparr>prediction_hooks := Some hs\<rparr>"

subsection \<open>Deduplication: \<^verbatim>\<open>_unique\<close>\<close>

text \<open>
  The loop of \<^verbatim>\<open>_unique\<close> over its state: the dictionary \<^verbatim>\<open>dup\<close> from class names
  to hooks, the list \<^verbatim>\<open>result\<close> and the warnings logged so far. The membership test
  reads \<^verbatim>\<open>dup\<close> before \<^verbatim>\<open>dup[name] = h\<close> overwrites it, in both branches.
\<close>

definition exists_warning :: "class_name \<Rightarrow> log_entry" where
  "exists_warning name = Warning ''%s has existed, it won't be added'' [Arg_str name]"

fun unique_loop ::
  "hook list \<Rightarrow> (class_name \<rightharpoonup> hook) \<Rightarrow> hook list \<Rightarrow> log_entry list \<Rightarrow> hook list \<times> log_entry list"
where
  "unique_loop [] dup result logs = (result, logs)"
| "unique_loop (h # hs) dup result logs =
     (let name = hook_class h
      in if dup name = None
         then unique_loop hs (dup(name \<mapsto> h)) (result @ [h]) logs
         else unique_loop hs (dup(name \<mapsto> h)) result (logs @ [exists_warning (hook_class h)]))"

definition unique :: "hook list \<Rightarrow> hook list \<times> log_entry list" where
  "unique hooks = unique_loop hooks Map.empty [] []"

subsection \<open>\<^verbatim>\<open>append_hooks\<close>\<close>

text \<open>\<^verbatim>\<open>[c.__class__.__name__ for c in hooks]\<close>: the class names the log records show.\<close>

definition class_names :: "hook list \<Rightarrow> class_name list" where
  "class_names hs = map hook_class hs"

definition before_log :: "hook_key \<Rightarrow> class_name list \<Rightarrow> log_entry" where
  "before_log key names = Info ''Hooks before deduplication: %s = %s'' [Arg_str (key_name key), Arg_names names]"

definition after_log :: "hook_key \<Rightarrow> class_name list \<Rightarrow> log_entry" where
  "after_log key names =
     Info ''Appending hooks after deduplication: %s = %s'' [Arg_str (key_name key), Arg_names names]"

text \<open>
  \<^verbatim>\<open>params\<close> is the caller's configuration dictionary, from key names to the current
  contents of its hook lists. The result is the new spec and the log records emitted.
\<close>

text \<open>\<^verbatim>\<open>getattr(estimator_spec, key) or []\<close>.\<close>

definition existing_hooks :: "'a estimator_spec_scheme \<Rightarrow> hook_key \<Rightarrow> hook list" where
  "existing_hooks estimator_spec key = (case get_hooks estimator_spec key of None \<Rightarrow> [] | Some xs \<Rightarrow> xs)"

text \<open>
  \<^verbatim>\<open>hooks = [hook for hook in params.get(key, [])]\<close>: a fresh list of the hooks
  configured for a category, so that extending it leaves the configuration alone.
\<close>

definition configured_hooks :: "(string \<rightharpoonup> hook list) \<Rightarrow> hook_key \<Rightarrow> hook list" where
  "configured_hooks params key = dict_get params (key_name key) []"

definition append_hooks ::
  "'a estimator_spec_scheme \<Rightarrow> hook_key \<Rightarrow> (string \<rightharpoonup> hook list) \<Rightarrow> 'a estimator_spec_scheme \<times> log_entry list"
where
  "append_hooks estimator_spec key params =
     (let old = existing_hooks estimator_spec key;
          hooks = configured_hooks params key
      in if hooks \<noteq> []
         then (let hooks_names = class_names hooks;
                   (hooks', dedup_log) = unique (hooks @ old)
               in (replace_hooks estimator_spec key hooks',
                   [before_log key hooks_names] @ dedup_log @ [after_log key (class_names hooks')]))
         else (estimator_spec, []))"

subsection \<open>Abstraction: a hook list as a dictionary from class names\<close>

text \<open>
  The abstract view of a category's hooks: the dictionary from each class name to the
  first hook of that class, what a reader of the merged list can look up.
\<close>

definition class_map :: "hook list \<Rightarrow> (class_name \<rightharpoonup> hook)" where
  "class_map hs = map_of (map (\<lambda>h. (hook_class h, h)) hs)"

subsection \<open>Example values for the witnesses\<close>

definition ex_hook :: "class_name \<Rightarrow> obj_id \<Rightarrow> hook" where
  "ex_hook c n = \<lparr>hook_class = c, hook_obj = n, hook_action = Opaque_hook\<rparr>"

definition ex_spec :: "hook list option \<Rightarrow> estimator_spec" where
  "ex_spec hs = \<lparr>training_chief_hooks = None, training_hooks = hs, evaluation_hooks = None,
     prediction_hooks = None\<rparr>"

subsection \<open>The record accessors\<close>

declare class_names_def [simp] configured_hooks_def [simp] existing_hooks_def [model_simps] ex_hook_def [model_simps] ex_spec_def [model_simps]

lemma get_replace_hooks [simp]:
  "get_hooks (replace_hooks s k hs) k' = (if k' = k then Some hs else get_hooks s k')"
  by (cases k; cases k') simp_all

lemma more_replace_hooks [simp]:
  "estimator_spec.more (replace_hooks s k hs) = estimator_spec.more s"
  by (cases k) simp_all

lemma key_name_inj [simp]: "(key_name k = key_name k') = (k = k')"
  by (cases k; cases k') simp_all

lemma estimator_spec_eqI:
  assumes "\<And>k. get_hooks r k = get_hooks r' k" and "estimator_spec.more r = estimator_spec.more r'"
  shows "r = r'"
proof (rule estimator_spec.equality)
  show "estimator_spec.training_chief_hooks r = estimator_spec.training_chief_hooks r'"
    using assms(1) [of EstimatorTrainingChiefHooks] by simp
  show "estimator_spec.training_hooks r = estimator_spec.training_hooks r'"
    using assms(1) [of EstimatorTrainingHooks] by simp
  show "estimator_spec.evaluation_hooks r = estimator_spec.evaluation_hooks r'"
    using assms(1) [of EstimatorEvaluationHooks] by simp
  show "estimator_spec.prediction_hooks r = estimator_spec.prediction_hooks r'"
    using assms(1) [of EstimatorPredictionHooks] by simp
qed (rule assms(2))

subsection \<open>The loop of \<^verbatim>\<open>_unique\<close> implements \<open>first_by\<close>\<close>

text \<open>
  Loop invariant: from a state \<open>(dup, result, logs)\<close>, the loop appends to
  \<open>result\<close> the first hook of each class of the remaining hooks that \<open>dup\<close> has not
  seen, and logs one warning for each other remaining hook, in order.
\<close>

lemma unique_loop_step_new:
  "dup (hook_class h) = None \<Longrightarrow>
   unique_loop (h # hs) dup result logs = unique_loop hs (dup(hook_class h \<mapsto> h)) (result @ [h]) logs"
  by (simp add: Let_def)

lemma unique_loop_step_dup:
  "dup (hook_class h) \<noteq> None \<Longrightarrow>
   unique_loop (h # hs) dup result logs =
   unique_loop hs (dup(hook_class h \<mapsto> h)) result (logs @ [exists_warning (hook_class h)])"
  by (cases "dup (hook_class h)") (simp_all add: Let_def)

lemma dom_upd_seen: "dup k \<noteq> None \<Longrightarrow> dom (dup(k \<mapsto> h)) = dom dup"
  by auto

lemma dom_upd_new: "dup k = None \<Longrightarrow> dom (dup(k \<mapsto> h)) = insert k (dom dup)"
  by simp

lemma unique_loop_fst:
  "fst (unique_loop hs dup result logs) =
     result @ first_by hook_class (filter (\<lambda>h. hook_class h \<notin> dom dup) hs)"
proof (induction hs arbitrary: dup result logs)
  case (Cons h hs)
  show ?case
  proof (cases "dup (hook_class h) = None")
    case True
    have IH: "fst (unique_loop hs (dup(hook_class h \<mapsto> h)) (result @ [h]) logs) =
        (result @ [h]) @ first_by hook_class (filter (\<lambda>g. hook_class g \<noteq> hook_class h)
          (filter (\<lambda>g. hook_class g \<notin> dom dup) hs))"
      using Cons.IH [of "dup(hook_class h \<mapsto> h)" "result @ [h]" logs]
      unfolding dom_upd_new [of dup "hook_class h" h, OF True] filter_not_insert .
    from True have "filter (\<lambda>g. hook_class g \<notin> dom dup) (h # hs) = h # filter (\<lambda>g. hook_class g \<notin> dom dup) hs"
      by auto
    then show ?thesis
      unfolding unique_loop_step_new [of dup h hs, OF True] IH first_by.simps(2) by simp
  next
    case False
    have IH: "fst (unique_loop hs (dup(hook_class h \<mapsto> h)) result (logs @ [exists_warning (hook_class h)])) =
        result @ first_by hook_class (filter (\<lambda>g. hook_class g \<notin> dom dup) hs)"
      using Cons.IH [of "dup(hook_class h \<mapsto> h)" result "logs @ [exists_warning (hook_class h)]"]
      unfolding dom_upd_seen [of dup "hook_class h" h, OF False] .
    from False have "filter (\<lambda>g. hook_class g \<notin> dom dup) (h # hs) = filter (\<lambda>g. hook_class g \<notin> dom dup) hs"
      by auto
    then show ?thesis
      unfolding unique_loop_step_dup [of dup h hs, OF False] IH by simp
  qed
qed simp

lemma unique_loop_snd:
  "\<exists>ds. snd (unique_loop hs dup result logs) = logs @ map (exists_warning \<circ> hook_class) ds
     \<and> mset ds + mset (first_by hook_class (filter (\<lambda>h. hook_class h \<notin> dom dup) hs)) = mset hs
     \<and> (\<forall>d\<in>set ds. hook_class d \<in> dom dup \<union> hook_class ` set hs)"
proof (induction hs arbitrary: dup result logs)
  case (Cons h hs)
  show ?case
  proof (cases "dup (hook_class h) = None")
    case True
    obtain ds where ds:
      "snd (unique_loop hs (dup(hook_class h \<mapsto> h)) (result @ [h]) logs) = logs @ map (exists_warning \<circ> hook_class) ds"
      "mset ds + mset (first_by hook_class (filter (\<lambda>g. hook_class g \<noteq> hook_class h)
          (filter (\<lambda>g. hook_class g \<notin> dom dup) hs))) = mset hs"
      "\<forall>d\<in>set ds. hook_class d \<in> insert (hook_class h) (dom dup) \<union> hook_class ` set hs"
      using Cons.IH [of "dup(hook_class h \<mapsto> h)" "result @ [h]" logs]
      unfolding dom_upd_new [of dup "hook_class h" h, OF True] filter_not_insert by blast
    from True have filt: "filter (\<lambda>g. hook_class g \<notin> dom dup) (h # hs) = h # filter (\<lambda>g. hook_class g \<notin> dom dup) hs"
      by auto
    have "mset ds + mset (first_by hook_class (filter (\<lambda>g. hook_class g \<notin> dom dup) (h # hs))) = mset (h # hs)"
      unfolding filt first_by.simps(2) using ds(2) by simp
    with ds(1,3) show ?thesis
      unfolding unique_loop_step_new [of dup h hs, OF True]
      by (intro exI [of _ ds]) auto
  next
    case False
    obtain ds where ds:
      "snd (unique_loop hs (dup(hook_class h \<mapsto> h)) result (logs @ [exists_warning (hook_class h)]))
        = (logs @ [exists_warning (hook_class h)]) @ map (exists_warning \<circ> hook_class) ds"
      "mset ds + mset (first_by hook_class (filter (\<lambda>g. hook_class g \<notin> dom dup) hs)) = mset hs"
      "\<forall>d\<in>set ds. hook_class d \<in> dom dup \<union> hook_class ` set hs"
      using Cons.IH [of "dup(hook_class h \<mapsto> h)" result "logs @ [exists_warning (hook_class h)]"]
      unfolding dom_upd_seen [of dup "hook_class h" h, OF False] by blast
    from False have "filter (\<lambda>g. hook_class g \<notin> dom dup) (h # hs) = filter (\<lambda>g. hook_class g \<notin> dom dup) hs"
      by auto
    with ds(2) have "mset (h # ds) + mset (first_by hook_class (filter (\<lambda>g. hook_class g \<notin> dom dup) (h # hs)))
        = mset (h # hs)" by simp
    moreover from False have "hook_class h \<in> dom dup" by auto
    ultimately show ?thesis
      using ds(1,3) unfolding unique_loop_step_dup [of dup h hs, OF False]
      by (intro exI [of _ "h # ds"]) auto
  qed
qed simp

lemma unique_fst [simp]: "fst (unique hs) = first_by hook_class hs"
  by (simp add: unique_def unique_loop_fst)

lemma unique_snd:
  "\<exists>ds. snd (unique hs) = map (exists_warning \<circ> hook_class) ds
     \<and> mset (first_by hook_class hs) + mset ds = mset hs
     \<and> (\<forall>d\<in>set ds. hook_class d \<in> hook_class ` set (first_by hook_class hs))"
  using unique_loop_snd [of hs Map.empty "[]" "[]"]
  by (simp add: unique_def image_first_by add.commute)

subsection \<open>\<^verbatim>\<open>append_hooks\<close> on each branch\<close>

lemma append_hooks_no_config:
  "configured_hooks params k = [] \<Longrightarrow> append_hooks s k params = (s, [])"
  by (simp add: append_hooks_def Let_def)

lemma append_hooks_config:
  assumes "configured_hooks params k \<noteq> []"
  shows "append_hooks s k params =
    (replace_hooks s k (first_by hook_class (configured_hooks params k @ existing_hooks s k)),
     [before_log k (map hook_class (configured_hooks params k))]
     @ snd (unique (configured_hooks params k @ existing_hooks s k))
     @ [after_log k (map hook_class (first_by hook_class (configured_hooks params k @ existing_hooks s k)))])"
  using assms by (simp add: append_hooks_def Let_def split_beta)

lemma append_hooks_other [simp]:
  "k' \<noteq> k \<Longrightarrow> get_hooks (fst (append_hooks s k params)) k' = get_hooks s k'"
  by (cases "configured_hooks params k = []") (simp_all add: append_hooks_no_config append_hooks_config)

lemma append_hooks_more [simp]:
  "estimator_spec.more (fst (append_hooks s k params)) = estimator_spec.more s"
  by (cases "configured_hooks params k = []") (simp_all add: append_hooks_no_config append_hooks_config)

lemma append_hooks_same:
  "get_hooks (fst (append_hooks s k params)) k =
     (if configured_hooks params k = [] then get_hooks s k
      else Some (first_by hook_class (configured_hooks params k @ existing_hooks s k)))"
  by (simp add: append_hooks_no_config append_hooks_config)

text \<open>What a merge logs depends on the merged category alone.\<close>

lemma append_hooks_log_field:
  "get_hooks s1 k = get_hooks s k \<Longrightarrow> snd (append_hooks s1 k params) = snd (append_hooks s k params)"
  by (simp add: append_hooks_def existing_hooks_def split_beta Let_def)

lemma find_append_found:
  "T \<in> f ` set xs \<Longrightarrow> find (\<lambda>h. f h = T) (xs @ ys) = find (\<lambda>h. f h = T) xs"
  by (induction xs) auto

lemma warnings_exists_warning [simp]:
  "filter is_warning (map (exists_warning \<circ> hook_class) ds) = map (exists_warning \<circ> hook_class) ds"
  by (induction ds) (simp_all add: exists_warning_def)

lemma is_warning_logs [simp]:
  "\<not> is_warning (before_log k ns)" "\<not> is_warning (after_log k ns)"
  by (simp_all add: before_log_def after_log_def)

subsection \<open>Properties of the Hook Merger\<close>

text \<open>
  C1: when the configuration holds hooks for a category, \<^verbatim>\<open>append_hooks\<close> replaces the
  category's hooks by the configured hooks followed by the existing ones, keeping the
  first hook of each class and dropping the later ones.
\<close>

theorem append_hooks_merges:
  assumes "configured_hooks params k \<noteq> []"
  shows "get_hooks (fst (append_hooks s k params)) k =
           Some (first_by hook_class (configured_hooks params k @ existing_hooks s k))"
  using assms by (simp add: append_hooks_same)

theorem append_hooks_merges_witness:
  "configured_hooks [''training_hooks'' \<mapsto> [ex_hook ''CheckpointHook'' 1]] EstimatorTrainingHooks \<noteq> []
   \<and> get_hooks (fst (append_hooks (ex_spec (Some [ex_hook ''CheckpointHook'' 2, ex_hook ''SummaryHook'' 3]))
        EstimatorTrainingHooks [''training_hooks'' \<mapsto> [ex_hook ''CheckpointHook'' 1]])) EstimatorTrainingHooks
     = Some [ex_hook ''CheckpointHook'' 1, ex_hook ''SummaryHook'' 3]"
  using append_hooks_merges [of "[''training_hooks'' \<mapsto> [ex_hook ''CheckpointHook'' 1]]" EstimatorTrainingHooks
      "ex_spec (Some [ex_hook ''CheckpointHook'' 2, ex_hook ''SummaryHook'' 3])"]
  by (simp add: model_simps)

text \<open>
  C2: the loop \<^verbatim>\<open>_unique\<close> returns the first hook of each class in order
  (\<open>first_by\<close>) and logs exactly one warning, naming the class, for each other hook; every
  warned class is one the result keeps.
\<close>

theorem unique_first_occurrence:
  "\<exists>ds. unique hs = (first_by hook_class hs, map (exists_warning \<circ> hook_class) ds)
     \<and> mset (first_by hook_class hs) + mset ds = mset hs
     \<and> (\<forall>d\<in>set ds. hook_class d \<in> hook_class ` set (first_by hook_class hs))"
proof -
  obtain ds where "snd (unique hs) = map (exists_warning \<circ> hook_class) ds"
    "mset (first_by hook_class hs) + mset ds = mset hs"
    "\<forall>d\<in>set ds. hook_class d \<in> hook_class ` set (first_by hook_class hs)"
    using unique_snd by blast
  moreover have "unique hs = (first_by hook_class hs, snd (unique hs))"
    by (metis unique_fst prod.collapse)
  ultimately show ?thesis by (intro exI [of _ ds]) simp
qed

theorem unique_first_occurrence_witness:
  "\<exists>ds. unique [ex_hook ''LoggingHookA'' 1, ex_hook ''LoggingHookA'' 2] =
      ([ex_hook ''LoggingHookA'' 1], map (exists_warning \<circ> hook_class) ds)
     \<and> mset [ex_hook ''LoggingHookA'' 1] + mset ds = mset [ex_hook ''LoggingHookA'' 1, ex_hook ''LoggingHookA'' 2]
     \<and> (\<forall>d\<in>set ds. hook_class d \<in> hook_class ` set [ex_hook ''LoggingHookA'' 1])"
  using unique_first_occurrence [of "[ex_hook ''LoggingHookA'' 1, ex_hook ''LoggingHookA'' 2]"]
  by (simp add: model_simps)

text \<open>
  C12 (configured priority, P2): for a class that the configuration holds, the hook of
  that class in the merged list is the first configured hook of the class; an existing
  hook of the same class is never kept in its place.
\<close>

theorem append_hooks_configured_priority:
  assumes "T \<in> hook_class ` set (configured_hooks params k)"
    and "get_hooks (fst (append_hooks s k params)) k = Some hs"
  shows "find (\<lambda>h. hook_class h = T) hs = find (\<lambda>h. hook_class h = T) (configured_hooks params k)"
proof -
  from assms(1) have "configured_hooks params k \<noteq> []" by auto
  with assms(2) have "hs = first_by hook_class (configured_hooks params k @ existing_hooks s k)"
    by (simp add: append_hooks_same)
  with assms(1) show ?thesis by (simp add: find_first_by find_append_found)
qed

theorem append_hooks_configured_priority_witness:
  "find (\<lambda>h. hook_class h = ''CheckpointHook'') [ex_hook ''CheckpointHook'' 1, ex_hook ''SummaryHook'' 3]
     = Some (ex_hook ''CheckpointHook'' 1)"
proof -
  let ?p = "[''training_hooks'' \<mapsto> [ex_hook ''CheckpointHook'' 1]]"
  let ?s = "ex_spec (Some [ex_hook ''CheckpointHook'' 2, ex_hook ''SummaryHook'' 3])"
  have "''CheckpointHook'' \<in> hook_class ` set (configured_hooks ?p EstimatorTrainingHooks)"
    by (simp add: model_simps)
  moreover have "get_hooks (fst (append_hooks ?s EstimatorTrainingHooks ?p)) EstimatorTrainingHooks
      = Some [ex_hook ''CheckpointHook'' 1, ex_hook ''SummaryHook'' 3]"
    unfolding append_hooks_same by (simp add: model_simps)
  ultimately have "find (\<lambda>h. hook_class h = ''CheckpointHook'') [ex_hook ''CheckpointHook'' 1, ex_hook ''SummaryHook'' 3]
     = find (\<lambda>h. hook_class h = ''CheckpointHook'') (configured_hooks ?p EstimatorTrainingHooks)"
    by (rule append_hooks_configured_priority)
  then show ?thesis by (simp add: model_simps)
qed

text \<open>
  C13 (order, P3): when no configured class is already present, the merged list is the
  configured hooks followed by the existing ones, each deduplicated on its own; when each
  is also free of repeated classes, it is exactly the configured hooks followed by the
  existing ones.
\<close>

theorem append_hooks_disjoint_order:
  assumes "configured_hooks params k \<noteq> []"
    and "hook_class ` set (configured_hooks params k) \<inter> hook_class ` set (existing_hooks s k) = {}"
  shows "get_hooks (fst (append_hooks s k params)) k =
           Some (first_by hook_class (configured_hooks params k) @ first_by hook_class (existing_hooks s k))"
proof -
  have "filter (\<lambda>y. hook_class y \<notin> hook_class ` set (configured_hooks params k)) (existing_hooks s k)
      = existing_hooks s k"
    using assms(2) by (auto simp: filter_id_conv)
  with assms(1) show ?thesis by (simp add: append_hooks_same first_by_append)
qed

theorem append_hooks_disjoint_order_witness:
  "get_hooks (fst (append_hooks (ex_spec (Some [ex_hook ''SummaryHook'' 2, ex_hook ''SummaryHook'' 3]))
      EstimatorTrainingHooks [''training_hooks'' \<mapsto> [ex_hook ''CheckpointHook'' 1]])) EstimatorTrainingHooks
   = Some [ex_hook ''CheckpointHook'' 1, ex_hook ''SummaryHook'' 2]"
proof -
  let ?p = "[''training_hooks'' \<mapsto> [ex_hook ''CheckpointHook'' 1]]"
  let ?s = "ex_spec (Some [ex_hook ''SummaryHook'' 2, ex_hook ''SummaryHook'' 3])"
  have "configured_hooks ?p EstimatorTrainingHooks \<noteq> []" by simp
  moreover have "hook_class ` set (configured_hooks ?p EstimatorTrainingHooks)
      \<inter> hook_class ` set (existing_hooks ?s EstimatorTrainingHooks) = {}"
    by (simp add: model_simps)
  ultimately have "get_hooks (fst (append_hooks ?s EstimatorTrainingHooks ?p)) EstimatorTrainingHooks =
      Some (first_by hook_class (configured_hooks ?p EstimatorTrainingHooks)
            @ first_by hook_class (existing_hooks ?s EstimatorTrainingHooks))"
    by (rule append_hooks_disjoint_order)
  then show ?thesis by (simp add: model_simps)
qed

text \<open>
  C14 (fast path, P4): with no configured hooks for the category (the key is absent or
  its list is empty), \<^verbatim>\<open>append_hooks\<close> returns the spec itself and logs nothing; a
  field that holds \<^verbatim>\<open>None\<close> stays \<^verbatim>\<open>None\<close>.
\<close>

theorem append_hooks_fast_path:
  assumes "configured_hooks params k = []"
  shows "append_hooks s k params = (s, [])"
  using assms by (simp add: append_hooks_def Let_def)

theorem append_hooks_fast_path_witness:
  "append_hooks (ex_spec None) EstimatorEvaluationHooks [''training_hooks'' \<mapsto> [ex_hook ''CheckpointHook'' 1]]
   = (ex_spec None, [])"
  by (rule append_hooks_fast_path) simp

text \<open>
  C15 (no leakage, P5): merging one category changes no other hook field and no other
  field of the spec.
\<close>

theorem append_hooks_isolation:
  assumes "k' \<noteq> k"
  shows "get_hooks (fst (append_hooks s k params)) k' = get_hooks s k'
    \<and> estimator_spec.more (fst (append_hooks s k params)) = estimator_spec.more s"
  using assms
  by (cases "configured_hooks params k = []") (simp_all add: append_hooks_def Let_def split_beta)

theorem append_hooks_isolation_witness:
  "get_hooks (fst (append_hooks (ex_spec (Some [ex_hook ''SummaryHook'' 2])) EstimatorEvaluationHooks
      [''evaluation_hooks'' \<mapsto> [ex_hook ''CheckpointHook'' 1]])) EstimatorTrainingHooks
     = Some [ex_hook ''SummaryHook'' 2]"
  using append_hooks_isolation [of EstimatorTrainingHooks EstimatorEvaluationHooks
      "ex_spec (Some [ex_hook ''SummaryHook'' 2])" "[''evaluation_hooks'' \<mapsto> [ex_hook ''CheckpointHook'' 1]]"]
  by (simp add: model_simps)

text \<open>
  C17 (same types, P1): when every class of the existing hooks is also configured, the
  merged list is the configured hooks deduplicated, in their order, every instance taken
  from the configuration.
\<close>

theorem append_hooks_same_types:
  assumes "configured_hooks params k \<noteq> []"
    and "hook_class ` set (existing_hooks s k) \<subseteq> hook_class ` set (configured_hooks params k)"
  shows "get_hooks (fst (append_hooks s k params)) k = Some (first_by hook_class (configured_hooks params k))"
proof -
  have "filter (\<lambda>y. hook_class y \<notin> hook_class ` set (configured_hooks params k)) (existing_hooks s k) = []"
    using assms(2) by (auto simp: filter_empty_conv)
  with assms(1) show ?thesis by (simp add: append_hooks_same first_by_append)
qed

theorem append_hooks_same_types_witness:
  "get_hooks (fst (append_hooks (ex_spec (Some [ex_hook ''SummaryHook'' 3, ex_hook ''CheckpointHook'' 4]))
      EstimatorTrainingHooks [''training_hooks'' \<mapsto> [ex_hook ''CheckpointHook'' 1, ex_hook ''SummaryHook'' 2]]))
      EstimatorTrainingHooks
   = Some [ex_hook ''CheckpointHook'' 1, ex_hook ''SummaryHook'' 2]"
proof -
  let ?p = "[''training_hooks'' \<mapsto> [ex_hook ''CheckpointHook'' 1, ex_hook ''SummaryHook'' 2]]"
  let ?s = "ex_spec (Some [ex_hook ''SummaryHook'' 3, ex_hook ''CheckpointHook'' 4])"
  have "configured_hooks ?p EstimatorTrainingHooks \<noteq> []" by simp
  moreover have "hook_class ` set (existing_hooks ?s EstimatorTrainingHooks)
      \<subseteq> hook_class ` set (configured_hooks ?p EstimatorTrainingHooks)"
    by (simp add: model_simps)
  ultimately have "get_hooks (fst (append_hooks ?s EstimatorTrainingHooks ?p)) EstimatorTrainingHooks =
      Some (first_by hook_class (configured_hooks ?p EstimatorTrainingHooks))"
    by (rule append_hooks_same_types)
  then show ?thesis by (simp add: model_simps)
qed

text \<open>
  C25 (diagnostics): a merge logs one warning per hook it drops: the warnings and the
  merged hooks together account for every configured and every existing hook.
\<close>

theorem append_hooks_warnings:
  assumes "configured_hooks params k \<noteq> []"
    and "get_hooks (fst (append_hooks s k params)) k = Some hs"
  shows "length (filter is_warning (snd (append_hooks s k params))) + length hs
           = length (configured_hooks params k) + length (existing_hooks s k)"
proof -
  let ?in = "configured_hooks params k @ existing_hooks s k"
  obtain ds where ds: "snd (unique ?in) = map (exists_warning \<circ> hook_class) ds"
    "mset (first_by hook_class ?in) + mset ds = mset ?in"
    using unique_snd by blast
  from ds(2) have len: "length (first_by hook_class ?in) + length ds = length ?in"
    by (metis size_mset size_union)
  from assms have "hs = first_by hook_class ?in" by (simp add: append_hooks_same)
  with assms(1) ds(1) len show ?thesis by (simp add: append_hooks_config)
qed

theorem append_hooks_warnings_witness:
  "length (filter is_warning (snd (append_hooks (ex_spec (Some [ex_hook ''CheckpointHook'' 2, ex_hook ''SummaryHook'' 3]))
      EstimatorTrainingHooks [''training_hooks'' \<mapsto> [ex_hook ''CheckpointHook'' 1]]))) = 1"
proof -
  let ?p = "[''training_hooks'' \<mapsto> [ex_hook ''CheckpointHook'' 1]]"
  let ?s = "ex_spec (Some [ex_hook ''CheckpointHook'' 2, ex_hook ''SummaryHook'' 3])"
  have "configured_hooks ?p EstimatorTrainingHooks \<noteq> []" by simp
  moreover have "get_hooks (fst (append_hooks ?s EstimatorTrainingHooks ?p)) EstimatorTrainingHooks
      = Some [ex_hook ''CheckpointHook'' 1, ex_hook ''SummaryHook'' 3]"
    unfolding append_hooks_same by (simp add: model_simps)
  ultimately have "length (filter is_warning (snd (append_hooks ?s EstimatorTrainingHooks ?p)))
      + length [ex_hook ''CheckpointHook'' 1, ex_hook ''SummaryHook'' 3]
      = length (configured_hooks ?p EstimatorTrainingHooks) + length (existing_hooks ?s EstimatorTrainingHooks)"
    by (rule append_hooks_warnings)
  then show ?thesis by (simp add: model_simps)
qed

text \<open>
  C26 (diagnostics): the first record a merge logs, ``Hooks before deduplication'',
  lists the class names of the configured hooks only, not those of the existing hooks
  that the merge also scans.
\<close>

theorem append_hooks_before_log:
  assumes "configured_hooks params k \<noteq> []"
  shows "hd (snd (append_hooks s k params)) = before_log k (map hook_class (configured_hooks params k))"
  using assms by (simp add: append_hooks_config)

theorem append_hooks_before_log_witness:
  "hd (snd (append_hooks (ex_spec (Some [ex_hook ''SummaryHook'' 3])) EstimatorTrainingHooks
      [''training_hooks'' \<mapsto> [ex_hook ''CheckpointHook'' 1]]))
   = before_log EstimatorTrainingHooks [''CheckpointHook'']"
  using append_hooks_before_log [of "[''training_hooks'' \<mapsto> [ex_hook ''CheckpointHook'' 1]]" EstimatorTrainingHooks
      "ex_spec (Some [ex_hook ''SummaryHook'' 3])"]
  by (simp add: model_simps)

text \<open>
  C3 (refinement): read as a dictionary from class names, the merged list is the
  existing hooks' dictionary overridden by the configured hooks' dictionary; as it holds
  no repeated class, the list loses nothing of that dictionary.
\<close>

theorem append_hooks_refines_override:
  assumes "configured_hooks params k \<noteq> []"
    and "get_hooks (fst (append_hooks s k params)) k = Some hs"
  shows "class_map hs = class_map (existing_hooks s k) ++ class_map (configured_hooks params k)
    \<and> distinct (map hook_class hs)"
proof -
  from assms have hs: "hs = first_by hook_class (configured_hooks params k @ existing_hooks s k)"
    by (simp add: append_hooks_same)
  then have "class_map hs = class_map (configured_hooks params k @ existing_hooks s k)"
    by (simp add: class_map_def map_of_keyed_first_by)
  with hs show ?thesis by (simp add: class_map_def map_of_append distinct_first_by)
qed

theorem append_hooks_refines_override_witness:
  "class_map [ex_hook ''CheckpointHook'' 1, ex_hook ''SummaryHook'' 3] ''CheckpointHook'' = Some (ex_hook ''CheckpointHook'' 1)
   \<and> class_map [ex_hook ''CheckpointHook'' 1, ex_hook ''SummaryHook'' 3] ''SummaryHook'' = Some (ex_hook ''SummaryHook'' 3)"
proof -
  let ?p = "[''training_hooks'' \<mapsto> [ex_hook ''CheckpointHook'' 1]]"
  let ?s = "ex_spec (Some [ex_hook ''CheckpointHook'' 2, ex_hook ''SummaryHook'' 3])"
  have "configured_hooks ?p EstimatorTrainingHooks \<noteq> []" by simp
  moreover have "get_hooks (fst (append_hooks ?s EstimatorTrainingHooks ?p)) EstimatorTrainingHooks
      = Some [ex_hook ''CheckpointHook'' 1, ex_hook ''SummaryHook'' 3]"
    unfolding append_hooks_same by (simp add: model_simps)
  ultimately have "class_map [ex_hook ''CheckpointHook'' 1, ex_hook ''SummaryHook'' 3] =
      class_map (existing_hooks ?s EstimatorTrainingHooks) ++ class_map (configured_hooks ?p EstimatorTrainingHooks)"
    using append_hooks_refines_override by blast
  then show ?thesis by (simp add: class_map_def ex_hook_def ex_spec_def existing_hooks_def)
qed

text \<open>
  C28 (re-merge is idempotent): merging the same configuration into a spec that is
  already the result of that merge leaves the category as it is.
\<close>

theorem append_hooks_remerge:
  "get_hooks (fst (append_hooks (fst (append_hooks s k params)) k params)) k =
   get_hooks (fst (append_hooks s k params)) k"
proof (cases "configured_hooks params k = []")
  case True
  then show ?thesis by (simp add: append_hooks_same)
next
  case False
  then have "existing_hooks (fst (append_hooks s k params)) k =
      first_by hook_class (configured_hooks params k @ existing_hooks s k)"
    by (simp add: existing_hooks_def append_hooks_same)
  with False show ?thesis by (simp add: append_hooks_same first_by_remerge)
qed

end
