(* ===== verification/Wrapper.thy ===== *)
theory Wrapper
  imports Hooks
begin

text \<open>
  The Interception Wrapper of \<^verbatim>\<open>estimator_util.py\<close>: \<^verbatim>\<open>hook_estimator_call_model_fn\<close>
  replaces \<^verbatim>\<open>Estimator._call_model_fn\<close> by the closure \<^verbatim>\<open>dlrover_call_model_fn\<close>,
  which captures the configuration \<^verbatim>\<open>params\<close> and the entry point it replaced. The
  process state is a record: the current value of \<^verbatim>\<open>Estimator._call_model_fn\<close>, the
  heap of Python list objects that configurations refer to (the code appends to one of
  them in place), the \<^verbatim>\<open>GlobalDict\<close>, a counter for fresh object identities and the log.
\<close>

subsection \<open>State\<close>

text \<open>
  A configuration value is a reference to a mutable list or an immutable tuple of
  hooks; \<^verbatim>\<open>params\<close> is the dictionary from key names to such values.
\<close>

datatype param_val = Param_list addr | Param_tuple "hook list"

type_synonym params = "(string \<times> param_val) list"

text \<open>
  The value of the class attribute \<^verbatim>\<open>Estimator._call_model_fn\<close>: TensorFlow's own
  method, or a \<^verbatim>\<open>dlrover_call_model_fn\<close> closure over the \<^verbatim>\<open>params\<close> given to
  \<^verbatim>\<open>hook_estimator_call_model_fn\<close> and the value the attribute had before.
\<close>

datatype model_fn_impl =
  Original_call_model_fn
| Dlrover_call_model_fn "params option" model_fn_impl

record runtime =
  call_model_fn :: model_fn_impl
  heap :: "addr \<rightharpoonup> hook list"
  global_dict :: global_dict
  next_obj :: obj_id
  log :: "log_entry list"

text \<open>A Python exception: its class name and message.\<close>

datatype exc = Exc string string

text \<open>
  The estimator instance \<^verbatim>\<open>self = args[0]\<close> of a call: the closure hands it to
  TensorFlow's \<^verbatim>\<open>make_early_stopping_hook\<close>, which reads only
  \<^verbatim>\<open>self.config.is_chief\<close>. The arguments of a call are the estimator and the rest.
\<close>

record run_config =
  is_chief :: bool

record estimator =
  config :: run_config

definition init_runtime :: runtime where
  "init_runtime = \<lparr>call_model_fn = Original_call_model_fn, heap = Map.empty, global_dict = Map.empty,
     next_obj = 0, log = []\<rparr>"

subsection \<open>Reading the configuration\<close>

text \<open>\<^verbatim>\<open>params.get(key)\<close>, seen through the heap: the current contents of the value.\<close>

definition params_view :: "(addr \<rightharpoonup> hook list) \<Rightarrow> params \<Rightarrow> (string \<rightharpoonup> hook list)" where
  "params_view hp p k =
     (case map_of p k of
        None \<Rightarrow> None
      | Some (Param_list a) \<Rightarrow> hp a
      | Some (Param_tuple hs) \<Rightarrow> Some hs)"

text \<open>\<^verbatim>\<open>if params:\<close> on \<^verbatim>\<open>None\<close> or a dictionary.\<close>

fun params_truthy :: "params option \<Rightarrow> bool" where
  "params_truthy None = False"
| "params_truthy (Some p) = (p \<noteq> [])"

subsection \<open>The early-stopping hook\<close>

text \<open>
  \<^verbatim>\<open>should_stop_fn\<close>: logs that it is called and returns
  \<^verbatim>\<open>GlobalDict().get("should_stop", False)\<close> at the time of the call.
\<close>

definition should_stop_fn :: "runtime \<Rightarrow> pyval \<times> runtime" where
  "should_stop_fn s =
     (global_get (global_dict s) ''should_stop'' (PyBool False),
      s\<lparr>log := log s @ [Info ''should_stop_fn is called'' []]\<rparr>)"

text \<open>
  TensorFlow's \<^verbatim>\<open>early_stopping.make_early_stopping_hook(estimator, should_stop_fn,
  run_every_secs)\<close> constructs a fresh hook object: on the chief a
  \<^verbatim>\<open>_StopOnPredicateHook\<close> that calls its predicate (here always \<open>should_stop_fn\<close>)
  every \<open>run_every_secs\<close> seconds, on any other worker a \<^verbatim>\<open>_CheckForStoppingHook\<close>
  that ignores the predicate and reads the stop variable the chief sets.
\<close>

definition make_early_stopping_hook :: "estimator \<Rightarrow> runtime \<Rightarrow> nat \<Rightarrow> hook \<times> runtime" where
  "make_early_stopping_hook est s run_every_secs =
     (if is_chief (config est)
      then \<lparr>hook_class = ''_StopOnPredicateHook'', hook_obj = next_obj s,
            hook_action = Stop_on_predicate run_every_secs\<rparr>
      else \<lparr>hook_class = ''_CheckForStoppingHook'', hook_obj = next_obj s,
            hook_action = Check_for_stopping\<rparr>,
      s\<lparr>next_obj := Suc (next_obj s)\<rparr>)"

text \<open>
  \<^verbatim>\<open>early_stopping.make_early_stopping_hook(self, should_stop_fn, run_every_secs=10)\<close>:
  the hook each call of the closure builds, with the repository's predicate (which
  \<open>poll_hook\<close> evaluates as \<open>should_stop_fn\<close>) and a polling interval of ten seconds.
\<close>

definition dlrover_early_stopping_hook :: "estimator \<Rightarrow> runtime \<Rightarrow> hook \<times> runtime" where
  "dlrover_early_stopping_hook self s = make_early_stopping_hook self s 10"

text \<open>
  One poll of a hook by the engine's monitoring loop, given the value of the stop
  variable fetched in the same step: a stop hook evaluates its predicate and requests a
  stop when the value is true; a check-for-stopping hook requests a stop when the stop
  variable is set; other hooks never do.
\<close>

fun poll_hook :: "hook \<Rightarrow> bool \<Rightarrow> runtime \<Rightarrow> bool \<times> runtime" where
  "poll_hook h stop_var s =
     (case hook_action h of
        Stop_on_predicate _ \<Rightarrow> (let (v, s') = should_stop_fn s in (truthy v, s'))
      | Check_for_stopping \<Rightarrow> (stop_var, s)
      | Opaque_hook \<Rightarrow> (False, s))"

subsection \<open>\<^verbatim>\<open>dlrover_call_model_fn\<close>\<close>

text \<open>
  \<^verbatim>\<open>training_hooks = params.get(training_hooks, []); training_hooks.append(h)\<close>: a list
  held by the configuration grows in place; a missing key yields a fresh list that is
  dropped after the append; a tuple has no \<^verbatim>\<open>append\<close> and raises.
\<close>

definition append_training_hook :: "params \<Rightarrow> hook \<Rightarrow> runtime \<Rightarrow> exc + runtime" where
  "append_training_hook p h s =
     (case map_of p (key_name EstimatorTrainingHooks) of
        None \<Rightarrow> Inr s
      | Some (Param_list a) \<Rightarrow>
          Inr (s\<lparr>heap := (heap s)(a := map_option (\<lambda>hs. hs @ [h]) (heap s a))\<rparr>)
      | Some (Param_tuple _) \<Rightarrow> Inl (Exc ''AttributeError'' ''tuple object has no attribute append''))"

text \<open>The four keys, in the order of the list \<^verbatim>\<open>keys\<close>.\<close>

definition estimator_hook_keys :: "hook_key list" where
  "estimator_hook_keys =
     [EstimatorTrainingChiefHooks, EstimatorTrainingHooks, EstimatorEvaluationHooks, EstimatorPredictionHooks]"

text \<open>\<^verbatim>\<open>for key in keys: model_fn_results = append_hooks(model_fn_results, key, params)\<close>.\<close>

fun append_hooks_keys ::
  "'a estimator_spec_scheme \<Rightarrow> hook_key list \<Rightarrow> (string \<rightharpoonup> hook list) \<Rightarrow> 'a estimator_spec_scheme \<times> log_entry list"
where
  "append_hooks_keys r [] params = (r, [])"
| "append_hooks_keys r (k # ks) params =
     (let (r1, l1) = append_hooks r k params;
          (r2, l2) = append_hooks_keys r1 ks params
      in (r2, l1 @ l2))"

text \<open>
  A call of the entry point the attribute holds. \<open>orig\<close> is TensorFlow's
  \<^verbatim>\<open>_call_model_fn\<close> on the call's arguments: it returns a spec or raises. A
  \<^verbatim>\<open>dlrover_call_model_fn\<close> closure first constructs the early-stopping hook, then calls
  the entry point it captured, and only on a returned spec with a truthy configuration
  appends the hook to the configured training hooks and merges every category.
\<close>

fun call_model_fn_impl ::
  "(estimator \<times> 'g \<Rightarrow> exc + 'a estimator_spec_scheme) \<Rightarrow> model_fn_impl \<Rightarrow> estimator \<times> 'g \<Rightarrow> runtime
     \<Rightarrow> (exc + 'a estimator_spec_scheme) \<times> runtime"
where
  "call_model_fn_impl orig Original_call_model_fn args s = (orig args, s)"
| "call_model_fn_impl orig (Dlrover_call_model_fn params inner) args s =
     (let self = fst args;
          (early_stopping_hook, s1) = dlrover_early_stopping_hook self s;
          (model_fn_results, s2) = call_model_fn_impl orig inner args s1
      in case model_fn_results of
           Inl e \<Rightarrow> (Inl e, s2)
         | Inr r \<Rightarrow>
             (case params of
                None \<Rightarrow> (Inr r, s2)
              | Some p \<Rightarrow>
                  if p = [] then (Inr r, s2)
                  else (case append_training_hook p early_stopping_hook s2 of
                          Inl e \<Rightarrow> (Inl e, s2)
                        | Inr s3 \<Rightarrow>
                            (let (r', logs) = append_hooks_keys r estimator_hook_keys (params_view (heap s3) p)
                             in (Inr r', s3\<lparr>log := log s3 @ logs\<rparr>)))))"

text \<open>\<^verbatim>\<open>Estimator._call_model_fn(self, ...)\<close>: the call goes through the class attribute.\<close>

definition estimator_call_model_fn ::
  "(estimator \<times> 'g \<Rightarrow> exc + 'a estimator_spec_scheme) \<Rightarrow> estimator \<times> 'g \<Rightarrow> runtime
     \<Rightarrow> (exc + 'a estimator_spec_scheme) \<times> runtime"
where
  "estimator_call_model_fn orig args s = call_model_fn_impl orig (call_model_fn s) args s"

text \<open>\<^verbatim>\<open>hook_estimator_call_model_fn(params)\<close>: wrap the current attribute value.\<close>

definition hook_estimator_call_model_fn :: "params option \<Rightarrow> runtime \<Rightarrow> runtime" where
  "hook_estimator_call_model_fn params s =
     s\<lparr>call_model_fn := Dlrover_call_model_fn params (call_model_fn s)\<rparr>"

subsection \<open>Runs of the process\<close>

text \<open>
  The engine calls \<^verbatim>\<open>Estimator._call_model_fn\<close> once per phase (train, evaluate,
  predict, again on each \<^verbatim>\<open>train\<close> call): a run is the sequence of those calls.
\<close>

fun run_calls ::
  "(estimator \<times> 'g \<Rightarrow> exc + 'a estimator_spec_scheme) \<Rightarrow> (estimator \<times> 'g) list \<Rightarrow> runtime
     \<Rightarrow> (exc + 'a estimator_spec_scheme) list \<times> runtime"
where
  "run_calls orig [] s = ([], s)"
| "run_calls orig (x # xs) s =
     (let (r, s1) = estimator_call_model_fn orig x s;
          (rs, s2) = run_calls orig xs s1
      in (r # rs, s2))"

text \<open>Estimators of the chief and of another worker, for the concrete runs below.\<close>

definition chief_estimator :: estimator where
  "chief_estimator = \<lparr>config = \<lparr>is_chief = True\<rparr>\<rparr>"

definition worker_estimator :: estimator where
  "worker_estimator = \<lparr>config = \<lparr>is_chief = False\<rparr>\<rparr>"

text \<open>The configurations captured by the closures on the attribute, outermost first.\<close>

fun installed_params :: "model_fn_impl \<Rightarrow> params list" where
  "installed_params Original_call_model_fn = []"
| "installed_params (Dlrover_call_model_fn None inner) = installed_params inner"
| "installed_params (Dlrover_call_model_fn (Some p) inner) = p # installed_params inner"

text \<open>
  A configuration is well typed for the closure when its training hooks, if present,
  are a list: the only value the code calls a method on is
  \<^verbatim>\<open>params.get(training_hooks, [])\<close>, and only a list has \<^verbatim>\<open>append\<close>.
\<close>

definition params_well_typed :: "params \<Rightarrow> bool" where
  "params_well_typed p =
     (case map_of p (key_name EstimatorTrainingHooks) of
        Some (Param_tuple _) \<Rightarrow> False
      | _ \<Rightarrow> True)"

text \<open>
  The configuration that hands a spec's own hooks back to the closure: each category's
  name bound to the hooks the spec holds for it.
\<close>

definition hooks_config :: "'a estimator_spec_scheme \<Rightarrow> (string \<rightharpoonup> hook list)" where
  "hooks_config r = map_of (map (\<lambda>k. (key_name k, existing_hooks r k)) estimator_hook_keys)"

subsection \<open>The loop over the four keys\<close>

lemma distinct_estimator_hook_keys: "distinct estimator_hook_keys"
  by (simp add: estimator_hook_keys_def)

lemma set_estimator_hook_keys: "k \<in> set estimator_hook_keys"
  by (cases k) (simp_all add: estimator_hook_keys_def)

lemma append_hooks_same_field:
  "get_hooks r1 k = get_hooks r k \<Longrightarrow>
   get_hooks (fst (append_hooks r1 k params)) k = get_hooks (fst (append_hooks r k params)) k"
  by (simp add: append_hooks_same existing_hooks_def)

lemma append_hooks_keys_more [simp]:
  "estimator_spec.more (fst (append_hooks_keys r ks params)) = estimator_spec.more r"
  by (induction ks arbitrary: r) (simp_all add: split_beta)

lemma append_hooks_keys_get:
  "distinct ks \<Longrightarrow> get_hooks (fst (append_hooks_keys r ks params)) k =
     (if k \<in> set ks then get_hooks (fst (append_hooks r k params)) k else get_hooks r k)"
proof (induction ks arbitrary: r)
  case (Cons k1 ks)
  let ?r1 = "fst (append_hooks r k1 params)"
  have IH: "get_hooks (fst (append_hooks_keys ?r1 ks params)) k =
      (if k \<in> set ks then get_hooks (fst (append_hooks ?r1 k params)) k else get_hooks ?r1 k)"
    using Cons by simp
  show ?case
  proof (cases "k = k1")
    case True
    with Cons.prems IH show ?thesis by (simp add: split_beta)
  next
    case False
    then have "get_hooks ?r1 k = get_hooks r k" by simp
    then have "get_hooks (fst (append_hooks ?r1 k params)) k = get_hooks (fst (append_hooks r k params)) k"
      by (rule append_hooks_same_field)
    with False IH \<open>get_hooks ?r1 k = get_hooks r k\<close> show ?thesis by (simp add: split_beta)
  qed
qed simp

lemma append_hooks_keys_get_all:
  "get_hooks (fst (append_hooks_keys r estimator_hook_keys params)) k = get_hooks (fst (append_hooks r k params)) k"
  by (simp add: append_hooks_keys_get distinct_estimator_hook_keys set_estimator_hook_keys)

text \<open>The loop logs what each merge of the original spec logs, key after key.\<close>

lemma append_hooks_keys_log_distinct:
  "distinct ks \<Longrightarrow> snd (append_hooks_keys r ks params) = concat (map (\<lambda>k. snd (append_hooks r k params)) ks)"
proof (induction ks arbitrary: r)
  case (Cons k1 ks)
  let ?r1 = "fst (append_hooks r k1 params)"
  have "\<forall>k\<in>set ks. snd (append_hooks ?r1 k params) = snd (append_hooks r k params)"
  proof
    fix k assume "k \<in> set ks"
    with Cons.prems have "k \<noteq> k1" by auto
    then have "get_hooks ?r1 k = get_hooks r k" by (rule append_hooks_other)
    then show "snd (append_hooks ?r1 k params) = snd (append_hooks r k params)" by (rule append_hooks_log_field)
  qed
  then have "concat (map (\<lambda>k. snd (append_hooks ?r1 k params)) ks) = concat (map (\<lambda>k. snd (append_hooks r k params)) ks)"
    by (metis (mono_tags, lifting) map_eq_conv)
  with Cons show ?case by (simp add: split_beta)
qed simp

subsection \<open>One call through a closure, branch by branch\<close>

lemma append_training_hook_list:
  "map_of p ''training_hooks'' = Some (Param_list a) \<Longrightarrow>
   append_training_hook p h s = Inr (s\<lparr>heap := (heap s)(a := map_option (\<lambda>hs. hs @ [h]) (heap s a))\<rparr>)"
  by (simp add: append_training_hook_def)

lemma append_training_hook_absent:
  "map_of p ''training_hooks'' = None \<Longrightarrow> append_training_hook p h s = Inr s"
  by (simp add: append_training_hook_def)

lemma append_training_hook_tuple:
  "map_of p ''training_hooks'' = Some (Param_tuple hs) \<Longrightarrow>
   append_training_hook p h s = Inl (Exc ''AttributeError'' ''tuple object has no attribute append'')"
  by (simp add: append_training_hook_def)

lemma call_dlrover_raised:
  "call_model_fn_impl orig inner args (snd (make_early_stopping_hook (fst args) s 10)) = (Inl e, s2) \<Longrightarrow>
   call_model_fn_impl orig (Dlrover_call_model_fn params inner) args s = (Inl e, s2)"
  by (simp add: split_beta Let_def dlrover_early_stopping_hook_def)

lemma call_dlrover_falsy:
  "call_model_fn_impl orig inner args (snd (make_early_stopping_hook (fst args) s 10)) = (Inr r, s2) \<Longrightarrow>
   \<not> params_truthy params \<Longrightarrow>
   call_model_fn_impl orig (Dlrover_call_model_fn params inner) args s = (Inr r, s2)"
  by (cases params) (simp_all add: split_beta Let_def dlrover_early_stopping_hook_def)

lemma call_dlrover_append_fails:
  "call_model_fn_impl orig inner args (snd (make_early_stopping_hook (fst args) s 10)) = (Inr r, s2) \<Longrightarrow> p \<noteq> [] \<Longrightarrow>
   append_training_hook p (fst (make_early_stopping_hook (fst args) s 10)) s2 = Inl e \<Longrightarrow>
   call_model_fn_impl orig (Dlrover_call_model_fn (Some p) inner) args s = (Inl e, s2)"
  by (simp add: split_beta Let_def dlrover_early_stopping_hook_def)

lemma call_dlrover_merges:
  "call_model_fn_impl orig inner args (snd (make_early_stopping_hook (fst args) s 10)) = (Inr r, s2) \<Longrightarrow> p \<noteq> [] \<Longrightarrow>
   append_training_hook p (fst (make_early_stopping_hook (fst args) s 10)) s2 = Inr s3 \<Longrightarrow>
   call_model_fn_impl orig (Dlrover_call_model_fn (Some p) inner) args s =
     (Inr (fst (append_hooks_keys r estimator_hook_keys (params_view (heap s3) p))),
      s3\<lparr>log := log s3 @ snd (append_hooks_keys r estimator_hook_keys (params_view (heap s3) p))\<rparr>)"
  by (simp add: split_beta Let_def dlrover_early_stopping_hook_def)

lemmas call_dlrover_branches = call_dlrover_raised call_dlrover_falsy call_dlrover_append_fails call_dlrover_merges

declare call_model_fn_impl.simps(2) [simp del] dlrover_early_stopping_hook_def [simp]
declare init_runtime_def [model_simps] hook_estimator_call_model_fn_def [model_simps]
  chief_estimator_def [model_simps] worker_estimator_def [model_simps]

lemma dom_append_in_place [simp]: "dom (m(a := map_option f (m a))) = dom m"
  by (cases "m a") auto

lemma snd_make_early_stopping_hook [simp]:
  "heap (snd (make_early_stopping_hook est s n)) = heap s"
  "log (snd (make_early_stopping_hook est s n)) = log s"
  "global_dict (snd (make_early_stopping_hook est s n)) = global_dict s"
  "call_model_fn (snd (make_early_stopping_hook est s n)) = call_model_fn s"
  "next_obj (snd (make_early_stopping_hook est s n)) = Suc (next_obj s)"
  by (simp_all add: make_early_stopping_hook_def)

lemma append_training_hook_well_typed:
  "params_well_typed p \<Longrightarrow> \<exists>s'. append_training_hook p h s = Inr s'"
  by (auto simp: params_well_typed_def append_training_hook_def split: option.splits param_val.splits)

lemma dict_get_hooks_config: "dict_get (hooks_config r) (key_name k) [] = existing_hooks r k"
  by (cases k) (simp_all add: hooks_config_def estimator_hook_keys_def dict_get_def)

lemma append_training_hook_frame:
  "append_training_hook p h s = Inr s' \<Longrightarrow>
   call_model_fn s' = call_model_fn s \<and> global_dict s' = global_dict s \<and> dom (heap s') = dom (heap s)
   \<and> next_obj s' = next_obj s"
proof (cases "map_of p ''training_hooks''")
  case (Some v)
  then show "append_training_hook p h s = Inr s' \<Longrightarrow> ?thesis"
    by (cases v) (simp_all add: append_training_hook_def, force)
qed (simp add: append_training_hook_def)

text \<open>
  A call never changes the attribute \<^verbatim>\<open>Estimator._call_model_fn\<close>, the
  \<^verbatim>\<open>GlobalDict\<close> or the set of allocated heap.
\<close>

lemma call_model_fn_impl_frame:
  "call_model_fn (snd (call_model_fn_impl orig impl args s)) = call_model_fn s
   \<and> global_dict (snd (call_model_fn_impl orig impl args s)) = global_dict s
   \<and> dom (heap (snd (call_model_fn_impl orig impl args s))) = dom (heap s)"
proof (induction impl arbitrary: s)
  case (Dlrover_call_model_fn params inner)
  let ?s1 = "snd (make_early_stopping_hook (fst args) s 10)"
  obtain res s2 where inner: "call_model_fn_impl orig inner args ?s1 = (res, s2)" by fastforce
  have s2: "call_model_fn s2 = call_model_fn s" "global_dict s2 = global_dict s" "dom (heap s2) = dom (heap s)"
    using Dlrover_call_model_fn.IH [of ?s1] inner by simp_all
  show ?case
  proof (cases res)
    case (Inl e)
    with inner s2 show ?thesis by (simp add: call_dlrover_branches)
  next
    case (Inr r)
    show ?thesis
    proof (cases "params_truthy params")
      case False
      with inner Inr s2 show ?thesis by (simp add: call_dlrover_branches)
    next
      case True
      then obtain p where p: "params = Some p" "p \<noteq> []" by (cases params) auto
      show ?thesis
      proof (cases "append_training_hook p (fst (make_early_stopping_hook (fst args) s 10)) s2")
        case (Inl e)
        with inner Inr p s2 show ?thesis by (simp add: call_dlrover_branches)
      next
        case (Inr s3)
        with inner \<open>res = Inr r\<close> p s2 append_training_hook_frame [OF Inr] show ?thesis
          by (simp add: call_dlrover_branches)
      qed
    qed
  qed
qed simp

text \<open>
  One call through a single closure whose configuration holds its training hooks in
  the list at \<open>a\<close>, when the original entry point returns a spec: the exact result.
\<close>

lemma single_wrapper_call:
  assumes "orig args = Inr r"
    and "map_of p ''training_hooks'' = Some (Param_list a)"
    and "heap s a = Some hs"
  shows "call_model_fn_impl orig (Dlrover_call_model_fn (Some p) Original_call_model_fn) args s =
    (Inr (fst (append_hooks_keys r estimator_hook_keys
        (params_view ((heap s)(a \<mapsto> hs @ [fst (make_early_stopping_hook (fst args) s 10)])) p))),
     s\<lparr>heap := (heap s)(a \<mapsto> hs @ [fst (make_early_stopping_hook (fst args) s 10)]), next_obj := Suc (next_obj s),
       log := log s @ snd (append_hooks_keys r estimator_hook_keys
        (params_view ((heap s)(a \<mapsto> hs @ [fst (make_early_stopping_hook (fst args) s 10)])) p))\<rparr>)"
proof -
  let ?h = "fst (make_early_stopping_hook (fst args) s 10)"
  let ?s1 = "snd (make_early_stopping_hook (fst args) s 10)"
  let ?s3 = "?s1\<lparr>heap := (heap s)(a \<mapsto> hs @ [?h])\<rparr>"
  from assms(2) have p: "p \<noteq> []" by auto
  have inner: "call_model_fn_impl orig Original_call_model_fn args ?s1 = (Inr r, ?s1)"
    using assms(1) by simp
  have app: "append_training_hook p ?h ?s1 = Inr ?s3"
    using assms(2,3) by (simp add: append_training_hook_list)
  have s3: "?s3 = s\<lparr>heap := (heap s)(a \<mapsto> hs @ [?h]), next_obj := Suc (next_obj s)\<rparr>"
    by (simp add: make_early_stopping_hook_def)
  show ?thesis
    unfolding call_dlrover_merges [OF inner p app] s3 by simp
qed

lemma stop_hook_eq:
  "is_chief (config est) \<Longrightarrow> fst (make_early_stopping_hook est s n) =
     \<lparr>hook_class = ''_StopOnPredicateHook'', hook_obj = next_obj s, hook_action = Stop_on_predicate n\<rparr>"
  by (simp add: make_early_stopping_hook_def)

lemma check_hook_eq:
  "\<not> is_chief (config est) \<Longrightarrow> fst (make_early_stopping_hook est s n) =
     \<lparr>hook_class = ''_CheckForStoppingHook'', hook_obj = next_obj s, hook_action = Check_for_stopping\<rparr>"
  by (simp add: make_early_stopping_hook_def)

text \<open>
  The training hooks one call through a closure returns, when the entry point it
  captured returns a spec and the configuration keeps them in a list: the configured
  ones, the new early-stopping hook, the existing ones, one per class; the list object
  grows by the hook and nothing else of the heap changes.
\<close>

lemma wrapped_inner_training_hooks:
  assumes "call_model_fn_impl orig inner args (snd (make_early_stopping_hook (fst args) s 10)) = (Inr r, s2)"
    and "map_of p ''training_hooks'' = Some (Param_list a)"
    and "heap s2 a = Some hs"
  obtains r' s' where
    "call_model_fn_impl orig (Dlrover_call_model_fn (Some p) inner) args s = (Inr r', s')"
    and "existing_hooks r' EstimatorTrainingHooks =
      first_by hook_class (hs @ fst (make_early_stopping_hook (fst args) s 10) # existing_hooks r EstimatorTrainingHooks)"
    and "heap s' = (heap s2)(a \<mapsto> hs @ [fst (make_early_stopping_hook (fst args) s 10)])"
    and "next_obj s' = next_obj s2"
proof -
  let ?h = "fst (make_early_stopping_hook (fst args) s 10)"
  let ?s3 = "s2\<lparr>heap := (heap s2)(a \<mapsto> hs @ [?h])\<rparr>"
  let ?r' = "fst (append_hooks_keys r estimator_hook_keys (params_view (heap ?s3) p))"
  from assms(2) have p: "p \<noteq> []" by auto
  have app: "append_training_hook p ?h s2 = Inr ?s3"
    using assms(2,3) by (simp add: append_training_hook_list)
  have call: "call_model_fn_impl orig (Dlrover_call_model_fn (Some p) inner) args s =
      (Inr ?r', ?s3\<lparr>log := log ?s3 @ snd (append_hooks_keys r estimator_hook_keys (params_view (heap ?s3) p))\<rparr>)"
    using assms(1) p app by (rule call_dlrover_merges)
  have view: "params_view (heap ?s3) p (key_name EstimatorTrainingHooks) = Some (hs @ [?h])"
    using assms(2) by (simp add: params_view_def)
  have "existing_hooks ?r' EstimatorTrainingHooks = first_by hook_class (hs @ ?h # existing_hooks r EstimatorTrainingHooks)"
    using view unfolding existing_hooks_def [of ?r'] append_hooks_keys_get_all append_hooks_same by simp
  then show ?thesis by (rule that [OF call]) simp_all
qed

text \<open>The same, for a closure installed over the original entry point.\<close>

lemma wrapped_call_training_hooks:
  assumes "orig args = Inr r"
    and "map_of p ''training_hooks'' = Some (Param_list a)"
    and "heap s a = Some hs"
  obtains r' s' where
    "call_model_fn_impl orig (Dlrover_call_model_fn (Some p) Original_call_model_fn) args s = (Inr r', s')"
    and "existing_hooks r' EstimatorTrainingHooks =
      first_by hook_class (hs @ fst (make_early_stopping_hook (fst args) s 10) # existing_hooks r EstimatorTrainingHooks)"
proof -
  let ?s1 = "snd (make_early_stopping_hook (fst args) s 10)"
  have orig1: "call_model_fn_impl orig Original_call_model_fn args ?s1 = (Inr r, ?s1)"
    using assms(1) by simp
  have heap1: "heap ?s1 a = Some hs"
    using assms(3) by (simp add: make_early_stopping_hook_def)
  show ?thesis
    by (rule wrapped_inner_training_hooks [OF orig1 assms(2) heap1]) (rule that; assumption)
qed

subsection \<open>Properties of the wrapper\<close>

text \<open>
  C4: with a configuration whose training hooks are a list, a call that returns a spec
  appends the early-stopping hook to that list in place, and each category of the
  returned spec is the merge of that category's configured hooks, read after the append,
  into the spec the original entry point returned; the training hooks are the configured
  ones, then the new early-stopping hook, then the existing ones, one per class.
\<close>

theorem dlrover_call_model_fn_merges:
  assumes "orig args = Inr r"
    and "map_of p ''training_hooks'' = Some (Param_list a)"
    and "heap s a = Some hs"
  shows "\<exists>r' s'. call_model_fn_impl orig (Dlrover_call_model_fn (Some p) Original_call_model_fn) args s = (Inr r', s')
    \<and> heap s' = (heap s)(a \<mapsto> hs @ [fst (make_early_stopping_hook (fst args) s 10)])
    \<and> (\<forall>k. get_hooks r' k = get_hooks (fst (append_hooks r k (params_view (heap s') p))) k)
    \<and> estimator_spec.more r' = estimator_spec.more r
    \<and> get_hooks r' EstimatorTrainingHooks =
         Some (first_by hook_class (hs @ fst (make_early_stopping_hook (fst args) s 10) # existing_hooks r EstimatorTrainingHooks))"
proof -
  let ?h = "fst (make_early_stopping_hook (fst args) s 10)"
  let ?s1 = "snd (make_early_stopping_hook (fst args) s 10)"
  let ?s3 = "?s1\<lparr>heap := (heap ?s1)(a := map_option (\<lambda>hs. hs @ [?h]) (heap ?s1 a))\<rparr>"
  let ?r' = "fst (append_hooks_keys r estimator_hook_keys (params_view (heap ?s3) p))"
  from assms(2) have p: "p \<noteq> []" by auto
  have app: "append_training_hook p ?h ?s1 = Inr ?s3"
    using assms(2) by (rule append_training_hook_list)
  have lists3: "heap ?s3 = (heap s)(a \<mapsto> hs @ [?h])"
    using assms(3) by simp
  have call: "call_model_fn_impl orig (Dlrover_call_model_fn (Some p) Original_call_model_fn) args s =
      (Inr ?r', ?s3\<lparr>log := log ?s3 @ snd (append_hooks_keys r estimator_hook_keys (params_view (heap ?s3) p))\<rparr>)"
    using assms(1) p app by (intro call_dlrover_merges) simp_all
  have view: "params_view (heap ?s3) p (key_name EstimatorTrainingHooks) = Some (hs @ [?h])"
    using assms(2) lists3 by (simp add: params_view_def)
  have train: "get_hooks ?r' EstimatorTrainingHooks =
      Some (first_by hook_class (hs @ ?h # existing_hooks r EstimatorTrainingHooks))"
    unfolding append_hooks_keys_get_all append_hooks_same using view by simp
  show ?thesis
    using call lists3 train
    by (intro exI [of _ ?r'] exI [of _ "?s3\<lparr>log := log ?s3 @ snd (append_hooks_keys r estimator_hook_keys (params_view (heap ?s3) p))\<rparr>"])
       (simp add: append_hooks_keys_get_all)
qed

theorem dlrover_call_model_fn_merges_witness:
  "\<exists>r' s'. call_model_fn_impl (\<lambda>x::estimator \<times> nat. Inr (ex_spec (Some [ex_hook ''SummaryHook'' 100])))
        (Dlrover_call_model_fn (Some [(''training_hooks'', Param_list 0)]) Original_call_model_fn) (chief_estimator, 7)
        (init_runtime\<lparr>heap := [0 \<mapsto> [ex_hook ''CheckpointHook'' 1]], next_obj := 2\<rparr>) = (Inr r', s')
    \<and> heap s' 0 = Some [ex_hook ''CheckpointHook'' 1,
        \<lparr>hook_class = ''_StopOnPredicateHook'', hook_obj = 2, hook_action = Stop_on_predicate 10\<rparr>]
    \<and> get_hooks r' EstimatorTrainingHooks = Some [ex_hook ''CheckpointHook'' 1,
        \<lparr>hook_class = ''_StopOnPredicateHook'', hook_obj = 2, hook_action = Stop_on_predicate 10\<rparr>,
        ex_hook ''SummaryHook'' 100]"
proof -
  let ?s = "init_runtime\<lparr>heap := [0 \<mapsto> [ex_hook ''CheckpointHook'' 1]], next_obj := 2\<rparr>"
  have "(\<lambda>x::estimator \<times> nat. Inr (ex_spec (Some [ex_hook ''SummaryHook'' 100]))) (chief_estimator, 7) =
      (Inr (ex_spec (Some [ex_hook ''SummaryHook'' 100])) :: exc + estimator_spec)" by simp
  moreover have "map_of [(''training_hooks'', Param_list 0)] ''training_hooks'' = Some (Param_list 0)" by simp
  moreover have "heap ?s 0 = Some [ex_hook ''CheckpointHook'' 1]" by simp
  ultimately show ?thesis
    using dlrover_call_model_fn_merges [of "\<lambda>x::estimator \<times> nat. Inr (ex_spec (Some [ex_hook ''SummaryHook'' 100]))" "(chief_estimator, 7)"
        "ex_spec (Some [ex_hook ''SummaryHook'' 100])" "[(''training_hooks'', Param_list 0)]" 0 ?s
        "[ex_hook ''CheckpointHook'' 1]"]
    by (auto simp: make_early_stopping_hook_def ex_hook_def ex_spec_def existing_hooks_def chief_estimator_def)
qed

text \<open>
  C16 (no leakage across categories, P5): after the loop over the four keys, each
  category is exactly what merging that category alone into the original spec gives:
  unchanged when it has no configured hooks, otherwise its configured hooks followed by
  its existing ones, one per class; no other field changes.
\<close>

theorem append_hooks_keys_merges_each:
  "get_hooks (fst (append_hooks_keys r estimator_hook_keys params)) k =
     (if configured_hooks params k = [] then get_hooks r k
      else Some (first_by hook_class (configured_hooks params k @ existing_hooks r k)))
   \<and> estimator_spec.more (fst (append_hooks_keys r estimator_hook_keys params)) = estimator_spec.more r"
  by (simp add: append_hooks_keys_get_all append_hooks_same)

text \<open>
  C33 (the loop's log, equivalence): the loop over the four keys threads the spec
  through the merges, yet it logs exactly what four independent merges of the original
  spec log, concatenated in the order of \<^verbatim>\<open>keys\<close>: a category's records never depend
  on the merges before it.
\<close>

theorem append_hooks_keys_log:
  "snd (append_hooks_keys r estimator_hook_keys params) =
     concat (map (\<lambda>k. snd (append_hooks r k params)) estimator_hook_keys)"
  by (rule append_hooks_keys_log_distinct [OF distinct_estimator_hook_keys])

text \<open>
  C34 (the log of a call): a successful call through a closure whose configuration
  keeps its training hooks in a list logs, after what was logged before, exactly the
  records of the four merges of the original spec with the configuration read after the
  append, in the order of \<^verbatim>\<open>keys\<close>; among them the ``before deduplication'' record of
  the training category names the configured classes and the early-stopping hook's.
\<close>

theorem wrapped_call_log:
  assumes "orig args = Inr r"
    and "map_of p ''training_hooks'' = Some (Param_list a)"
    and "heap s a = Some hs"
  shows "\<exists>r' s'. call_model_fn_impl orig (Dlrover_call_model_fn (Some p) Original_call_model_fn) args s = (Inr r', s')
    \<and> log s' = log s @ concat (map (\<lambda>k. snd (append_hooks r k (params_view (heap s') p))) estimator_hook_keys)
    \<and> before_log EstimatorTrainingHooks
        (class_names (hs @ [fst (make_early_stopping_hook (fst args) s 10)])) \<in> set (log s')"
proof -
  let ?h = "fst (make_early_stopping_hook (fst args) s 10)"
  let ?hp = "(heap s)(a \<mapsto> hs @ [?h])"
  have call: "call_model_fn_impl orig (Dlrover_call_model_fn (Some p) Original_call_model_fn) args s =
    (Inr (fst (append_hooks_keys r estimator_hook_keys (params_view ?hp p))),
     s\<lparr>heap := ?hp, next_obj := Suc (next_obj s),
       log := log s @ snd (append_hooks_keys r estimator_hook_keys (params_view ?hp p))\<rparr>)"
    by (rule single_wrapper_call [where orig = orig and args = args and r = r and p = p and a = a and s = s and hs = hs, OF assms])
  have view: "params_view ?hp p (key_name EstimatorTrainingHooks) = Some (hs @ [?h])"
    using assms(2) by (simp add: params_view_def)
  have "hd (snd (append_hooks r EstimatorTrainingHooks (params_view ?hp p))) =
      before_log EstimatorTrainingHooks (class_names (hs @ [?h]))"
    using view by (simp add: append_hooks_def Let_def split_beta dict_get_def)
  moreover have "snd (append_hooks r EstimatorTrainingHooks (params_view ?hp p)) \<noteq> []"
    using view by (simp add: append_hooks_def Let_def split_beta dict_get_def)
  ultimately have "before_log EstimatorTrainingHooks (class_names (hs @ [?h])) \<in>
      set (concat (map (\<lambda>k. snd (append_hooks r k (params_view ?hp p))) estimator_hook_keys))"
    using set_estimator_hook_keys [of EstimatorTrainingHooks] by (fastforce dest: hd_in_set)
  with call show ?thesis by (simp add: append_hooks_keys_log_distinct distinct_estimator_hook_keys)
qed

theorem wrapped_call_log_witness:
  "\<exists>r' s'. call_model_fn_impl (\<lambda>x::estimator \<times> nat. (Inr (ex_spec None) :: exc + estimator_spec))
      (Dlrover_call_model_fn (Some [(''training_hooks'', Param_list 0)]) Original_call_model_fn)
      (chief_estimator, 7) (init_runtime\<lparr>heap := [0 \<mapsto> []], next_obj := 1\<rparr>) = (Inr r', s')
    \<and> log s' = concat (map (\<lambda>k. snd (append_hooks (ex_spec None) k
        (params_view (heap s') [(''training_hooks'', Param_list 0)]))) estimator_hook_keys)
    \<and> before_log EstimatorTrainingHooks [''_StopOnPredicateHook''] \<in> set (log s')"
  using wrapped_call_log [of "\<lambda>x::estimator \<times> nat. (Inr (ex_spec None) :: exc + estimator_spec)"
      "(chief_estimator, 7)" "ex_spec None" "[(''training_hooks'', Param_list 0)]" 0
      "init_runtime\<lparr>heap := [0 \<mapsto> []], next_obj := 1\<rparr>" "[]"]
  by (simp add: init_runtime_def chief_estimator_def make_early_stopping_hook_def)

text \<open>
  C6 (errors propagate): when the original entry point raises, a call through any
  stack of wrappers raises the same exception, appends nothing to any configured list
  and logs nothing.
\<close>

theorem call_model_fn_error_propagates:
  assumes "orig args = Inl e"
  shows "fst (call_model_fn_impl orig impl args s) = Inl e
    \<and> heap (snd (call_model_fn_impl orig impl args s)) = heap s
    \<and> log (snd (call_model_fn_impl orig impl args s)) = log s"
proof (induction impl arbitrary: s)
  case Original_call_model_fn
  from assms show ?case by simp
next
  case (Dlrover_call_model_fn params inner)
  let ?s1 = "snd (make_early_stopping_hook (fst args) s 10)"
  obtain s2 where inner: "call_model_fn_impl orig inner args ?s1 = (Inl e, s2)"
    and "heap s2 = heap s" "log s2 = log s"
    using Dlrover_call_model_fn.IH [of ?s1] by (cases "call_model_fn_impl orig inner args ?s1") auto
  with call_dlrover_raised [OF inner] show ?case by simp
qed

theorem call_model_fn_error_propagates_witness:
  "fst (call_model_fn_impl (\<lambda>x::estimator \<times> nat. (Inl (Exc ''ValueError'' ''bad'') :: exc + estimator_spec))
      (Dlrover_call_model_fn (Some [(''training_hooks'', Param_list 0)]) Original_call_model_fn) (chief_estimator, 7) init_runtime)
     = Inl (Exc ''ValueError'' ''bad'')"
  using call_model_fn_error_propagates [of "\<lambda>x::estimator \<times> nat. (Inl (Exc ''ValueError'' ''bad'') :: exc + estimator_spec)" "(chief_estimator, 7)"
      "Exc ''ValueError'' ''bad''" "Dlrover_call_model_fn (Some [(''training_hooks'', Param_list 0)]) Original_call_model_fn"
      init_runtime]
  by simp

text \<open>
  C18 (no configuration, scenario 5): when \<^verbatim>\<open>params\<close> is \<^verbatim>\<open>None\<close> or empty, the
  wrapped call returns exactly what the original entry point returns and changes no
  state except that one early-stopping hook object is constructed and never attached.
\<close>

theorem dlrover_call_model_fn_no_params:
  assumes "\<not> params_truthy params"
  shows "call_model_fn_impl orig (Dlrover_call_model_fn params Original_call_model_fn) args s
           = (orig args, s\<lparr>next_obj := Suc (next_obj s)\<rparr>)"
proof (cases "orig args")
  case (Inl e)
  then have "call_model_fn_impl orig Original_call_model_fn args (snd (make_early_stopping_hook (fst args) s 10))
      = (Inl e, s\<lparr>next_obj := Suc (next_obj s)\<rparr>)"
    by (simp add: make_early_stopping_hook_def)
  from call_dlrover_raised [OF this] Inl show ?thesis by simp
next
  case (Inr r)
  then have "call_model_fn_impl orig Original_call_model_fn args (snd (make_early_stopping_hook (fst args) s 10))
      = (Inr r, s\<lparr>next_obj := Suc (next_obj s)\<rparr>)"
    by (simp add: make_early_stopping_hook_def)
  from call_dlrover_falsy [OF this assms] Inr show ?thesis by simp
qed

theorem dlrover_call_model_fn_no_params_witness:
  "call_model_fn_impl (\<lambda>x::estimator \<times> nat. (Inr (ex_spec (Some [ex_hook ''SummaryHook'' 100])) :: exc + estimator_spec))
      (Dlrover_call_model_fn None Original_call_model_fn) (chief_estimator, 7) init_runtime
    = (Inr (ex_spec (Some [ex_hook ''SummaryHook'' 100])), init_runtime\<lparr>next_obj := 1\<rparr>)"
  using dlrover_call_model_fn_no_params [of None
      "\<lambda>x::estimator \<times> nat. (Inr (ex_spec (Some [ex_hook ''SummaryHook'' 100])) :: exc + estimator_spec)" "(chief_estimator, 7)" init_runtime]
  by (simp add: init_runtime_def)

text \<open>
  C19 (lost early-stopping hook): when the configuration is truthy but has no
  \<^verbatim>\<open>training_hooks\<close> key, \<^verbatim>\<open>params.get\<close> returns a fresh list, the early-stopping
  hook is appended to it and lost: the returned training hooks are those of the
  original spec, and no configured list changes.
\<close>

theorem dlrover_call_model_fn_no_training_key:
  assumes "orig args = Inr r" and "p \<noteq> []" and "map_of p ''training_hooks'' = None"
  shows "\<exists>r' s'. call_model_fn_impl orig (Dlrover_call_model_fn (Some p) Original_call_model_fn) args s = (Inr r', s')
    \<and> get_hooks r' EstimatorTrainingHooks = get_hooks r EstimatorTrainingHooks
    \<and> heap s' = heap s"
proof -
  let ?s1 = "snd (make_early_stopping_hook (fst args) s 10)"
  let ?r' = "fst (append_hooks_keys r estimator_hook_keys (params_view (heap ?s1) p))"
  have inner: "call_model_fn_impl orig Original_call_model_fn args ?s1 = (Inr r, ?s1)"
    using assms(1) by simp
  have app: "append_training_hook p (fst (make_early_stopping_hook (fst args) s 10)) ?s1 = Inr ?s1"
    using assms(3) by (rule append_training_hook_absent)
  have call: "call_model_fn_impl orig (Dlrover_call_model_fn (Some p) Original_call_model_fn) args s =
      (Inr ?r', ?s1\<lparr>log := log ?s1 @ snd (append_hooks_keys r estimator_hook_keys (params_view (heap ?s1) p))\<rparr>)"
    by (rule call_dlrover_merges [OF inner assms(2) app])
  have "params_view (heap ?s1) p (key_name EstimatorTrainingHooks) = None"
    using assms(3) by (simp add: params_view_def)
  then have "get_hooks ?r' EstimatorTrainingHooks = get_hooks r EstimatorTrainingHooks"
    unfolding append_hooks_keys_get_all append_hooks_same by simp
  with call show ?thesis by simp
qed

theorem dlrover_call_model_fn_no_training_key_witness:
  "\<exists>r' s'. call_model_fn_impl (\<lambda>x::estimator \<times> nat. (Inr (ex_spec None) :: exc + estimator_spec))
        (Dlrover_call_model_fn (Some [(''evaluation_hooks'', Param_list 0)]) Original_call_model_fn) (chief_estimator, 7)
        (init_runtime\<lparr>heap := [0 \<mapsto> [ex_hook ''CheckpointHook'' 1]], next_obj := 2\<rparr>) = (Inr r', s')
    \<and> get_hooks r' EstimatorTrainingHooks = None
    \<and> heap s' = [0 \<mapsto> [ex_hook ''CheckpointHook'' 1]]"
  using dlrover_call_model_fn_no_training_key [of "\<lambda>x::estimator \<times> nat. (Inr (ex_spec None) :: exc + estimator_spec)" "(chief_estimator, 7)"
      "ex_spec None" "[(''evaluation_hooks'', Param_list 0)]"
      "init_runtime\<lparr>heap := [0 \<mapsto> [ex_hook ''CheckpointHook'' 1]], next_obj := 2\<rparr>"]
  by (simp add: model_simps)

text \<open>
  C20 (tuple configuration): when the configured training hooks are a tuple, every call
  whose original entry point returns a spec raises \<^verbatim>\<open>AttributeError\<close> from
  \<^verbatim>\<open>training_hooks.append\<close>, and the spec is lost.
\<close>

theorem dlrover_call_model_fn_tuple_raises:
  assumes "orig args = Inr r" and "map_of p ''training_hooks'' = Some (Param_tuple hs)"
  shows "fst (call_model_fn_impl orig (Dlrover_call_model_fn (Some p) Original_call_model_fn) args s)
           = Inl (Exc ''AttributeError'' ''tuple object has no attribute append'')"
proof -
  let ?s1 = "snd (make_early_stopping_hook (fst args) s 10)"
  have "call_model_fn_impl orig Original_call_model_fn args ?s1 = (Inr r, ?s1)"
    using assms(1) by simp
  moreover from assms(2) have "p \<noteq> []" by auto
  moreover have "append_training_hook p (fst (make_early_stopping_hook (fst args) s 10)) ?s1
      = Inl (Exc ''AttributeError'' ''tuple object has no attribute append'')"
    using assms(2) by (rule append_training_hook_tuple)
  ultimately show ?thesis by (simp add: call_dlrover_append_fails)
qed

theorem dlrover_call_model_fn_tuple_raises_witness:
  "fst (call_model_fn_impl (\<lambda>x::estimator \<times> nat. (Inr (ex_spec None) :: exc + estimator_spec))
      (Dlrover_call_model_fn (Some [(''training_hooks'', Param_tuple [ex_hook ''CheckpointHook'' 1])])
        Original_call_model_fn) (chief_estimator, 7) init_runtime)
   = Inl (Exc ''AttributeError'' ''tuple object has no attribute append'')"
  using dlrover_call_model_fn_tuple_raises [of "\<lambda>x::estimator \<times> nat. (Inr (ex_spec None) :: exc + estimator_spec)" "(chief_estimator, 7)"
      "ex_spec None" "[(''training_hooks'', Param_tuple [ex_hook ''CheckpointHook'' 1])]"]
  by simp

text \<open>
  C21 (the configured list grows on every call): the closure appends to the caller's
  list, which it keeps across calls, so after \<open>n\<close> successful calls the configured
  training list holds \<open>n\<close> more early-stopping hooks, one per call, in call order
  (on the chief, where each is a \<^verbatim>\<open>_StopOnPredicateHook\<close>).
\<close>

theorem run_calls_training_list_grows:
  assumes "call_model_fn s = Dlrover_call_model_fn (Some p) Original_call_model_fn"
    and "map_of p ''training_hooks'' = Some (Param_list a)"
    and "heap s a = Some hs"
    and "\<forall>x\<in>set xs. is_chief (config (fst x)) \<and> (\<exists>r. orig x = Inr r)"
  shows "heap (snd (run_calls orig xs s)) a = Some (hs @ map (\<lambda>i. \<lparr>hook_class = ''_StopOnPredicateHook'',
           hook_obj = i, hook_action = Stop_on_predicate 10\<rparr>) [next_obj s..<next_obj s + length xs])"
  using assms(1,3,4)
proof (induction xs arbitrary: s hs)
  case Nil
  then show ?case by simp
next
  case (Cons x xs)
  from Cons.prems(3) obtain r where r: "orig x = Inr r" and chief: "is_chief (config (fst x))" by auto
  let ?h = "fst (make_early_stopping_hook (fst x) s 10)"
  let ?s1 = "snd (estimator_call_model_fn orig x s)"
  have call: "estimator_call_model_fn orig x s = (fst (estimator_call_model_fn orig x s), ?s1)" by simp
  have s1: "call_model_fn ?s1 = call_model_fn s" "heap ?s1 a = Some (hs @ [?h])" "next_obj ?s1 = Suc (next_obj s)"
    using single_wrapper_call [where orig = orig and args = x and r = r and p = p and a = a and s = s and hs = hs,
        OF r assms(2) Cons.prems(2)] Cons.prems(1)
    by (simp_all add: estimator_call_model_fn_def)
  have "heap (snd (run_calls orig xs ?s1)) a = Some ((hs @ [?h]) @ map (\<lambda>i. \<lparr>hook_class = ''_StopOnPredicateHook'',
      hook_obj = i, hook_action = Stop_on_predicate 10\<rparr>) [next_obj ?s1..<next_obj ?s1 + length xs])"
    using Cons.IH [of ?s1 "hs @ [?h]"] s1 Cons.prems by simp
  moreover have "[next_obj s..<next_obj s + length (x # xs)] = next_obj s # [Suc (next_obj s)..<Suc (next_obj s) + length xs]"
    by (simp add: upt_rec)
  ultimately show ?case
    using s1 chief by (simp add: split_beta stop_hook_eq)
qed

theorem run_calls_training_list_grows_witness:
  "heap (snd (run_calls (\<lambda>x::estimator \<times> nat. (Inr (ex_spec None) :: exc + estimator_spec))
      [(chief_estimator, 1), (chief_estimator, 2)]
      (hook_estimator_call_model_fn (Some [(''training_hooks'', Param_list 0)])
        (init_runtime\<lparr>heap := [0 \<mapsto> []], next_obj := 1\<rparr>)))) 0
   = Some [\<lparr>hook_class = ''_StopOnPredicateHook'', hook_obj = 1, hook_action = Stop_on_predicate 10\<rparr>,
           \<lparr>hook_class = ''_StopOnPredicateHook'', hook_obj = 2, hook_action = Stop_on_predicate 10\<rparr>]"
proof -
  let ?s = "hook_estimator_call_model_fn (Some [(''training_hooks'', Param_list 0)])
        (init_runtime\<lparr>heap := [0 \<mapsto> []], next_obj := 1\<rparr>)"
  have "call_model_fn ?s = Dlrover_call_model_fn (Some [(''training_hooks'', Param_list 0)]) Original_call_model_fn"
    by (simp add: model_simps)
  moreover have "heap ?s 0 = Some []" by (simp add: hook_estimator_call_model_fn_def)
  moreover have "next_obj ?s = 1" by (simp add: hook_estimator_call_model_fn_def)
  moreover have "\<forall>x\<in>set [(chief_estimator, 1), (chief_estimator, 2::nat)]. is_chief (config (fst x))
      \<and> (\<exists>r. (\<lambda>x::estimator \<times> nat. (Inr (ex_spec None) :: exc + estimator_spec)) x = Inr r)"
    by (simp add: chief_estimator_def)
  ultimately show ?thesis
    using run_calls_training_list_grows [of ?s "[(''training_hooks'', Param_list 0)]" 0 "[]" "[(chief_estimator, 1), (chief_estimator, 2::nat)]"
        "\<lambda>x::estimator \<times> nat. (Inr (ex_spec None) :: exc + estimator_spec)"]
    by (simp add: upt_rec)
qed

text \<open>
  C22 (stale early-stopping hook): on the chief, with a configured training list that
  holds no \<^verbatim>\<open>_StopOnPredicateHook\<close>, the second call returns training hooks whose only
  early-stopping hook is the one constructed by the first call: the hook of the current
  call is dropped by the deduplication as a repeated class.
\<close>

theorem second_call_keeps_first_stop_hook:
  assumes "call_model_fn s = Dlrover_call_model_fn (Some p) Original_call_model_fn"
    and "map_of p ''training_hooks'' = Some (Param_list a)"
    and "heap s a = Some hs"
    and "''_StopOnPredicateHook'' \<notin> hook_class ` set hs"
    and "orig x1 = Inr r1" and "orig x2 = Inr r2"
    and "is_chief (config (fst x1))"
  shows "\<exists>r1' r2' s'. run_calls orig [x1, x2] s = ([Inr r1', Inr r2'], s')
    \<and> filter (\<lambda>h. hook_class h = ''_StopOnPredicateHook'') (existing_hooks r2' EstimatorTrainingHooks)
        = [fst (make_early_stopping_hook (fst x1) s 10)]"
proof -
  let ?h1 = "fst (make_early_stopping_hook (fst x1) s 10)"
  let ?c1 = "call_model_fn_impl orig (Dlrover_call_model_fn (Some p) Original_call_model_fn) x1 s"
  let ?s1 = "snd ?c1"
  let ?h2 = "fst (make_early_stopping_hook (fst x2) ?s1 10)"
  let ?c2 = "call_model_fn_impl orig (Dlrover_call_model_fn (Some p) Original_call_model_fn) x2 ?s1"
  let ?hp2 = "(heap ?s1)(a \<mapsto> (hs @ [?h1]) @ [?h2])"
  have c1: "?c1 = (Inr (fst (append_hooks_keys r1 estimator_hook_keys
        (params_view ((heap s)(a \<mapsto> hs @ [?h1])) p))), ?s1)"
    using single_wrapper_call [where orig = orig and args = x1 and r = r1 and p = p and a = a and s = s and hs = hs,
        OF assms(5,2,3)] by simp
  have s1: "call_model_fn ?s1 = call_model_fn s" "heap ?s1 a = Some (hs @ [?h1])"
    using single_wrapper_call [where orig = orig and args = x1 and r = r1 and p = p and a = a and s = s and hs = hs,
        OF assms(5,2,3)] by simp_all
  have c2: "?c2 = (Inr (fst (append_hooks_keys r2 estimator_hook_keys (params_view ?hp2 p))), snd ?c2)"
    using single_wrapper_call [where orig = orig and args = x2 and r = r2 and p = p and a = a and s = ?s1
        and hs = "hs @ [?h1]", OF assms(6,2) s1(2)] by simp
  have view: "params_view ?hp2 p (key_name EstimatorTrainingHooks) = Some (hs @ [?h1, ?h2])"
    using assms(2) by (simp add: params_view_def)
  have "find (\<lambda>h. hook_class h = ''_StopOnPredicateHook'')
      (hs @ [?h1, ?h2] @ existing_hooks r2 EstimatorTrainingHooks) = Some ?h1"
    using assms(4,7) by (subst find_append_skip) (auto simp: stop_hook_eq image_iff)
  then have "filter (\<lambda>h. hook_class h = ''_StopOnPredicateHook'')
      (existing_hooks (fst (append_hooks_keys r2 estimator_hook_keys (params_view ?hp2 p))) EstimatorTrainingHooks)
      = [?h1]"
    using view unfolding existing_hooks_def [of "fst (append_hooks_keys _ _ _)"] append_hooks_keys_get_all append_hooks_same
    by (simp add: filter_first_by_key)
  moreover have "run_calls orig [x1, x2] s = ([fst ?c1, fst ?c2], snd ?c2)"
    using assms(1) s1(1) by (simp add: estimator_call_model_fn_def split_beta)
  ultimately show ?thesis
    using c1 c2 by (metis fst_conv)
qed

theorem second_call_keeps_first_stop_hook_witness:
  "\<exists>r1' r2' s'. run_calls (\<lambda>x::estimator \<times> nat. (Inr (ex_spec None) :: exc + estimator_spec))
        [(chief_estimator, 1), (chief_estimator, 2)]
        (hook_estimator_call_model_fn (Some [(''training_hooks'', Param_list 0)])
          (init_runtime\<lparr>heap := [0 \<mapsto> []], next_obj := 1\<rparr>)) = ([Inr r1', Inr r2'], s')
    \<and> filter (\<lambda>h. hook_class h = ''_StopOnPredicateHook'') (existing_hooks r2' EstimatorTrainingHooks)
        = [\<lparr>hook_class = ''_StopOnPredicateHook'', hook_obj = 1, hook_action = Stop_on_predicate 10\<rparr>]"
proof -
  let ?s = "hook_estimator_call_model_fn (Some [(''training_hooks'', Param_list 0)])
        (init_runtime\<lparr>heap := [0 \<mapsto> []], next_obj := 1\<rparr>)"
  have "call_model_fn ?s = Dlrover_call_model_fn (Some [(''training_hooks'', Param_list 0)]) Original_call_model_fn"
    by (simp add: model_simps)
  moreover have "heap ?s 0 = Some []" by (simp add: hook_estimator_call_model_fn_def)
  moreover have "fst (make_early_stopping_hook chief_estimator ?s 10) =
      \<lparr>hook_class = ''_StopOnPredicateHook'', hook_obj = 1, hook_action = Stop_on_predicate 10\<rparr>"
    by (simp add: make_early_stopping_hook_def model_simps)
  ultimately show ?thesis
    using second_call_keeps_first_stop_hook [of ?s "[(''training_hooks'', Param_list 0)]" 0 "[]"
        "\<lambda>x::estimator \<times> nat. (Inr (ex_spec None) :: exc + estimator_spec)" "(chief_estimator, 1)" "ex_spec None"
        "(chief_estimator, 2)" "ex_spec None"]
    by (simp add: chief_estimator_def)
qed

text \<open>
  C23 (installing twice is not idempotent): after two installations with the same
  configuration, one call runs both closures, and the configured training list grows by
  two early-stopping hooks: the inner closure's, constructed second, is appended first.
\<close>

theorem double_install_appends_twice:
  assumes "call_model_fn s = Original_call_model_fn"
    and "map_of p ''training_hooks'' = Some (Param_list a)"
    and "heap s a = Some hs"
    and "orig x = Inr r"
    and "is_chief (config (fst x))"
  shows "\<exists>r' s'. estimator_call_model_fn orig x
      (hook_estimator_call_model_fn (Some p) (hook_estimator_call_model_fn (Some p) s)) = (Inr r', s')
    \<and> heap s' a = Some (hs @
        [\<lparr>hook_class = ''_StopOnPredicateHook'', hook_obj = Suc (next_obj s), hook_action = Stop_on_predicate 10\<rparr>,
         \<lparr>hook_class = ''_StopOnPredicateHook'', hook_obj = next_obj s, hook_action = Stop_on_predicate 10\<rparr>])"
proof -
  let ?s0 = "hook_estimator_call_model_fn (Some p) (hook_estimator_call_model_fn (Some p) s)"
  let ?inner = "Dlrover_call_model_fn (Some p) Original_call_model_fn"
  let ?h0 = "fst (make_early_stopping_hook (fst x) ?s0 10)"
  let ?s1 = "snd (make_early_stopping_hook (fst x) ?s0 10)"
  let ?h1 = "fst (make_early_stopping_hook (fst x) ?s1 10)"
  let ?c = "call_model_fn_impl orig ?inner x ?s1"
  let ?s2 = "snd ?c"
  let ?s3 = "?s2\<lparr>heap := (heap ?s2)(a := map_option (\<lambda>hs. hs @ [?h0]) (heap ?s2 a))\<rparr>"
  have slot: "call_model_fn ?s0 = Dlrover_call_model_fn (Some p) ?inner"
    using assms(1) by (simp add: hook_estimator_call_model_fn_def)
  have s0: "heap ?s0 = heap s" "next_obj ?s0 = next_obj s"
    by (simp_all add: hook_estimator_call_model_fn_def)
  have heap1: "heap ?s1 a = Some hs" using assms(3) s0 by simp
  have inner: "?c = (fst ?c, ?s2)" by simp
  have c: "?c = (Inr (fst (append_hooks_keys r estimator_hook_keys
        (params_view ((heap ?s1)(a \<mapsto> hs @ [?h1])) p))), ?s2)"
    using single_wrapper_call [where orig = orig and args = x and r = r and p = p and a = a and s = ?s1 and hs = hs,
        OF assms(4,2) heap1] by simp
  have heap2: "heap ?s2 a = Some (hs @ [?h1])"
    using single_wrapper_call [where orig = orig and args = x and r = r and p = p and a = a and s = ?s1 and hs = hs,
        OF assms(4,2) heap1] by simp
  from assms(2) have p: "p \<noteq> []" by auto
  have app: "append_training_hook p ?h0 ?s2 = Inr ?s3"
    using assms(2) by (rule append_training_hook_list)
  have call: "estimator_call_model_fn orig x ?s0 =
      (Inr (fst (append_hooks_keys (fst (append_hooks_keys r estimator_hook_keys
          (params_view ((heap ?s1)(a \<mapsto> hs @ [?h1])) p))) estimator_hook_keys (params_view (heap ?s3) p))),
       ?s3\<lparr>log := log ?s3 @ snd (append_hooks_keys (fst (append_hooks_keys r estimator_hook_keys
          (params_view ((heap ?s1)(a \<mapsto> hs @ [?h1])) p))) estimator_hook_keys (params_view (heap ?s3) p))\<rparr>)"
    unfolding estimator_call_model_fn_def slot using c p app by (intro call_dlrover_merges) simp_all
  have "heap ?s3 a = Some (hs @ [?h1, ?h0])" using heap2 by simp
  moreover have "?h0 = \<lparr>hook_class = ''_StopOnPredicateHook'', hook_obj = next_obj s, hook_action = Stop_on_predicate 10\<rparr>"
    using s0 assms(5) by (simp add: stop_hook_eq)
  moreover have "?h1 = \<lparr>hook_class = ''_StopOnPredicateHook'', hook_obj = Suc (next_obj s), hook_action = Stop_on_predicate 10\<rparr>"
    using s0 assms(5) by (simp add: stop_hook_eq)
  ultimately show ?thesis using call by simp
qed

theorem double_install_appends_twice_witness:
  "\<exists>r' s'. estimator_call_model_fn (\<lambda>x::estimator \<times> nat. (Inr (ex_spec None) :: exc + estimator_spec))
      (chief_estimator, 7)
      (hook_estimator_call_model_fn (Some [(''training_hooks'', Param_list 0)])
        (hook_estimator_call_model_fn (Some [(''training_hooks'', Param_list 0)])
          (init_runtime\<lparr>heap := [0 \<mapsto> []], next_obj := 1\<rparr>))) = (Inr r', s')
    \<and> heap s' 0 = Some
        [\<lparr>hook_class = ''_StopOnPredicateHook'', hook_obj = 2, hook_action = Stop_on_predicate 10\<rparr>,
         \<lparr>hook_class = ''_StopOnPredicateHook'', hook_obj = 1, hook_action = Stop_on_predicate 10\<rparr>]"
  using double_install_appends_twice [of "init_runtime\<lparr>heap := [0 \<mapsto> []], next_obj := 1\<rparr>"
      "[(''training_hooks'', Param_list 0)]" 0 "[]" "\<lambda>x::estimator \<times> nat. (Inr (ex_spec None) :: exc + estimator_spec)"
      "(chief_estimator, 7)" "ex_spec None"]
  by (simp add: init_runtime_def chief_estimator_def numeral_2_eq_2)

text \<open>
  C31 (stacked wrappers with different configurations): after installing with a
  configuration \<open>p_in\<close> and then with \<open>p_out\<close>, whose training hooks are two
  different lists, one call on the chief runs the outer closure first: it constructs its
  hook first, the inner closure appends its own to \<open>p_in\<close>'s list and merges, and the outer
  then appends to \<open>p_out\<close>'s list and merges again. The returned training hooks are the
  outer configuration's, the outer hook, the inner configuration's, the inner hook and the
  existing ones, one per class: the outer configuration wins every class conflict.
\<close>

theorem stacked_configurations_outer_first:
  assumes "call_model_fn s = Original_call_model_fn"
    and "map_of p_in ''training_hooks'' = Some (Param_list a_in)"
    and "map_of p_out ''training_hooks'' = Some (Param_list a_out)"
    and "a_in \<noteq> a_out"
    and "heap s a_in = Some hs_in" and "heap s a_out = Some hs_out"
    and "orig x = Inr r"
    and "is_chief (config (fst x))"
  shows "\<exists>r' s'. estimator_call_model_fn orig x
      (hook_estimator_call_model_fn (Some p_out) (hook_estimator_call_model_fn (Some p_in) s)) = (Inr r', s')
    \<and> existing_hooks r' EstimatorTrainingHooks = first_by hook_class (hs_out @
        \<lparr>hook_class = ''_StopOnPredicateHook'', hook_obj = next_obj s, hook_action = Stop_on_predicate 10\<rparr> # hs_in @
        \<lparr>hook_class = ''_StopOnPredicateHook'', hook_obj = Suc (next_obj s), hook_action = Stop_on_predicate 10\<rparr> #
        existing_hooks r EstimatorTrainingHooks)
    \<and> heap s' a_out = Some (hs_out @
        [\<lparr>hook_class = ''_StopOnPredicateHook'', hook_obj = next_obj s, hook_action = Stop_on_predicate 10\<rparr>])
    \<and> heap s' a_in = Some (hs_in @
        [\<lparr>hook_class = ''_StopOnPredicateHook'', hook_obj = Suc (next_obj s), hook_action = Stop_on_predicate 10\<rparr>])"
proof -
  let ?s0 = "hook_estimator_call_model_fn (Some p_out) (hook_estimator_call_model_fn (Some p_in) s)"
  let ?inner = "Dlrover_call_model_fn (Some p_in) Original_call_model_fn"
  let ?h0 = "fst (make_early_stopping_hook (fst x) ?s0 10)"
  let ?s1 = "snd (make_early_stopping_hook (fst x) ?s0 10)"
  let ?h1 = "fst (make_early_stopping_hook (fst x) ?s1 10)"
  have slot: "call_model_fn ?s0 = Dlrover_call_model_fn (Some p_out) ?inner"
    using assms(1) by (simp add: hook_estimator_call_model_fn_def)
  have s0: "heap ?s0 = heap s" "next_obj ?s0 = next_obj s"
    by (simp_all add: hook_estimator_call_model_fn_def)
  have h0: "?h0 = \<lparr>hook_class = ''_StopOnPredicateHook'', hook_obj = next_obj s, hook_action = Stop_on_predicate 10\<rparr>"
    using s0 assms(8) by (simp add: stop_hook_eq)
  have h1: "?h1 = \<lparr>hook_class = ''_StopOnPredicateHook'', hook_obj = Suc (next_obj s), hook_action = Stop_on_predicate 10\<rparr>"
    using s0 assms(8) by (simp add: stop_hook_eq make_early_stopping_hook_def)
  have orig1: "call_model_fn_impl orig Original_call_model_fn x (snd (make_early_stopping_hook (fst x) ?s1 10))
      = (Inr r, snd (make_early_stopping_hook (fst x) ?s1 10))"
    using assms(7) by simp
  have heap1: "heap (snd (make_early_stopping_hook (fst x) ?s1 10)) a_in = Some hs_in"
    using assms(5) s0 by (simp add: make_early_stopping_hook_def)
  obtain r1 s2 where in1: "call_model_fn_impl orig ?inner x ?s1 = (Inr r1, s2)"
    and in2: "existing_hooks r1 EstimatorTrainingHooks = first_by hook_class (hs_in @ ?h1 # existing_hooks r EstimatorTrainingHooks)"
    and in3: "heap s2 = (heap (snd (make_early_stopping_hook (fst x) ?s1 10)))(a_in \<mapsto> hs_in @ [?h1])"
    by (rule wrapped_inner_training_hooks [OF orig1 assms(2) heap1])
  have heap2: "heap s2 a_out = Some hs_out"
    using in3 assms(4,6) s0 by (simp add: make_early_stopping_hook_def)
  obtain r' s' where out1: "call_model_fn_impl orig (Dlrover_call_model_fn (Some p_out) ?inner) x ?s0 = (Inr r', s')"
    and out2: "existing_hooks r' EstimatorTrainingHooks = first_by hook_class (hs_out @ ?h0 # existing_hooks r1 EstimatorTrainingHooks)"
    and out3: "heap s' = (heap s2)(a_out \<mapsto> hs_out @ [?h0])"
    by (rule wrapped_inner_training_hooks [OF in1 assms(3) heap2])
  have "first_by hook_class (hs_out @ ?h0 # existing_hooks r1 EstimatorTrainingHooks)
      = first_by hook_class (hs_out @ ?h0 # hs_in @ ?h1 # existing_hooks r EstimatorTrainingHooks)"
    using first_by_nested [of hook_class "hs_out @ [?h0]"] in2 by simp
  with out1 out2 out3 in3 slot assms(4) h0 h1 show ?thesis
    by (simp add: estimator_call_model_fn_def)
qed

theorem stacked_configurations_outer_first_witness:
  "\<exists>r' s'. estimator_call_model_fn (\<lambda>x::estimator \<times> nat. (Inr (ex_spec None) :: exc + estimator_spec))
      (chief_estimator, 7)
      (hook_estimator_call_model_fn (Some [(''training_hooks'', Param_list 1)])
        (hook_estimator_call_model_fn (Some [(''training_hooks'', Param_list 0)])
          (init_runtime\<lparr>heap := [0 \<mapsto> [], 1 \<mapsto> []], next_obj := 2\<rparr>))) = (Inr r', s')
    \<and> existing_hooks r' EstimatorTrainingHooks =
        [\<lparr>hook_class = ''_StopOnPredicateHook'', hook_obj = 2, hook_action = Stop_on_predicate 10\<rparr>]
    \<and> heap s' 1 = Some [\<lparr>hook_class = ''_StopOnPredicateHook'', hook_obj = 2, hook_action = Stop_on_predicate 10\<rparr>]
    \<and> heap s' 0 = Some [\<lparr>hook_class = ''_StopOnPredicateHook'', hook_obj = 3, hook_action = Stop_on_predicate 10\<rparr>]"
  using stacked_configurations_outer_first [of "init_runtime\<lparr>heap := [0 \<mapsto> [], 1 \<mapsto> []], next_obj := 2\<rparr>"
      "[(''training_hooks'', Param_list 0)]" 0 "[(''training_hooks'', Param_list 1)]" 1 "[]" "[]"
      "\<lambda>x::estimator \<times> nat. (Inr (ex_spec None) :: exc + estimator_spec)" "(chief_estimator, 7)" "ex_spec None"]
  by (simp add: init_runtime_def chief_estimator_def ex_spec_def existing_hooks_def numeral_2_eq_2 numeral_3_eq_3)

text \<open>
  C35 (a failing call is not atomic): with an inner installation whose training hooks
  are a list and an outer one whose training hooks are a tuple, a call raises
  \<^verbatim>\<open>AttributeError\<close> from the outer closure's append, but only after the inner closure
  has appended its early-stopping hook to the inner configuration's list, which keeps it.
\<close>

theorem stacked_tuple_raises_after_inner_append:
  assumes "call_model_fn s = Original_call_model_fn"
    and "map_of p_in ''training_hooks'' = Some (Param_list a)"
    and "heap s a = Some hs"
    and "map_of p_out ''training_hooks'' = Some (Param_tuple ts)"
    and "orig x = Inr r"
  shows "\<exists>s'. estimator_call_model_fn orig x
      (hook_estimator_call_model_fn (Some p_out) (hook_estimator_call_model_fn (Some p_in) s)) =
      (Inl (Exc ''AttributeError'' ''tuple object has no attribute append''), s')
    \<and> heap s' a = Some (hs @ [fst (make_early_stopping_hook (fst x) (s\<lparr>next_obj := Suc (next_obj s)\<rparr>) 10)])"
proof -
  let ?s0 = "hook_estimator_call_model_fn (Some p_out) (hook_estimator_call_model_fn (Some p_in) s)"
  let ?inner = "Dlrover_call_model_fn (Some p_in) Original_call_model_fn"
  let ?s1 = "snd (make_early_stopping_hook (fst x) ?s0 10)"
  let ?h1 = "fst (make_early_stopping_hook (fst x) ?s1 10)"
  have slot: "call_model_fn ?s0 = Dlrover_call_model_fn (Some p_out) ?inner"
    using assms(1) by (simp add: hook_estimator_call_model_fn_def)
  have s1: "?s1 = s\<lparr>call_model_fn := Dlrover_call_model_fn (Some p_out) ?inner, next_obj := Suc (next_obj s)\<rparr>"
    using assms(1) by (simp add: hook_estimator_call_model_fn_def make_early_stopping_hook_def)
  have orig1: "call_model_fn_impl orig Original_call_model_fn x (snd (make_early_stopping_hook (fst x) ?s1 10))
      = (Inr r, snd (make_early_stopping_hook (fst x) ?s1 10))"
    using assms(5) by simp
  have heap1: "heap (snd (make_early_stopping_hook (fst x) ?s1 10)) a = Some hs"
    using assms(3) s1 by (simp add: make_early_stopping_hook_def)
  obtain r1 s2 where in1: "call_model_fn_impl orig ?inner x ?s1 = (Inr r1, s2)"
    and in3: "heap s2 = (heap (snd (make_early_stopping_hook (fst x) ?s1 10)))(a \<mapsto> hs @ [?h1])"
    by (rule wrapped_inner_training_hooks [OF orig1 assms(2) heap1])
  from assms(4) have p: "p_out \<noteq> []" by auto
  have "call_model_fn_impl orig (Dlrover_call_model_fn (Some p_out) ?inner) x ?s0 =
      (Inl (Exc ''AttributeError'' ''tuple object has no attribute append''), s2)"
    using in1 p append_training_hook_tuple [OF assms(4)] by (rule call_dlrover_append_fails)
  moreover have "?h1 = fst (make_early_stopping_hook (fst x) (s\<lparr>next_obj := Suc (next_obj s)\<rparr>) 10)"
    using s1 by (simp add: make_early_stopping_hook_def)
  ultimately show ?thesis using slot in3 by (simp add: estimator_call_model_fn_def)
qed

theorem stacked_tuple_raises_after_inner_append_witness:
  "\<exists>s'. estimator_call_model_fn (\<lambda>x::estimator \<times> nat. (Inr (ex_spec None) :: exc + estimator_spec))
      (chief_estimator, 7)
      (hook_estimator_call_model_fn (Some [(''training_hooks'', Param_tuple [])])
        (hook_estimator_call_model_fn (Some [(''training_hooks'', Param_list 0)])
          (init_runtime\<lparr>heap := [0 \<mapsto> []], next_obj := 1\<rparr>))) =
      (Inl (Exc ''AttributeError'' ''tuple object has no attribute append''), s')
    \<and> heap s' 0 = Some [\<lparr>hook_class = ''_StopOnPredicateHook'', hook_obj = 2, hook_action = Stop_on_predicate 10\<rparr>]"
  using stacked_tuple_raises_after_inner_append [of "init_runtime\<lparr>heap := [0 \<mapsto> []], next_obj := 1\<rparr>"
      "[(''training_hooks'', Param_list 0)]" 0 "[]" "[(''training_hooks'', Param_tuple [])]" "[]"
      "\<lambda>x::estimator \<times> nat. (Inr (ex_spec None) :: exc + estimator_spec)" "(chief_estimator, 7)" "ex_spec None"]
  by (simp add: init_runtime_def chief_estimator_def make_early_stopping_hook_def numeral_2_eq_2)

text \<open>
  C24 (read-through stop signal, scenario 4): polling an early-stopping hook calls
  \<^verbatim>\<open>should_stop_fn\<close>, which reads \<^verbatim>\<open>GlobalDict\<close> at the time of the poll (default
  \<^verbatim>\<open>False\<close>) and logs the call; nothing is cached when the hook is built, and the
  stop variable of the step plays no part.
\<close>

theorem stop_hook_reads_flag_when_polled:
  assumes "hook_action h = Stop_on_predicate n"
  shows "poll_hook h v s = (truthy (global_get (global_dict s) ''should_stop'' (PyBool False)),
                            s\<lparr>log := log s @ [Info ''should_stop_fn is called'' []]\<rparr>)"
  using assms by (simp add: should_stop_fn_def)

theorem stop_hook_reads_flag_when_polled_witness:
  "fst (poll_hook (fst (make_early_stopping_hook chief_estimator init_runtime 10)) True init_runtime) = False
   \<and> fst (poll_hook (fst (make_early_stopping_hook chief_estimator init_runtime 10)) False
        (init_runtime\<lparr>global_dict := (global_dict init_runtime)(''should_stop'' \<mapsto> PyBool True)\<rparr>)) = True"
  using stop_hook_reads_flag_when_polled [of "fst (make_early_stopping_hook chief_estimator init_runtime 10)" 10
      True init_runtime]
    stop_hook_reads_flag_when_polled [of "fst (make_early_stopping_hook chief_estimator init_runtime 10)" 10
      False "init_runtime\<lparr>global_dict := (global_dict init_runtime)(''should_stop'' \<mapsto> PyBool True)\<rparr>"]
  by (simp add: stop_hook_eq model_simps)

text \<open>
  C27 (aliasing): the append mutates a list object, so when the configuration puts the
  same list under \<^verbatim>\<open>training_hooks\<close> and \<^verbatim>\<open>evaluation_hooks\<close>, the evaluation
  hooks of the returned spec are merged from the list with the early-stopping hook
  appended, as the training hooks are.
\<close>

theorem aliased_configuration_leaks_stop_hook:
  assumes "orig args = Inr r"
    and "map_of p ''training_hooks'' = Some (Param_list a)"
    and "map_of p ''evaluation_hooks'' = Some (Param_list a)"
    and "heap s a = Some hs"
  shows "\<exists>r' s'. call_model_fn_impl orig (Dlrover_call_model_fn (Some p) Original_call_model_fn) args s = (Inr r', s')
    \<and> existing_hooks r' EstimatorEvaluationHooks =
        first_by hook_class (hs @ fst (make_early_stopping_hook (fst args) s 10) # existing_hooks r EstimatorEvaluationHooks)"
proof -
  let ?h = "fst (make_early_stopping_hook (fst args) s 10)"
  let ?hp = "(heap s)(a \<mapsto> hs @ [?h])"
  let ?r' = "fst (append_hooks_keys r estimator_hook_keys (params_view ?hp p))"
  obtain s' where call: "call_model_fn_impl orig (Dlrover_call_model_fn (Some p) Original_call_model_fn) args s
      = (Inr ?r', s')"
    using single_wrapper_call [where orig = orig and args = args and r = r and p = p and a = a and s = s and hs = hs,
        OF assms(1,2,4)] by simp
  have view: "params_view ?hp p (key_name EstimatorEvaluationHooks) = Some (hs @ [?h])"
    using assms(3) by (simp add: params_view_def)
  have "existing_hooks ?r' EstimatorEvaluationHooks =
      first_by hook_class (hs @ ?h # existing_hooks r EstimatorEvaluationHooks)"
    using view unfolding existing_hooks_def [of ?r'] append_hooks_keys_get_all append_hooks_same by simp
  with call show ?thesis by blast
qed

theorem aliased_configuration_leaks_stop_hook_witness:
  "\<exists>r' s'. call_model_fn_impl (\<lambda>x::estimator \<times> nat. (Inr (ex_spec None) :: exc + estimator_spec))
        (Dlrover_call_model_fn (Some [(''training_hooks'', Param_list 0), (''evaluation_hooks'', Param_list 0)])
          Original_call_model_fn) (chief_estimator, 7)
        (init_runtime\<lparr>heap := [0 \<mapsto> []], next_obj := 1\<rparr>) = (Inr r', s')
    \<and> existing_hooks r' EstimatorEvaluationHooks =
        [\<lparr>hook_class = ''_StopOnPredicateHook'', hook_obj = 1, hook_action = Stop_on_predicate 10\<rparr>]"
  using aliased_configuration_leaks_stop_hook [of "\<lambda>x::estimator \<times> nat. (Inr (ex_spec None) :: exc + estimator_spec)" "(chief_estimator, 7)"
      "ex_spec None" "[(''training_hooks'', Param_list 0), (''evaluation_hooks'', Param_list 0)]" 0
      "init_runtime\<lparr>heap := [0 \<mapsto> []], next_obj := 1\<rparr>" "[]"]
  by (simp add: make_early_stopping_hook_def ex_spec_def existing_hooks_def chief_estimator_def)

text \<open>
  C9 (well-typed configurations do not go wrong): when every configuration captured
  by the closures on the attribute is well typed (its training hooks, if any, are a
  list), a call whose original entry point returns a spec returns a spec through any
  stack of wrappers: the wrapper adds no exception of its own.
\<close>

theorem well_typed_call_never_raises:
  assumes "orig args = Inr r"
    and "\<forall>p\<in>set (installed_params impl). params_well_typed p"
  shows "\<exists>r'. fst (call_model_fn_impl orig impl args s) = Inr r'"
  using assms(2)
proof (induction impl arbitrary: s)
  case Original_call_model_fn
  from assms(1) show ?case by simp
next
  case (Dlrover_call_model_fn params inner)
  let ?s1 = "snd (make_early_stopping_hook (fst args) s 10)"
  have "\<forall>p\<in>set (installed_params inner). params_well_typed p"
    using Dlrover_call_model_fn.prems by (cases params) auto
  then obtain r1 where "fst (call_model_fn_impl orig inner args ?s1) = Inr r1"
    using Dlrover_call_model_fn.IH by blast
  then have inner: "call_model_fn_impl orig inner args ?s1 = (Inr r1, snd (call_model_fn_impl orig inner args ?s1))"
    by (metis prod.collapse)
  show ?case
  proof (cases "params_truthy params")
    case False
    with call_dlrover_falsy [OF inner] show ?thesis by simp
  next
    case True
    then obtain p where p: "params = Some p" "p \<noteq> []" by (cases params) auto
    with Dlrover_call_model_fn.prems have "params_well_typed p" by simp
    then obtain s3 where app: "append_training_hook p (fst (make_early_stopping_hook (fst args) s 10))
        (snd (call_model_fn_impl orig inner args ?s1)) = Inr s3"
      using append_training_hook_well_typed by blast
    from call_dlrover_merges [OF inner p(2) app] p(1) show ?thesis by simp
  qed
qed

theorem well_typed_call_never_raises_witness:
  "\<exists>r'. fst (call_model_fn_impl (\<lambda>x::estimator \<times> nat. (Inr (ex_spec None) :: exc + estimator_spec))
      (Dlrover_call_model_fn (Some [(''training_hooks'', Param_list 0)])
        (Dlrover_call_model_fn (Some [(''evaluation_hooks'', Param_tuple [])]) Original_call_model_fn))
      (worker_estimator, 7) init_runtime) = Inr r'"
  by (rule well_typed_call_never_raises [where r = "ex_spec None"])
    (simp_all add: params_well_typed_def)

text \<open>
  C11 (round trip between a spec and a configuration): handing a spec's own hooks back
  as the configuration, category by category, returns the spec unchanged when no
  category holds two hooks of one class: each configured hook is found again among the
  existing ones and only logged as existing.
\<close>

theorem hooks_config_roundtrip:
  assumes "\<forall>k. distinct (map hook_class (existing_hooks r k))"
  shows "fst (append_hooks_keys r estimator_hook_keys (hooks_config r)) = r"
proof (rule estimator_spec_eqI)
  fix k
  show "get_hooks (fst (append_hooks_keys r estimator_hook_keys (hooks_config r))) k = get_hooks r k"
  proof (cases "existing_hooks r k = []")
    case True
    then show ?thesis
      unfolding append_hooks_keys_get_all append_hooks_same by (simp add: dict_get_hooks_config)
  next
    case False
    then have "get_hooks r k = Some (existing_hooks r k)"
      by (cases "get_hooks r k") (simp_all add: existing_hooks_def)
    with False assms show ?thesis
      unfolding append_hooks_keys_get_all append_hooks_same
      by (simp add: dict_get_hooks_config first_by_twice first_by_distinct)
  qed
qed simp

theorem hooks_config_roundtrip_witness:
  "fst (append_hooks_keys (ex_spec (Some [ex_hook ''CheckpointHook'' 1, ex_hook ''SummaryHook'' 2]))
      estimator_hook_keys (hooks_config (ex_spec (Some [ex_hook ''CheckpointHook'' 1, ex_hook ''SummaryHook'' 2]))))
   = ex_spec (Some [ex_hook ''CheckpointHook'' 1, ex_hook ''SummaryHook'' 2])"
proof (rule hooks_config_roundtrip)
  show "\<forall>k. distinct (map hook_class (existing_hooks (ex_spec (Some [ex_hook ''CheckpointHook'' 1,
      ex_hook ''SummaryHook'' 2])) k))"
  proof
    fix k show "distinct (map hook_class (existing_hooks (ex_spec (Some [ex_hook ''CheckpointHook'' 1,
        ex_hook ''SummaryHook'' 2])) k))"
      by (cases k) (simp_all add: model_simps)
  qed
qed

end
