(* ===== verification/Session.thy ===== *)
theory Session
  imports Wrapper
begin

text \<open>
  What the engine does with the training hooks of the spec the wrapper returns: the
  training loop of TensorFlow's \<^verbatim>\<open>Estimator.train\<close> runs the train op in a
  \<^verbatim>\<open>MonitoredSession\<close> until a hook requests a stop or the last step is reached, and
  after every step calls \<^verbatim>\<open>after_run\<close> of each hook in list order. The early-stopping
  hooks of \<^verbatim>\<open>tensorflow_estimator/python/estimator/early_stopping.py\<close> are modelled
  as that module has them: \<^verbatim>\<open>_StopOnPredicateHook\<close> calls its predicate when its
  \<^verbatim>\<open>SecondOrStepTimer\<close> is due and then sets the shared stop variable,
  \<^verbatim>\<open>_CheckForStoppingHook\<close> reads that variable after every step. None of this code
  is in the repository; it is modelled from TensorFlow's documented behaviour and the
  specification's ``polls it on an interval''.
\<close>

subsection \<open>State of a monitored session\<close>

text \<open>
  Per hook object, the step and the time (in seconds) of the last trigger of its
  timer; the value of the stop variable \<^verbatim>\<open>signal_early_stopping\<close>; and whether
  \<^verbatim>\<open>run_context.request_stop()\<close> has been called.
\<close>

record mon_session =
  hook_timers :: "obj_id \<rightharpoonup> nat \<times> nat"
  stop_var :: bool
  stop_requested :: bool

definition init_session :: mon_session where
  "init_session = \<lparr>hook_timers = Map.empty, stop_var = False, stop_requested = False\<rparr>"

subsection \<open>The hooks' \<^verbatim>\<open>after_run\<close>\<close>

text \<open>
  \<^verbatim>\<open>SecondOrStepTimer.should_trigger_for_step(step)\<close> with \<^verbatim>\<open>every_secs\<close> set:
  always on the first call, never twice for one step, otherwise once
  \<^verbatim>\<open>every_secs\<close> seconds have passed since the last trigger.
\<close>

definition should_trigger_for_step :: "nat \<Rightarrow> (nat \<times> nat) option \<Rightarrow> nat \<Rightarrow> nat \<Rightarrow> bool" where
  "should_trigger_for_step every_secs last_triggered step now =
     (case last_triggered of
        None \<Rightarrow> True
      | Some (last_step, last_time) \<Rightarrow> last_step \<noteq> step \<and> last_time + every_secs \<le> now)"

text \<open>
  \<^verbatim>\<open>after_run\<close> of one hook after step \<open>step\<close> at time \<open>now\<close>; \<open>sv\<close> is the value of
  the stop variable fetched with the step. A stop hook whose timer is due records the
  trigger, evaluates its predicate, and on a true value logs, sets the stop variable and
  requests a stop; a check-for-stopping hook requests a stop when \<open>sv\<close> is set.
\<close>

fun after_run :: "nat \<Rightarrow> nat \<Rightarrow> bool \<Rightarrow> hook \<Rightarrow> mon_session \<times> runtime \<Rightarrow> mon_session \<times> runtime" where
  "after_run step now sv h (ms, s) =
     (case hook_action h of
        Stop_on_predicate every_secs \<Rightarrow>
          if should_trigger_for_step every_secs (hook_timers ms (hook_obj h)) step now
          then (let ms1 = ms\<lparr>hook_timers := (hook_timers ms)(hook_obj h \<mapsto> (step, now))\<rparr>;
                    (stop, s1) = poll_hook h sv s
                in if stop
                   then (ms1\<lparr>stop_var := True, stop_requested := True\<rparr>,
                         s1\<lparr>log := log s1 @ [Info ''Requesting early stopping at global step %d'' [Arg_int (int step)]]\<rparr>)
                   else (ms1, s1))
          else (ms, s)
      | Check_for_stopping \<Rightarrow>
          (let (stop, s1) = poll_hook h sv s
           in if stop
              then (ms\<lparr>stop_requested := True\<rparr>,
                    s1\<lparr>log := log s1 @ [Info ''Early stopping requested, suspending run.'' []]\<rparr>)
              else (ms, s1))
      | Opaque_hook \<Rightarrow> (ms, s))"

text \<open>\<^verbatim>\<open>for hook in self._hooks: hook.after_run(run_context, outputs[hook])\<close>.\<close>

definition after_run_hooks ::
  "nat \<Rightarrow> nat \<Rightarrow> bool \<Rightarrow> hook list \<Rightarrow> mon_session \<times> runtime \<Rightarrow> mon_session \<times> runtime"
where
  "after_run_hooks step now sv hs st = fold (after_run step now sv) hs st"

subsection \<open>The training loop\<close>

text \<open>
  \<^verbatim>\<open>while not mon_sess.should_stop(): mon_sess.run(train_op)\<close>, with the last step of
  \<^verbatim>\<open>StopAtStepHook\<close>. \<open>clock i\<close> is the wall-clock time after step \<open>i\<close>;
  \<open>env i\<close> is what the rest of the process does to the runtime while step \<open>i\<close> runs
  (the agent writing \<^verbatim>\<open>should_stop\<close> into the \<^verbatim>\<open>GlobalDict\<close>). The loop ends
  because every iteration moves the global step towards the last step.
\<close>

text \<open>
  One iteration of the loop body: the step runs (meanwhile the rest of the process
  acts), and \<^verbatim>\<open>after_run\<close> of every hook sees the stop variable fetched with the
  step.
\<close>

definition run_step ::
  "(nat \<Rightarrow> nat) \<Rightarrow> (nat \<Rightarrow> runtime \<Rightarrow> runtime) \<Rightarrow> hook list \<Rightarrow> nat \<Rightarrow> mon_session \<Rightarrow> runtime
     \<Rightarrow> mon_session \<times> runtime"
where
  "run_step clock env hs step ms s =
     after_run_hooks (Suc step) (clock (Suc step)) (stop_var ms) hs (ms, env (Suc step) s)"

function train_loop ::
  "(nat \<Rightarrow> nat) \<Rightarrow> (nat \<Rightarrow> runtime \<Rightarrow> runtime) \<Rightarrow> hook list \<Rightarrow> nat \<Rightarrow> nat \<Rightarrow> mon_session \<Rightarrow> runtime
     \<Rightarrow> nat \<times> mon_session \<times> runtime"
where
  "train_loop clock env hs last_step step ms s =
     (if stop_requested ms \<or> last_step \<le> step then (step, ms, s)
      else (let (ms', s') = run_step clock env hs step ms s
            in train_loop clock env hs last_step (Suc step) ms' s'))"
  by pat_completeness auto
termination
  by (relation "measure (\<lambda>(clock, env, hs, last_step, step, ms, s). last_step - step)") auto

text \<open>
  The invariant of the timers: each records a step not after the current one, and the
  time of that step.
\<close>

definition timers_consistent :: "(nat \<Rightarrow> nat) \<Rightarrow> nat \<Rightarrow> mon_session \<Rightarrow> bool" where
  "timers_consistent clock step ms =
     (\<forall>x ls lt. hook_timers ms x = Some (ls, lt) \<longrightarrow> ls \<le> step \<and> lt = clock ls)"

text \<open>The stop signal as \<^verbatim>\<open>should_stop_fn\<close> would return it in a state.\<close>

abbreviation should_stop_set :: "runtime \<Rightarrow> bool" where
  "should_stop_set s \<equiv> truthy (fst (should_stop_fn s))"

text \<open>A session in which a stop hook has set the stop variable and requested the stop.\<close>

abbreviation stop_published :: "mon_session \<Rightarrow> bool" where
  "stop_published ms \<equiv> stop_var ms \<and> stop_requested ms"

subsection \<open>Frame and monotonicity of one pass over the hooks\<close>

declare train_loop.simps [simp del]

lemma after_run_frame:
  "global_dict (snd (after_run step now sv h st)) = global_dict (snd st)
   \<and> heap (snd (after_run step now sv h st)) = heap (snd st)
   \<and> call_model_fn (snd (after_run step now sv h st)) = call_model_fn (snd st)
   \<and> (stop_requested (fst st) \<longrightarrow> stop_requested (fst (after_run step now sv h st)))"
  by (cases st; cases "hook_action h") (auto simp: should_stop_fn_def Let_def split_beta)

lemma after_run_hooks_frame:
  "global_dict (snd (after_run_hooks step now sv hs st)) = global_dict (snd st)
   \<and> heap (snd (after_run_hooks step now sv hs st)) = heap (snd st)
   \<and> call_model_fn (snd (after_run_hooks step now sv hs st)) = call_model_fn (snd st)
   \<and> (stop_requested (fst st) \<longrightarrow> stop_requested (fst (after_run_hooks step now sv hs st)))"
  unfolding after_run_hooks_def
  by (induction hs arbitrary: st) (simp_all add: after_run_frame)

lemma should_stop_set_frame:
  "global_dict s' = global_dict s \<Longrightarrow> should_stop_set s' = should_stop_set s"
  by (simp add: should_stop_fn_def)

text \<open>The stop variable is only ever set.\<close>

lemma after_run_stop_var_mono:
  "stop_var (fst st) \<Longrightarrow> stop_var (fst (after_run step now sv h st))"
  by (cases st; cases "hook_action h") (auto simp: split_beta Let_def)

lemma after_run_hooks_stop_var_mono:
  "stop_var (fst st) \<Longrightarrow> stop_var (fst (after_run_hooks step now sv hs st))"
  unfolding after_run_hooks_def
  by (induction hs arbitrary: st) (simp_all add: after_run_stop_var_mono)

lemma after_run_hooks_published_mono:
  "stop_published (fst st) \<Longrightarrow> stop_published (fst (after_run_hooks step now sv hs st))"
  using after_run_hooks_frame [of step now sv hs st] after_run_hooks_stop_var_mono [of st step now sv hs] by simp

text \<open>
  A stop hook that is due while the signal is set publishes the stop: it sets the stop
  variable and requests the stop.
\<close>

lemma after_run_due_stops:
  assumes "hook_action h = Stop_on_predicate secs"
    and "should_trigger_for_step secs (hook_timers (fst st) (hook_obj h)) step now"
    and "should_stop_set (snd st)"
  shows "stop_published (fst (after_run step now sv h st))"
  using assms by (cases st) (simp add: split_beta Let_def)

text \<open>While the signal is set, a pass that publishes no stop leaves every timer as it was.\<close>

lemma after_run_timers_kept:
  assumes "should_stop_set (snd st)"
    and "\<not> stop_published (fst (after_run step now sv h st))"
  shows "hook_timers (fst (after_run step now sv h st)) = hook_timers (fst st)"
  using assms by (cases st; cases "hook_action h") (auto simp: split_beta Let_def)

lemma after_run_hooks_timers_kept:
  assumes "should_stop_set (snd st)"
    and "\<not> stop_published (fst (after_run_hooks step now sv hs st))"
  shows "hook_timers (fst (after_run_hooks step now sv hs st)) = hook_timers (fst st)"
  using assms
proof (induction hs arbitrary: st)
  case (Cons h hs)
  let ?st' = "after_run step now sv h st"
  have flag: "should_stop_set (snd ?st')"
    using Cons.prems(1) after_run_frame [of step now sv h st] should_stop_set_frame by blast
  have split: "after_run_hooks step now sv (h # hs) st = after_run_hooks step now sv hs ?st'"
    by (simp add: after_run_hooks_def)
  have "\<not> stop_published (fst ?st')"
    using Cons.prems(2) after_run_hooks_published_mono [of ?st' step now sv hs] split by auto
  with Cons.prems(1) have "hook_timers (fst ?st') = hook_timers (fst st)"
    by (rule after_run_timers_kept)
  with Cons.IH [OF flag] Cons.prems(2) split show ?case by simp
qed (simp add: after_run_hooks_def)

lemma after_run_hooks_due_stops:
  assumes "h \<in> set hs" and "hook_action h = Stop_on_predicate secs"
    and "should_trigger_for_step secs (hook_timers (fst st) (hook_obj h)) step now"
    and "should_stop_set (snd st)"
  shows "stop_published (fst (after_run_hooks step now sv hs st))"
  using assms
proof (induction hs arbitrary: st)
  case (Cons h' hs)
  let ?st' = "after_run step now sv h' st"
  have flag: "should_stop_set (snd ?st')"
    using Cons.prems(4) after_run_frame [of step now sv h' st] should_stop_set_frame by blast
  have split: "after_run_hooks step now sv (h' # hs) st = after_run_hooks step now sv hs ?st'"
    by (simp add: after_run_hooks_def)
  show ?case
  proof (cases "stop_published (fst ?st')")
    case True
    with after_run_hooks_published_mono split show ?thesis by metis
  next
    case nostop: False
    show ?thesis
    proof (cases "h' = h")
      case True
      with Cons.prems after_run_due_stops nostop show ?thesis by blast
    next
      case False
      with Cons.prems(1) have "h \<in> set hs" by simp
      moreover have "hook_timers (fst ?st') = hook_timers (fst st)"
        using after_run_timers_kept [OF Cons.prems(4) nostop] .
      ultimately show ?thesis
        using Cons.IH [OF _ Cons.prems(2) _ flag] Cons.prems(3) split by simp
    qed
  qed
qed simp

subsection \<open>The timers\<close>

lemma timers_consistent_mono:
  "timers_consistent clock step ms \<Longrightarrow> step \<le> step' \<Longrightarrow> timers_consistent clock step' ms"
  by (fastforce simp: timers_consistent_def)

lemma after_run_timers_consistent:
  "timers_consistent clock step (fst st) \<Longrightarrow>
   timers_consistent clock step (fst (after_run step (clock step) sv h st))"
  by (cases st; cases "hook_action h") (auto simp: timers_consistent_def split_beta Let_def)

lemma after_run_hooks_timers_consistent:
  "timers_consistent clock step (fst st) \<Longrightarrow>
   timers_consistent clock step (fst (after_run_hooks step (clock step) sv hs st))"
  unfolding after_run_hooks_def
  by (induction hs arbitrary: st) (simp_all add: after_run_timers_consistent)

text \<open>One iteration of the loop, when it does not exit.\<close>

lemma train_loop_step:
  "\<not> (stop_requested ms \<or> last_step \<le> step) \<Longrightarrow>
   run_step clock env hs step ms s = (ms', s') \<Longrightarrow>
   train_loop clock env hs last_step step ms s = train_loop clock env hs last_step (Suc step) ms' s'"
  by (subst train_loop.simps) simp

lemma train_loop_exit:
  "stop_requested ms \<or> last_step \<le> step \<Longrightarrow> train_loop clock env hs last_step step ms s = (step, ms, s)"
  by (subst train_loop.simps) simp

text \<open>
  The core of the liveness argument, by induction over the loop: once the signal is set
  at step \<open>k\<close> and stays set, the stop hook's timer still records a trigger before
  \<open>k\<close> at every step that does not stop, so it is due at the latest at the first step
  \<open>j\<close> whose time is \<open>secs\<close> seconds after step \<open>k\<close>.
\<close>

lemma train_loop_stop_bound:
  assumes "mono clock" and "h \<in> set hs" and "hook_action h = Stop_on_predicate secs"
    and "\<forall>s. should_stop_set (env k s)"
    and "\<forall>i s. k < i \<longrightarrow> should_stop_set s \<longrightarrow> should_stop_set (env i s)"
    and "k \<le> j" and "clock k + secs \<le> clock j"
    and "step \<le> j" and "timers_consistent clock step ms"
    and "k \<le> step \<longrightarrow> should_stop_set s \<and> (\<not> stop_requested ms \<longrightarrow>
       step < j \<and> (\<exists>ls lt. hook_timers ms (hook_obj h) = Some (ls, lt) \<and> ls < k))"
  shows "fst (train_loop clock env hs last_step step ms s) \<le> j"
  using assms
proof (induction clock env hs last_step step ms s rule: train_loop.induct)
  case (1 clock env hs last_step step ms s)
  note prems = "1.prems"
  show ?case
  proof (cases "stop_requested ms \<or> last_step \<le> step")
    case True
    then show ?thesis using prems(8) by (simp add: train_loop_exit)
  next
    case False
    let ?s1 = "env (Suc step) s"
    obtain ms' s' where st0: "run_step clock env hs step ms s = (ms', s')"
      by fastforce
    then have st: "after_run_hooks (Suc step) (clock (Suc step)) (stop_var ms) hs (ms, ?s1) = (ms', s')"
      by (simp add: run_step_def)
    have flag1: "should_stop_set ?s1" if k: "k \<le> Suc step"
    proof (cases "k = Suc step")
      case True
      with prems(4) show ?thesis by simp
    next
      case False
      with k prems(10) have "k < Suc step" and "should_stop_set s" by auto
      then show ?thesis by (rule prems(5) [rule_format])
    qed
    have gd: "global_dict s' = global_dict ?s1"
      using after_run_hooks_frame [of "Suc step" "clock (Suc step)" "stop_var ms" hs "(ms, ?s1)"] st by simp
    have flag': "should_stop_set s'" if "k \<le> Suc step"
      using flag1 [OF that] should_stop_set_frame [OF gd] by simp
    have tc': "timers_consistent clock (Suc step) ms'"
      using after_run_hooks_timers_consistent [of clock "Suc step" "(ms, ?s1)" "stop_var ms" hs]
        timers_consistent_mono [OF prems(9)] st by simp
    have step_le: "Suc step \<le> j"
    proof (cases "step < k")
      case True
      with prems(6) show ?thesis by simp
    next
      case False
      with prems(10) \<open>\<not> (stop_requested ms \<or> last_step \<le> step)\<close> show ?thesis by auto
    qed
    have live: "Suc step < j \<and> (\<exists>ls lt. hook_timers ms' (hook_obj h) = Some (ls, lt) \<and> ls < k)"
      if k: "k \<le> Suc step" and ns: "\<not> stop_requested ms'"
    proof -
      have kept: "hook_timers ms' = hook_timers ms"
        using after_run_hooks_timers_kept [of "(ms, ?s1)" "Suc step" "clock (Suc step)" "stop_var ms" hs]
          flag1 [OF k] ns st by simp
      have notdue: "\<not> should_trigger_for_step secs (hook_timers ms (hook_obj h)) (Suc step) (clock (Suc step))"
        using after_run_hooks_due_stops [of h hs secs "(ms, ?s1)" "Suc step" "clock (Suc step)" "stop_var ms"]
          prems(2,3) flag1 [OF k] ns st by auto
      then obtain ls lt where tm: "hook_timers ms (hook_obj h) = Some (ls, lt)"
        by (cases "hook_timers ms (hook_obj h)") (auto simp: should_trigger_for_step_def)
      have ls: "ls \<le> step" "lt = clock ls"
        using prems(9) tm by (auto simp: timers_consistent_def)
      have lsk: "ls < k"
      proof (cases "k = Suc step")
        case False
        with k have "k \<le> step" by simp
        with prems(10) False \<open>\<not> (stop_requested ms \<or> last_step \<le> step)\<close> tm show ?thesis by auto
      qed (use ls in simp)
      have "Suc step < j"
      proof (rule ccontr)
        assume "\<not> Suc step < j"
        with step_le have j: "j = Suc step" by simp
        have "clock ls \<le> clock k" using monoD [OF prems(1)] lsk by simp
        then have "lt + secs \<le> clock (Suc step)" using prems(7) j ls by simp
        with notdue tm ls show False by (simp add: should_trigger_for_step_def)
      qed
      with kept tm lsk show ?thesis by auto
    qed
    have "fst (train_loop clock env hs last_step (Suc step) ms' s') \<le> j"
      using "1.IH" [OF False st0 [symmetric]] step_le tc' flag' live prems(1,2,3,4,5,6,7) by blast
    then show ?thesis using train_loop_step [of ms last_step step clock env hs s ms' s'] False st0 by simp
  qed
qed

text \<open>The loop exits only on a stop request or at the last step.\<close>

lemma train_loop_exit_cond:
  "stop_requested (fst (snd (train_loop clock env hs last_step step ms s)))
   \<or> last_step \<le> fst (train_loop clock env hs last_step step ms s)"
proof (induction clock env hs last_step step ms s rule: train_loop.induct)
  case (1 clock env hs last_step step ms s)
  show ?case
  proof (cases "stop_requested ms \<or> last_step \<le> step")
    case True
    then show ?thesis by (simp add: train_loop_exit)
  next
    case False
    obtain ms' s' where st0: "run_step clock env hs step ms s = (ms', s')"
      by fastforce
    then have st: "after_run_hooks (Suc step) (clock (Suc step)) (stop_var ms) hs (ms, env (Suc step) s) = (ms', s')"
      by (simp add: run_step_def)
    show ?thesis
      using "1.IH" [OF False st0 [symmetric]] train_loop_step [of ms last_step step clock env hs s ms' s'] False st0
      by simp
  qed
qed

text \<open>
  Without a stop-on-predicate hook, no hook ever sets the stop variable, so while it is
  unset no hook requests a stop.
\<close>

lemma after_run_no_predicate:
  "hook_action h \<in> {Opaque_hook, Check_for_stopping} \<Longrightarrow>
   stop_var (fst (after_run step now sv h st)) = stop_var (fst st)
   \<and> (stop_requested (fst (after_run step now sv h st)) \<longrightarrow> stop_requested (fst st) \<or> sv)"
  by (cases st) (auto split: if_splits)

lemma after_run_hooks_no_predicate:
  "\<forall>h\<in>set hs. hook_action h \<in> {Opaque_hook, Check_for_stopping} \<Longrightarrow>
   stop_var (fst (after_run_hooks step now sv hs st)) = stop_var (fst st)
   \<and> (stop_requested (fst (after_run_hooks step now sv hs st)) \<longrightarrow> stop_requested (fst st) \<or> sv)"
  unfolding after_run_hooks_def
proof (induction hs arbitrary: st)
  case (Cons h hs)
  then show ?case using after_run_no_predicate [of h step now sv st] by fastforce
qed simp

text \<open>A check-for-stopping hook requests the stop in every step that fetches a set variable.\<close>

lemma after_run_hooks_check_stops:
  "h \<in> set hs \<Longrightarrow> hook_action h = Check_for_stopping \<Longrightarrow> sv \<Longrightarrow>
   stop_requested (fst (after_run_hooks step now sv hs st))"
  unfolding after_run_hooks_def
proof (induction hs arbitrary: st)
  case (Cons h' hs)
  show ?case
  proof (cases "h' = h")
    case True
    with Cons.prems have "stop_requested (fst (after_run step now sv h' st))"
      by (cases st) (simp add: split_beta)
    then show ?thesis
      using after_run_hooks_frame [of step now sv hs "after_run step now sv h' st"] by (simp add: after_run_hooks_def)
  next
    case False
    with Cons show ?thesis by simp
  qed
qed simp

text \<open>
  While the flag is unset and the fetched variable is unset, no hook sets the variable
  or requests a stop: a polled predicate returns false and a check-for-stopping hook
  reads false.
\<close>

lemma after_run_quiet:
  "\<not> should_stop_set (snd st) \<Longrightarrow> \<not> sv \<Longrightarrow>
   stop_var (fst (after_run step now sv h st)) = stop_var (fst st)
   \<and> stop_requested (fst (after_run step now sv h st)) = stop_requested (fst st)"
  by (cases st; cases "hook_action h") (auto simp: split_beta Let_def)

lemma after_run_hooks_quiet:
  "\<not> should_stop_set (snd st) \<Longrightarrow> \<not> sv \<Longrightarrow>
   stop_var (fst (after_run_hooks step now sv hs st)) = stop_var (fst st)
   \<and> stop_requested (fst (after_run_hooks step now sv hs st)) = stop_requested (fst st)"
  unfolding after_run_hooks_def
proof (induction hs arbitrary: st)
  case (Cons h hs)
  have "\<not> should_stop_set (snd (after_run step now sv h st))"
    using Cons.prems should_stop_set_frame [OF conjunct1 [OF after_run_frame]] by blast
  with Cons show ?case using after_run_quiet [of st sv step now h] by simp
qed simp

lemma train_loop_no_predicate:
  assumes "\<forall>h\<in>set hs. hook_action h \<in> {Opaque_hook, Check_for_stopping}"
    and "\<not> stop_var ms" and "\<not> stop_requested ms"
  shows "fst (train_loop clock env hs last_step step ms s) = max step last_step"
  using assms
proof (induction clock env hs last_step step ms s rule: train_loop.induct)
  case (1 clock env hs last_step step ms s)
  show ?case
  proof (cases "last_step \<le> step")
    case True
    with "1.prems" show ?thesis by (simp add: train_loop_exit)
  next
    case False
    with "1.prems" have go: "\<not> (stop_requested ms \<or> last_step \<le> step)" by simp
    obtain ms' s' where st0: "run_step clock env hs step ms s = (ms', s')"
      by fastforce
    then have st: "after_run_hooks (Suc step) (clock (Suc step)) (stop_var ms) hs (ms, env (Suc step) s) = (ms', s')"
      by (simp add: run_step_def)
    have "\<not> stop_var ms' \<and> \<not> stop_requested ms'"
      using after_run_hooks_no_predicate [of hs "Suc step" "clock (Suc step)" "stop_var ms" "(ms, env (Suc step) s)"]
        "1.prems" st by simp
    then have "fst (train_loop clock env hs last_step (Suc step) ms' s') = max (Suc step) last_step"
      using "1.IH" [OF go st0 [symmetric]] "1.prems"(1) by simp
    then show ?thesis
      using train_loop_step [of ms last_step step clock env hs s ms' s'] go st0 False by simp
  qed
qed

subsection \<open>Properties of the training loop\<close>

text \<open>
  C8 (the stop comes within one polling interval, scenario 4 over time): on the chief,
  when the training hooks hold a stop-on-predicate hook polled every \<open>secs\<close> seconds and
  the agent sets \<^verbatim>\<open>should_stop\<close> while step \<open>k\<close> runs and never clears it, training
  started before step \<open>k\<close> ends at the latest at any step \<open>j \<ge> k\<close> that finishes
  \<open>secs\<close> seconds after step \<open>k\<close>, and if that is before the last step it ends
  because a stop was requested.
\<close>

theorem train_loop_stops_after_signal:
  assumes "mono clock" and "h \<in> set hs" and "hook_action h = Stop_on_predicate secs"
    and "\<forall>s. should_stop_set (env k s)"
    and "\<forall>i s. k < i \<longrightarrow> should_stop_set s \<longrightarrow> should_stop_set (env i s)"
    and "step < k" and "k \<le> j" and "clock k + secs \<le> clock j"
  shows "fst (train_loop clock env hs last_step step init_session s) \<le> j
    \<and> (j < last_step \<longrightarrow> stop_requested (fst (snd (train_loop clock env hs last_step step init_session s))))"
proof -
  have "fst (train_loop clock env hs last_step step init_session s) \<le> j"
    using assms by (intro train_loop_stop_bound [of clock h hs secs env k j step])
      (simp_all add: init_session_def timers_consistent_def)
  with train_loop_exit_cond [of clock env hs last_step step init_session s] show ?thesis by auto
qed

theorem train_loop_stops_after_signal_witness:
  "fst (train_loop (\<lambda>i. i)
      (\<lambda>i s. if i = 3 then s\<lparr>global_dict := (global_dict s)(''should_stop'' \<mapsto> PyBool True)\<rparr> else s)
      [\<lparr>hook_class = ''_StopOnPredicateHook'', hook_obj = 0, hook_action = Stop_on_predicate 10\<rparr>]
      100 0 init_session init_runtime) \<le> 13
   \<and> stop_requested (fst (snd (train_loop (\<lambda>i. i)
      (\<lambda>i s. if i = 3 then s\<lparr>global_dict := (global_dict s)(''should_stop'' \<mapsto> PyBool True)\<rparr> else s)
      [\<lparr>hook_class = ''_StopOnPredicateHook'', hook_obj = 0, hook_action = Stop_on_predicate 10\<rparr>]
      100 0 init_session init_runtime)))"
  using train_loop_stops_after_signal [where clock = "\<lambda>i. i"
      and h = "\<lparr>hook_class = ''_StopOnPredicateHook'', hook_obj = 0, hook_action = Stop_on_predicate 10\<rparr>"
      and hs = "[\<lparr>hook_class = ''_StopOnPredicateHook'', hook_obj = 0, hook_action = Stop_on_predicate 10\<rparr>]"
      and secs = 10
      and env = "\<lambda>i s. if i = 3 then s\<lparr>global_dict := (global_dict s)(''should_stop'' \<mapsto> PyBool True)\<rparr> else s"
      and k = 3 and step = 0 and j = 13 and last_step = 100 and s = init_runtime]
  by (simp add: mono_def should_stop_fn_def model_simps)

end
