(* ===== verification/Cluster.thy ===== *)
theory Cluster
  imports Session
begin

text \<open>
  Distributed training: the chief and the other workers each run the training loop of
  \<open>Session\<close> in their own process, on their own \<^verbatim>\<open>GlobalDict\<close>, and share one
  TensorFlow variable, the stop variable \<^verbatim>\<open>signal_early_stopping\<close>, which lives on
  the parameter servers. Every step of a worker fetches its current value; the chief's
  \<^verbatim>\<open>_StopOnPredicateHook\<close> assigns it \<open>True\<close> when its predicate holds, and a
  \<^verbatim>\<open>_CheckForStoppingHook\<close> requests the stop of its own worker when the fetched
  value is set. The workers run asynchronously: a run of the cluster is a schedule, the
  list of the workers that take a step, in order.
\<close>

subsection \<open>State\<close>

record worker =
  w_hooks :: "hook list"
  w_session :: mon_session
  w_runtime :: runtime
  w_step :: nat

record cluster =
  shared_stop :: bool
  workers :: "worker list"

subsection \<open>Steps\<close>

text \<open>
  One step of a worker, given the value \<open>sv\<close> of the shared variable: a worker that
  has stopped or reached the last step does nothing; otherwise it runs one iteration of
  the training loop with the shared value as its stop variable, and returns the value
  the variable has afterwards.
\<close>

definition worker_step ::
  "(nat \<Rightarrow> nat) \<Rightarrow> (nat \<Rightarrow> runtime \<Rightarrow> runtime) \<Rightarrow> nat \<Rightarrow> bool \<Rightarrow> worker \<Rightarrow> worker \<times> bool"
where
  "worker_step clock env last_step sv w =
     (if stop_requested (w_session w) \<or> last_step \<le> w_step w then (w, sv)
      else (let (ms', s') = run_step clock env (w_hooks w) (w_step w) ((w_session w)\<lparr>stop_var := sv\<rparr>) (w_runtime w)
            in (w\<lparr>w_session := ms', w_runtime := s', w_step := Suc (w_step w)\<rparr>, stop_var ms')))"

text \<open>
  A step of the cluster: worker \<open>i\<close> (with its own clock and its own process
  environment) takes a step against the shared variable, which then holds what the step
  left in it; every other worker is unchanged.
\<close>

definition cluster_step ::
  "(nat \<Rightarrow> nat \<Rightarrow> nat) \<Rightarrow> (nat \<Rightarrow> nat \<Rightarrow> runtime \<Rightarrow> runtime) \<Rightarrow> nat \<Rightarrow> cluster \<Rightarrow> nat \<Rightarrow> cluster"
where
  "cluster_step clock env last_step c i =
     (if i < length (workers c)
      then (let (w', sv') = worker_step (clock i) (env i) last_step (shared_stop c) (workers c ! i)
            in c\<lparr>shared_stop := sv', workers := (workers c)[i := w']\<rparr>)
      else c)"

definition run_cluster ::
  "(nat \<Rightarrow> nat \<Rightarrow> nat) \<Rightarrow> (nat \<Rightarrow> nat \<Rightarrow> runtime \<Rightarrow> runtime) \<Rightarrow> nat \<Rightarrow> nat list \<Rightarrow> cluster \<Rightarrow> cluster"
where
  "run_cluster clock env last_step sched c = fold (\<lambda>i c. cluster_step clock env last_step c i) sched c"

text \<open>A worker whose hooks never evaluate the stop predicate (any worker but the chief).\<close>

definition predicate_free :: "worker \<Rightarrow> bool" where
  "predicate_free w = (\<forall>h\<in>set (w_hooks w). hook_action h \<in> {Opaque_hook, Check_for_stopping})"

text \<open>A worker is finished when it has requested its stop or reached the last step.\<close>

definition finished :: "nat \<Rightarrow> worker \<Rightarrow> bool" where
  "finished last_step w = (stop_requested (w_session w) \<or> last_step \<le> w_step w)"

text \<open>
  The invariant that rules out a spurious stop: a worker without a stop-on-predicate
  hook has requested its stop only if the shared variable is set.
\<close>

definition no_spurious_stop :: "cluster \<Rightarrow> bool" where
  "no_spurious_stop c =
     (\<forall>j<length (workers c). predicate_free (workers c ! j) \<longrightarrow>
        stop_requested (w_session (workers c ! j)) \<longrightarrow> shared_stop c)"

text \<open>
  A cluster nobody has stopped: the shared variable is unset, no worker has requested its
  stop and none is past the last step.
\<close>

definition quiet :: "nat \<Rightarrow> cluster \<Rightarrow> bool" where
  "quiet last_step c = (\<not> shared_stop c \<and>
     (\<forall>j<length (workers c). \<not> stop_requested (w_session (workers c ! j)) \<and> w_step (workers c ! j) \<le> last_step))"

text \<open>A worker at the start of training with the given hooks, for the concrete runs below.\<close>

definition ex_worker :: "hook list \<Rightarrow> worker" where
  "ex_worker hs = \<lparr>w_hooks = hs, w_session = init_session, w_runtime = init_runtime, w_step = 0\<rparr>"

subsection \<open>One step\<close>

lemma worker_step_finished:
  "finished last_step w \<Longrightarrow> worker_step clock env last_step sv w = (w, sv)"
  by (simp add: worker_step_def finished_def)

lemma worker_step_keeps_finished:
  "finished last_step w \<Longrightarrow> finished last_step (fst (worker_step clock env last_step sv w))"
  by (simp add: worker_step_finished)

lemma worker_step_shared_mono:
  "sv \<Longrightarrow> snd (worker_step clock env last_step sv w)"
  using after_run_hooks_stop_var_mono
  by (auto simp: worker_step_def run_step_def split_beta)

lemma worker_step_hooks [simp]:
  "w_hooks (fst (worker_step clock env last_step sv w)) = w_hooks w"
  by (simp add: worker_step_def split_beta)

lemma worker_step_live:
  "\<not> finished last_step w \<Longrightarrow>
   fst (worker_step clock env last_step sv w) =
     w\<lparr>w_session := fst (run_step clock env (w_hooks w) (w_step w) ((w_session w)\<lparr>stop_var := sv\<rparr>) (w_runtime w)),
       w_runtime := snd (run_step clock env (w_hooks w) (w_step w) ((w_session w)\<lparr>stop_var := sv\<rparr>) (w_runtime w)),
       w_step := Suc (w_step w)\<rparr>
   \<and> snd (worker_step clock env last_step sv w) =
     stop_var (fst (run_step clock env (w_hooks w) (w_step w) ((w_session w)\<lparr>stop_var := sv\<rparr>) (w_runtime w)))"
  by (simp add: worker_step_def finished_def split_beta)

text \<open>A worker with a check-for-stopping hook stops in the first step that fetches a set variable.\<close>

lemma worker_step_check_stops:
  assumes "h \<in> set (w_hooks w)" and "hook_action h = Check_for_stopping" and "sv"
  shows "finished last_step (fst (worker_step clock env last_step sv w))"
proof (cases "finished last_step w")
  case True
  then show ?thesis by (simp add: worker_step_finished)
next
  case False
  have "stop_requested (fst (after_run_hooks (Suc (w_step w)) (clock (Suc (w_step w))) sv (w_hooks w)
      ((w_session w)\<lparr>stop_var := sv\<rparr>, env (Suc (w_step w)) (w_runtime w))))"
    using assms by (rule after_run_hooks_check_stops)
  with False show ?thesis by (simp add: worker_step_live finished_def run_step_def)
qed

text \<open>A worker without a stop-on-predicate hook neither sets the variable nor stops unless it is set.\<close>

lemma worker_step_predicate_free:
  assumes "predicate_free w"
  shows "snd (worker_step clock env last_step sv w) = sv
    \<and> (stop_requested (w_session (fst (worker_step clock env last_step sv w))) \<longrightarrow>
         stop_requested (w_session w) \<or> sv)"
proof (cases "finished last_step w")
  case True
  then show ?thesis by (simp add: worker_step_finished)
next
  case False
  then show ?thesis
    using after_run_hooks_no_predicate [of "w_hooks w" "Suc (w_step w)" "clock (Suc (w_step w))" sv
        "((w_session w)\<lparr>stop_var := sv\<rparr>, env (Suc (w_step w)) (w_runtime w))"] assms
    by (simp add: worker_step_live run_step_def predicate_free_def)
qed

text \<open>Without the flag, a worker step stops nothing and advances an unfinished worker by one.\<close>

lemma worker_step_quiet:
  assumes "\<forall>n s. \<not> should_stop_set (env n s)" and "\<not> sv" and "\<not> stop_requested (w_session w)"
  shows "\<not> snd (worker_step clock env last_step sv w)
    \<and> \<not> stop_requested (w_session (fst (worker_step clock env last_step sv w)))
    \<and> w_step (fst (worker_step clock env last_step sv w)) = (if last_step \<le> w_step w then w_step w else Suc (w_step w))"
proof (cases "finished last_step w")
  case True
  with assms show ?thesis by (simp add: worker_step_finished finished_def)
next
  case False
  then show ?thesis
    using after_run_hooks_quiet [of "((w_session w)\<lparr>stop_var := sv\<rparr>, env (Suc (w_step w)) (w_runtime w))" sv
        "Suc (w_step w)" "clock (Suc (w_step w))" "w_hooks w"] assms
    by (simp add: worker_step_live run_step_def finished_def)
qed

lemma cluster_step_length [simp]:
  "length (workers (cluster_step clock env last_step c i)) = length (workers c)"
  by (simp add: cluster_step_def split_beta)

lemma cluster_step_nth:
  "j < length (workers c) \<Longrightarrow>
   workers (cluster_step clock env last_step c i) ! j =
     (if j = i then fst (worker_step (clock i) (env i) last_step (shared_stop c) (workers c ! i)) else workers c ! j)"
  by (auto simp: cluster_step_def split_beta)

lemma cluster_step_shared:
  "shared_stop (cluster_step clock env last_step c i) =
     (if i < length (workers c) then snd (worker_step (clock i) (env i) last_step (shared_stop c) (workers c ! i))
      else shared_stop c)"
  by (simp add: cluster_step_def split_beta)

lemma cluster_step_shared_mono:
  "shared_stop c \<Longrightarrow> shared_stop (cluster_step clock env last_step c i)"
  by (simp add: cluster_step_shared worker_step_shared_mono)

lemma cluster_step_keeps_finished:
  "j < length (workers c) \<Longrightarrow> finished last_step (workers c ! j) \<Longrightarrow>
   workers (cluster_step clock env last_step c i) ! j = workers c ! j"
  by (auto simp: cluster_step_nth worker_step_finished)

lemma run_cluster_Cons:
  "run_cluster clock env last_step (i # sched) c = run_cluster clock env last_step sched (cluster_step clock env last_step c i)"
  by (simp add: run_cluster_def)

lemma run_cluster_length [simp]:
  "length (workers (run_cluster clock env last_step sched c)) = length (workers c)"
  by (induction sched arbitrary: c) (simp_all add: run_cluster_def)

lemma run_cluster_hooks:
  "j < length (workers c) \<Longrightarrow>
   w_hooks (workers (run_cluster clock env last_step sched c) ! j) = w_hooks (workers c ! j)"
  by (induction sched arbitrary: c) (simp_all add: run_cluster_Cons cluster_step_nth, simp add: run_cluster_def)

lemma predicate_free_step [simp]:
  "predicate_free (fst (worker_step clock env last_step sv w)) = predicate_free w"
  by (simp add: predicate_free_def)

subsection \<open>Runs of the cluster\<close>

lemma run_cluster_shared_mono:
  "shared_stop c \<Longrightarrow> shared_stop (run_cluster clock env last_step sched c)"
  by (induction sched arbitrary: c) (simp_all add: run_cluster_Cons cluster_step_shared_mono, simp add: run_cluster_def)

lemma run_cluster_keeps_finished:
  "j < length (workers c) \<Longrightarrow> finished last_step (workers c ! j) \<Longrightarrow>
   workers (run_cluster clock env last_step sched c) ! j = workers c ! j"
proof (induction sched arbitrary: c)
  case (Cons i sched)
  have "workers (cluster_step clock env last_step c i) ! j = workers c ! j"
    using Cons.prems by (rule cluster_step_keeps_finished)
  with Cons.prems Cons.IH [of "cluster_step clock env last_step c i"] show ?case
    by (simp add: run_cluster_Cons)
qed (simp add: run_cluster_def)

lemma cluster_step_no_spurious_stop:
  assumes "no_spurious_stop c"
  shows "no_spurious_stop (cluster_step clock env last_step c i)"
  unfolding no_spurious_stop_def
proof (intro allI impI)
  fix j
  let ?c' = "cluster_step clock env last_step c i"
  assume j: "j < length (workers ?c')" and pf: "predicate_free (workers ?c' ! j)"
    and sr: "stop_requested (w_session (workers ?c' ! j))"
  show "shared_stop ?c'"
  proof (cases "i < length (workers c) \<and> j = i")
    case True
    let ?w = "workers c ! i"
    have pf': "predicate_free ?w" using pf True by (simp add: cluster_step_nth)
    have step: "snd (worker_step (clock i) (env i) last_step (shared_stop c) ?w) = shared_stop c
        \<and> (stop_requested (w_session (fst (worker_step (clock i) (env i) last_step (shared_stop c) ?w))) \<longrightarrow>
           stop_requested (w_session ?w) \<or> shared_stop c)"
      using pf' by (rule worker_step_predicate_free)
    have "stop_requested (w_session ?w) \<or> shared_stop c"
      using step sr True by (simp add: cluster_step_nth)
    then have "shared_stop c"
      using assms True pf' unfolding no_spurious_stop_def by blast
    with step True show ?thesis by (simp add: cluster_step_shared)
  next
    case False
    have jl: "j < length (workers c)" using j by simp
    with False have "j \<noteq> i" by auto
    with jl have "workers ?c' ! j = workers c ! j" by (simp add: cluster_step_nth)
    note this jl
    with assms pf sr have "shared_stop c" unfolding no_spurious_stop_def by auto
    then show ?thesis by (rule cluster_step_shared_mono)
  qed
qed

lemma run_cluster_no_spurious_stop:
  "no_spurious_stop c \<Longrightarrow> no_spurious_stop (run_cluster clock env last_step sched c)"
  by (induction sched arbitrary: c) (simp_all add: run_cluster_Cons cluster_step_no_spurious_stop, simp add: run_cluster_def)

lemma run_cluster_check_finishes:
  assumes "shared_stop c" and "i < length (workers c)" and "i \<in> set sched"
    and "h \<in> set (w_hooks (workers c ! i))" and "hook_action h = Check_for_stopping"
  shows "finished last_step (workers (run_cluster clock env last_step sched c) ! i)"
  using assms
proof (induction sched arbitrary: c)
  case (Cons j sched)
  let ?c' = "cluster_step clock env last_step c j"
  have sh: "shared_stop ?c'" using Cons.prems(1) by (rule cluster_step_shared_mono)
  have len: "i < length (workers ?c')" using Cons.prems(2) by simp
  have hk: "h \<in> set (w_hooks (workers ?c' ! i))"
    using Cons.prems(2,4) by (auto simp: cluster_step_nth)
  show ?case
  proof (cases "j = i")
    case True
    have "finished last_step (workers ?c' ! i)"
      using Cons.prems True worker_step_check_stops [of h "workers c ! i"] by (simp add: cluster_step_nth)
    with len show ?thesis by (simp add: run_cluster_Cons run_cluster_keeps_finished)
  next
    case False
    with Cons.prems(3) have "i \<in> set sched" by simp
    with Cons.IH [OF sh len _ hk Cons.prems(5)] show ?thesis by (simp add: run_cluster_Cons)
  qed
qed simp

text \<open>
  A step of the chief in which its stop hook is due while its \<^verbatim>\<open>should_stop\<close> is
  set publishes the stop: the shared variable is set and the chief is finished.
\<close>

lemma cluster_step_publishes:
  assumes "i < length (workers c)" and "\<not> finished last_step (workers c ! i)"
    and "h \<in> set (w_hooks (workers c ! i))" and "hook_action h = Stop_on_predicate secs"
    and "should_trigger_for_step secs (hook_timers (w_session (workers c ! i)) (hook_obj h))
           (Suc (w_step (workers c ! i))) (clock i (Suc (w_step (workers c ! i))))"
    and "should_stop_set (env i (Suc (w_step (workers c ! i))) (w_runtime (workers c ! i)))"
  shows "shared_stop (cluster_step clock env last_step c i)
    \<and> finished last_step (workers (cluster_step clock env last_step c i) ! i)"
proof -
  let ?w = "workers c ! i"
  let ?st = "((w_session ?w)\<lparr>stop_var := shared_stop c\<rparr>, env i (Suc (w_step ?w)) (w_runtime ?w))"
  have "stop_published (fst (after_run_hooks (Suc (w_step ?w)) (clock i (Suc (w_step ?w))) (shared_stop c) (w_hooks ?w) ?st))"
    using assms(3-6) by (intro after_run_hooks_due_stops [of h _ secs]) simp_all
  with assms(1,2) show ?thesis
    by (simp add: cluster_step_shared cluster_step_nth worker_step_live finished_def run_step_def)
qed

subsection \<open>The stop across the cluster\<close>

text \<open>
  No spurious stop: starting from workers none of which has stopped, a worker
  without a stop-on-predicate hook (any worker but the chief) has requested its stop
  only if the shared stop variable is set, whatever the schedule and whatever its own
  \<^verbatim>\<open>GlobalDict\<close> holds.
\<close>

lemma run_cluster_stop_needs_signal:
  assumes "\<forall>w\<in>set (workers c). \<not> stop_requested (w_session w)"
    and "i < length (workers c)" and "predicate_free (workers c ! i)"
    and "stop_requested (w_session (workers (run_cluster clock env last_step sched c) ! i))"
  shows "shared_stop (run_cluster clock env last_step sched c)"
proof -
  have "no_spurious_stop c"
    using assms(1) by (auto simp: no_spurious_stop_def)
  then have "no_spurious_stop (run_cluster clock env last_step sched c)"
    by (rule run_cluster_no_spurious_stop)
  moreover have "predicate_free (workers (run_cluster clock env last_step sched c) ! i)"
    using assms(2,3) by (simp add: predicate_free_def run_cluster_hooks)
  ultimately show ?thesis
    using assms(2,4) unfolding no_spurious_stop_def by simp
qed

text \<open>
  The chief's stop reaches the workers: when the chief takes a step in which its
  stop hook is due while its \<^verbatim>\<open>should_stop\<close> is set, the shared stop variable is set
  and the chief is finished, and afterwards every worker with a check-for-stopping hook
  is finished after its next scheduled step.
\<close>

lemma chief_stop_reaches_workers:
  assumes "i < length (workers c)" and "\<not> finished last_step (workers c ! i)"
    and "h \<in> set (w_hooks (workers c ! i))" and "hook_action h = Stop_on_predicate secs"
    and "should_trigger_for_step secs (hook_timers (w_session (workers c ! i)) (hook_obj h))
           (Suc (w_step (workers c ! i))) (clock i (Suc (w_step (workers c ! i))))"
    and "should_stop_set (env i (Suc (w_step (workers c ! i))) (w_runtime (workers c ! i)))"
  shows "shared_stop (run_cluster clock env last_step (i # sched) c)
    \<and> finished last_step (workers (run_cluster clock env last_step (i # sched) c) ! i)
    \<and> (\<forall>j<length (workers c). j \<in> set sched \<longrightarrow>
         (\<exists>g\<in>set (w_hooks (workers c ! j)). hook_action g = Check_for_stopping) \<longrightarrow>
         finished last_step (workers (run_cluster clock env last_step (i # sched) c) ! j))"
proof -
  let ?c' = "cluster_step clock env last_step c i"
  have pub: "shared_stop ?c'" "finished last_step (workers ?c' ! i)"
    using cluster_step_publishes [where clock = clock and env = env and last_step = last_step, OF assms] by simp_all
  have "shared_stop (run_cluster clock env last_step sched ?c')"
    using pub(1) by (rule run_cluster_shared_mono)
  moreover have "finished last_step (workers (run_cluster clock env last_step sched ?c') ! i)"
    using pub(2) assms(1) by (simp add: run_cluster_keeps_finished)
  moreover have "finished last_step (workers (run_cluster clock env last_step sched ?c') ! j)"
    if "j < length (workers c)" "j \<in> set sched" "g \<in> set (w_hooks (workers c ! j))"
      "hook_action g = Check_for_stopping" for j g
  proof (rule run_cluster_check_finishes [OF pub(1) _ that(2)])
    show "j < length (workers ?c')" using that(1) by simp
    show "g \<in> set (w_hooks (workers ?c' ! j))" using that(1,3) by (auto simp: cluster_step_nth)
  qed (rule that(4))
  ultimately show ?thesis by (auto simp: run_cluster_Cons)
qed

subsection \<open>Runs without the signal\<close>

lemma cluster_step_quiet:
  assumes "\<forall>i n s. \<not> should_stop_set (env i n s)" and "quiet last_step c"
  shows "quiet last_step (cluster_step clock env last_step c i)
    \<and> (\<forall>j<length (workers c). w_step (workers (cluster_step clock env last_step c i) ! j) =
         min last_step (w_step (workers c ! j) + (if j = i then 1 else 0)))"
proof (cases "i < length (workers c)")
  case False
  with assms(2) show ?thesis by (auto simp: cluster_step_def quiet_def min_absorb2)
next
  case True
  have q: "\<not> shared_stop c" "\<not> stop_requested (w_session (workers c ! i))" "w_step (workers c ! i) \<le> last_step"
    using assms(2) True by (auto simp: quiet_def)
  have ws: "\<not> snd (worker_step (clock i) (env i) last_step (shared_stop c) (workers c ! i))
    \<and> \<not> stop_requested (w_session (fst (worker_step (clock i) (env i) last_step (shared_stop c) (workers c ! i))))
    \<and> w_step (fst (worker_step (clock i) (env i) last_step (shared_stop c) (workers c ! i))) =
        (if last_step \<le> w_step (workers c ! i) then w_step (workers c ! i) else Suc (w_step (workers c ! i)))"
    using assms(1) q(1,2) by (intro worker_step_quiet) simp_all
  show ?thesis
    using assms(2) True ws q(3)
    by (auto simp: quiet_def cluster_step_nth cluster_step_shared min_def)
qed

lemma run_cluster_quiet:
  assumes "\<forall>i n s. \<not> should_stop_set (env i n s)" and "quiet last_step c"
  shows "quiet last_step (run_cluster clock env last_step sched c)
    \<and> (\<forall>j<length (workers c). w_step (workers (run_cluster clock env last_step sched c) ! j) =
         min last_step (w_step (workers c ! j) + count_list sched j))"
  using assms(2)
proof (induction sched arbitrary: c)
  case Nil
  then show ?case by (auto simp: run_cluster_def quiet_def min_absorb2)
next
  case (Cons i sched)
  let ?c1 = "cluster_step clock env last_step c i"
  have c1: "quiet last_step ?c1"
    "\<forall>j<length (workers c). w_step (workers ?c1 ! j) = min last_step (w_step (workers c ! j) + (if j = i then 1 else 0))"
    using cluster_step_quiet [OF assms(1) Cons.prems] by simp_all
  show ?case
    using Cons.IH [OF c1(1)] c1(2) by (auto simp: run_cluster_Cons min_def)
qed

text \<open>
  C32 (no spurious early stop): while \<^verbatim>\<open>GlobalDict['should_stop']\<close> is never set, whatever
  the hooks and the schedule, the shared variable stays unset, no worker requests its
  stop, and every worker trains one step each time it is scheduled until the last step:
  the early-stopping hooks never cut training short on their own.
\<close>

theorem cluster_runs_to_last_step_without_signal:
  assumes "\<forall>i n s. \<not> should_stop_set (env i n s)"
    and "\<not> shared_stop c"
    and "\<forall>j<length (workers c). \<not> stop_requested (w_session (workers c ! j)) \<and> w_step (workers c ! j) \<le> last_step"
  shows "\<not> shared_stop (run_cluster clock env last_step sched c)
    \<and> (\<forall>j<length (workers c). \<not> stop_requested (w_session (workers (run_cluster clock env last_step sched c) ! j))
         \<and> w_step (workers (run_cluster clock env last_step sched c) ! j) =
             min last_step (w_step (workers c ! j) + count_list sched j))"
  using run_cluster_quiet [of env last_step c clock sched] assms by (simp add: quiet_def)

theorem cluster_runs_to_last_step_without_signal_witness:
  "\<not> shared_stop (run_cluster (\<lambda>i n. 10 * n) (\<lambda>i n s. s\<lparr>global_dict := global_dict init_runtime\<rparr>) 2 [0, 1, 0, 0]
      \<lparr>shared_stop = False, workers = [ex_worker [\<lparr>hook_class = ''_StopOnPredicateHook'', hook_obj = 1, hook_action = Stop_on_predicate 10\<rparr>], ex_worker [\<lparr>hook_class = ''_CheckForStoppingHook'', hook_obj = 2, hook_action = Check_for_stopping\<rparr>]]\<rparr>)
   \<and> w_step (workers (run_cluster (\<lambda>i n. 10 * n) (\<lambda>i n s. s\<lparr>global_dict := global_dict init_runtime\<rparr>) 2 [0, 1, 0, 0]
      \<lparr>shared_stop = False, workers = [ex_worker [\<lparr>hook_class = ''_StopOnPredicateHook'', hook_obj = 1, hook_action = Stop_on_predicate 10\<rparr>], ex_worker [\<lparr>hook_class = ''_CheckForStoppingHook'', hook_obj = 2, hook_action = Check_for_stopping\<rparr>]]\<rparr>) ! 0) = 2
   \<and> w_step (workers (run_cluster (\<lambda>i n. 10 * n) (\<lambda>i n s. s\<lparr>global_dict := global_dict init_runtime\<rparr>) 2 [0, 1, 0, 0]
      \<lparr>shared_stop = False, workers = [ex_worker [\<lparr>hook_class = ''_StopOnPredicateHook'', hook_obj = 1, hook_action = Stop_on_predicate 10\<rparr>], ex_worker [\<lparr>hook_class = ''_CheckForStoppingHook'', hook_obj = 2, hook_action = Check_for_stopping\<rparr>]]\<rparr>) ! 1) = 1"
proof -
  let ?c = "\<lparr>shared_stop = False, workers = [ex_worker [\<lparr>hook_class = ''_StopOnPredicateHook'', hook_obj = 1, hook_action = Stop_on_predicate 10\<rparr>], ex_worker [\<lparr>hook_class = ''_CheckForStoppingHook'', hook_obj = 2, hook_action = Check_for_stopping\<rparr>]]\<rparr>"
  have h: "\<not> shared_stop (run_cluster (\<lambda>i n. 10 * n) (\<lambda>i n s. s\<lparr>global_dict := global_dict init_runtime\<rparr>) 2 [0, 1, 0, 0] ?c)
    \<and> (\<forall>j<length (workers ?c).
         \<not> stop_requested (w_session (workers (run_cluster (\<lambda>i n. 10 * n) (\<lambda>i n s. s\<lparr>global_dict := global_dict init_runtime\<rparr>) 2 [0, 1, 0, 0] ?c) ! j))
         \<and> w_step (workers (run_cluster (\<lambda>i n. 10 * n) (\<lambda>i n s. s\<lparr>global_dict := global_dict init_runtime\<rparr>) 2 [0, 1, 0, 0] ?c) ! j) =
             min 2 (w_step (workers ?c ! j) + count_list [0, 1, 0, 0] j))"
    by (rule cluster_runs_to_last_step_without_signal)
      (auto simp: should_stop_fn_def init_runtime_def model_simps ex_worker_def init_session_def nth_Cons')
  then show ?thesis
    using h [THEN conjunct2, rule_format, of 0] h [THEN conjunct2, rule_format, of 1]
    by (simp add: ex_worker_def)
qed

end
