(* ===== verification/Spec2Isabelle.thy ===== *)
theory Spec2Isabelle
  imports Cluster
begin

text \<open>
  Verification of the hook injection of DLRover's TensorFlow trainer,
  \<^verbatim>\<open>src/dlrover/trainer/tensorflow/util/estimator_util.py\<close> (91 lines), and of what
  the TensorFlow engine does with the hooks it injects.

  \<^bold>\<open>The program.\<close> Two parts. The Hook Merger, \<^verbatim>\<open>append_hooks\<close> (lines 22--53) with
  its inner loop \<^verbatim>\<open>_unique\<close> (lines 30--43), merges the hooks a caller configured for
  one of four categories (training-chief, training, evaluation, prediction) into the
  hooks already on a TensorFlow \<^verbatim>\<open>EstimatorSpec\<close>: configured hooks first, then the
  existing ones, keeping the first hook of each class name and logging a warning for
  each dropped one. The Interception Wrapper, \<^verbatim>\<open>hook_estimator_call_model_fn\<close>
  (lines 56--92), replaces the class attribute \<^verbatim>\<open>Estimator._call_model_fn\<close> by the
  closure \<^verbatim>\<open>dlrover_call_model_fn\<close>, which captures the configuration \<^verbatim>\<open>params\<close> and
  the previous attribute value. Each call hands the estimator \<^verbatim>\<open>self = args[0]\<close> and
  the predicate \<^verbatim>\<open>should_stop_fn\<close> (which reads \<^verbatim>\<open>GlobalDict()["should_stop"]\<close>) to
  TensorFlow's \<^verbatim>\<open>make_early_stopping_hook\<close>, calls the captured entry point, and,
  when it returns a spec and \<^verbatim>\<open>params\<close> is truthy, appends the hook to the configured
  training list in place and calls \<^verbatim>\<open>append_hooks\<close> once per key. The engine then
  trains with the spec's training hooks and calls each hook's \<^verbatim>\<open>after_run\<close> after
  every step.

  \<^bold>\<open>Theories.\<close>
  \<^item> \<open>Prelude\<close>: the names of the model's types, the collection \<open>model_simps\<close>, and the
    reference definition \<open>first_by f xs\<close> (keep, left to right, each element whose key
    was not seen) with its list lemmas: image, distinctness, idempotence, re-merge,
    append, \<open>find\<close> and \<open>map_of\<close> of the result.
  \<^item> \<open>Collaborators\<close>: what the code calls but does not define: \<^verbatim>\<open>dict.get\<close> with a
    default (\<open>dict_get\<close>), truthiness (\<open>truthy\<close>), \<^verbatim>\<open>GlobalDict\<close> (\<open>global_get\<close>;
    a write by external logic is a map update of the dictionary) and the logger, whose
    calls are kept as records (\<open>log_entry\<close>: format string and arguments).
  \<^item> \<open>Hooks\<close>: a hook is a record (class name, object identity, and what its
    \<^verbatim>\<open>after_run\<close> does: nothing observable, stop on a predicate every \<open>n\<close> seconds, or
    check the stop variable); \<^verbatim>\<open>EstimatorSpec\<close> is a record of its four hook fields
    whose extension \<open>'a\<close> stands for every other field; \<open>get_hooks\<close>/\<open>replace_hooks\<close>
    are \<^verbatim>\<open>getattr\<close>/\<^verbatim>\<open>_replace\<close>; \<open>unique_loop\<close> is the loop of \<^verbatim>\<open>_unique\<close> over
    its state (the dictionary \<^verbatim>\<open>dup\<close>, the list \<^verbatim>\<open>result\<close>, the warnings), \<open>unique\<close>
    the function, \<open>configured_hooks\<close> the copy of the configured list (line 24),
    \<open>class_names\<close> the comprehension of class names the log records show,
    \<open>append_hooks\<close> the merge with its fast path. \<open>class_map\<close> is the
    abstraction of a hook list to a dictionary from class names.
  \<^item> \<open>Wrapper\<close>: the process state \<open>runtime\<close>: the attribute value (\<open>model_fn_impl\<close>:
    the original method, or a closure over a configuration and the value it replaced),
    a heap of the list objects configurations refer to (\<open>param_val\<close>: a list reference
    or a tuple), \<^verbatim>\<open>GlobalDict\<close>, a counter of object identities, the log. The
    arguments of a call are the estimator (\<open>estimator\<close>, of which only
    \<^verbatim>\<open>config.is_chief\<close> is read) and the rest. \<open>make_early_stopping_hook\<close> is
    TensorFlow's choice between \<^verbatim>\<open>_StopOnPredicateHook\<close> (chief) and
    \<^verbatim>\<open>_CheckForStoppingHook\<close> (other workers), \<open>dlrover_early_stopping_hook\<close> its
    call with \<^verbatim>\<open>run_every_secs=10\<close> (lines 71--73), \<open>call_model_fn_impl\<close> is
    \<^verbatim>\<open>dlrover_call_model_fn\<close>, \<open>append_training_hook\<close> lines 84--87,
    \<open>append_hooks_keys\<close> the loop of lines 88--89, \<open>hook_estimator_call_model_fn\<close> the
    installation, \<open>estimator_call_model_fn\<close> a call through the attribute (set at
    line 92), \<open>run_calls\<close> a sequence of calls.
  \<^item> \<open>Session\<close>: TensorFlow's monitored training loop as the early-stopping hooks see
    it: \<open>mon_session\<close> holds each hook's \<^verbatim>\<open>SecondOrStepTimer\<close>, the stop variable and
    the stop request; \<open>after_run\<close> is the two hooks' \<^verbatim>\<open>after_run\<close>,
    \<open>after_run_hooks\<close> one pass over the hooks, \<open>run_step\<close> one iteration,
    \<open>train_loop\<close> the loop up to the last step, with the wall clock and the rest of
    the process (the agent writing \<^verbatim>\<open>GlobalDict\<close>) as parameters.
  \<^item> \<open>Cluster\<close>: a distributed job: \<open>cluster\<close> is the stop variable on the parameter
    servers and the list of \<open>worker\<close>s (hooks, session, process state, global step);
    \<open>worker_step\<close> is one step of a worker against the shared variable,
    \<open>cluster_step\<close> the step of the \<open>i\<close>-th worker with the others unchanged,
    \<open>run_cluster\<close> an asynchronous run given by a schedule of worker indices. Its
    lemmas: the variable is only ever set, finished workers never change, a worker
    with a check-for-stopping hook finishes at its next step once the variable is set,
    the chief's due stop hook sets it, and (an invariant of every run) a worker without
    a stop-on-predicate hook stops only once it is set. Its claim: while the flag is
    never set (\<open>quiet\<close> runs) nothing stops and every worker trains once per
    schedule entry up to the last step.
  \<^item> This theory: the properties that span the wrapper, the training loop and the
    cluster.

  \<^bold>\<open>What is proved.\<close> The loop \<^verbatim>\<open>_unique\<close> equals \<open>first_by\<close> and logs one warning
  per dropped hook (loop invariant by induction over the hooks with the loop state
  generalised). \<^verbatim>\<open>append_hooks\<close> is characterised on both branches; from that, the
  specification's properties: configured hooks win (P2), order is kept when classes do
  not overlap (P3, with the correction below), an empty configuration is a no-op (P4),
  categories do not leak into each other, for one call and for the loop over the keys
  (P5), identical types collapse to the configured instances (P1), re-merging the same configuration is idempotent, handing a spec's own hooks back as
  the configuration is the identity (a round trip), and the merged list refines the
  dictionary override \<open>existing ++ configured\<close> with no class repeated. The loop
  over the four keys logs what the four merges of the original spec log, in key order.
  For the wrapper: the exact result of a call on every branch (exception from the original, falsy configuration, missing
  training key, tuple, list) with the exact records it logs, propagation of exceptions
  through any stack of closures, a failure of an outer closure after the inner one
  has appended (the call is not atomic), type soundness (with list-valued configurations the wrapper raises nothing of its
  own), the read-through of the stop flag at poll time, the growth of the configured
  list over a run, the stale early-stopping hook from the second call on, double
  installation, stacked installations with different configurations (the outer
  configuration and the outer closure's hook win every class conflict), and the
  aliasing of one list under two keys. For the training loop: on the chief, once \<^verbatim>\<open>should_stop\<close> is set and
  stays set, training ends within one polling interval (bounded-delay liveness, by
  induction over the loop with an invariant of the timers), and end to end a wrapped
  call on the chief yields hooks that stop training within ten seconds, while on
  another worker they never read the flag. In a cluster whose chief and worker made
  wrapped calls, the chief's stop reaches the worker at its next step, and the worker
  never stops before the shared variable is set, whatever the schedule; without the
  flag no worker stops and each reaches the last step once scheduled often enough.
  Witnesses evaluate every theorem with hypotheses on the specification's scenarios.

  \<^bold>\<open>Modelling choices.\<close> The loops of the code are structural recursion
  (\<^theory_text>\<open>fun\<close>, \<open>fold\<close>); the training loop is a \<^theory_text>\<open>function\<close> whose
  termination measure is the distance of the global step to the last step, so no fuel
  is needed. Python's mutable lists are modelled only where the code mutates one (the
  configured training list, in the heap); \<^verbatim>\<open>_replace\<close> builds a new record.
  \<open>orig\<close>, TensorFlow's \<^verbatim>\<open>_call_model_fn\<close>, is a parameter: any function from the call's
  arguments to a spec or an exception. Time is a parameter \<open>clock\<close> (the wall-clock
  second at which each step ends, assumed monotone in the liveness theorems) and the
  rest of the process between two steps a parameter \<open>env\<close>.

  \<^bold>\<open>Not modelled.\<close> TensorFlow beyond what the hooks observe: the graph, the train
  op and the other hooks (opaque), input exhaustion, \<^verbatim>\<open>run_every_steps\<close> (the code
  passes seconds only), and failures of the parameter servers (in the cluster the
  shared variable is read once per step and written at once); the contents of the log
  strings beyond their format and arguments; the difference between a list and a tuple
  in the spec's hook fields; an arbitrary interleaving of installations, calls, polls
  and writes as a transition system (its only invariant, that every configured list
  exists, holds for Python lists by construction; the theorems compose the operations
  explicitly instead: runs of calls, double and stacked installations, a flag written
  between steps); threads (the code takes no lock and the model runs calls one after another); and
  configuration values other than lists and tuples. Every line of the module from
  line 22 on is modelled; lines 1--19 are the licence and the imports, which have no
  behaviour of their own.

  \<^bold>\<open>Findings.\<close> A truthy configuration without \<^verbatim>\<open>training_hooks\<close> loses the
  early-stopping hook; a tuple of training hooks makes every call raise
  \<^verbatim>\<open>AttributeError\<close>; the configured list grows by one hook per call, and from the
  second call on the merged training hooks keep the first call's early-stopping hook; a
  second installation doubles the appends, and with a different configuration the
  last installed one wins every class conflict and the inner closure's early-stopping
  hook is dropped from the result, while an outer configuration holding a tuple makes
  the call raise after the inner list has grown; a list stored under two keys carries the
  early-stopping hook into both categories; on a worker that is not the chief the
  attached hook never calls \<^verbatim>\<open>should_stop_fn\<close>, so the flag is read only on the
  chief and a worker stops only through the chief's shared variable; the ``before
  deduplication'' log lists only the configured names; P3 of the
  specification fails when the existing hooks repeat a class.
\<close>

section \<open>The training hooks of a wrapped call on a worker\<close>

text \<open>
  On a worker that is not the chief, when the configured and existing training hooks
  are ordinary hooks, the training hooks a wrapped call returns never evaluate the stop
  predicate.
\<close>

lemma wrapped_worker_hooks_predicate_free:
  assumes "orig args = Inr r"
    and "map_of p ''training_hooks'' = Some (Param_list a)"
    and "heap s a = Some hs"
    and "\<not> is_chief (config (fst args))"
    and "\<forall>h\<in>set (hs @ existing_hooks r EstimatorTrainingHooks). hook_action h = Opaque_hook"
  obtains r' s' where
    "call_model_fn_impl orig (Dlrover_call_model_fn (Some p) Original_call_model_fn) args s = (Inr r', s')"
    and "existing_hooks r' EstimatorTrainingHooks =
      first_by hook_class (hs @ fst (make_early_stopping_hook (fst args) s 10) # existing_hooks r EstimatorTrainingHooks)"
    and "\<forall>g\<in>set (existing_hooks r' EstimatorTrainingHooks). hook_action g \<in> {Opaque_hook, Check_for_stopping}"
proof -
  let ?h = "fst (make_early_stopping_hook (fst args) s 10)"
  obtain r' s' where call: "call_model_fn_impl orig (Dlrover_call_model_fn (Some p) Original_call_model_fn) args s
      = (Inr r', s')" and train: "existing_hooks r' EstimatorTrainingHooks =
        first_by hook_class (hs @ ?h # existing_hooks r EstimatorTrainingHooks)"
    using assms(1-3) by (rule wrapped_call_training_hooks)
  have "hook_action ?h = Check_for_stopping"
    using assms(4) by (simp add: check_hook_eq)
  with assms(5) have "\<forall>g\<in>set (hs @ ?h # existing_hooks r EstimatorTrainingHooks).
      hook_action g \<in> {Opaque_hook, Check_for_stopping}" by auto
  moreover have "set (existing_hooks r' EstimatorTrainingHooks) \<subseteq> set (hs @ ?h # existing_hooks r EstimatorTrainingHooks)"
    unfolding train by (rule set_first_by_subset)
  ultimately have "\<forall>g\<in>set (existing_hooks r' EstimatorTrainingHooks). hook_action g \<in> {Opaque_hook, Check_for_stopping}"
    by (meson subsetD)
  with call train show ?thesis by (rule that)
qed

section \<open>Properties across the components\<close>

text \<open>
  C5 (end to end): when the wrapper is installed with training hooks configured as a
  list, a call on the chief whose original entry point returns a spec returns training
  hooks with no repeated class and exactly one early-stopping hook, whatever the
  configured list and the original spec held.
\<close>

theorem wrapped_call_one_stop_hook:
  assumes "orig args = Inr r"
    and "map_of p ''training_hooks'' = Some (Param_list a)"
    and "heap s a = Some hs"
    and "is_chief (config (fst args))"
  shows "\<exists>r' s'. call_model_fn_impl orig (Dlrover_call_model_fn (Some p) Original_call_model_fn) args s = (Inr r', s')
    \<and> distinct (map hook_class (existing_hooks r' EstimatorTrainingHooks))
    \<and> length (filter (\<lambda>h. hook_class h = ''_StopOnPredicateHook'') (existing_hooks r' EstimatorTrainingHooks)) = 1"
proof -
  let ?h = "fst (make_early_stopping_hook (fst args) s 10)"
  let ?all = "hs @ ?h # existing_hooks r EstimatorTrainingHooks"
  obtain r' s' where call: "call_model_fn_impl orig (Dlrover_call_model_fn (Some p) Original_call_model_fn) args s
      = (Inr r', s')" and train: "existing_hooks r' EstimatorTrainingHooks = first_by hook_class ?all"
    using assms(1-3) by (rule wrapped_call_training_hooks)
  have "?h \<in> set ?all" by simp
  moreover have "hook_class ?h = ''_StopOnPredicateHook''" using assms(4) by (simp add: stop_hook_eq)
  ultimately have "find (\<lambda>h. hook_class h = ''_StopOnPredicateHook'') ?all \<noteq> None"
    by (auto simp: find_None_iff)
  then have "length (filter (\<lambda>h. hook_class h = ''_StopOnPredicateHook'') (first_by hook_class ?all)) = 1"
    by (auto simp: filter_first_by_key split: option.split)
  with call train show ?thesis by (simp add: distinct_first_by)
qed

theorem wrapped_call_one_stop_hook_witness:
  "\<exists>r' s'. call_model_fn_impl (\<lambda>x::estimator \<times> nat. (Inr (ex_spec (Some [ex_hook ''SummaryHook'' 100])) :: exc + estimator_spec))
        (Dlrover_call_model_fn (Some [(''training_hooks'', Param_list 0)]) Original_call_model_fn) (chief_estimator, 7)
        (init_runtime\<lparr>heap := [0 \<mapsto> [ex_hook ''CheckpointHook'' 1]], next_obj := 2\<rparr>) = (Inr r', s')
    \<and> distinct (map hook_class (existing_hooks r' EstimatorTrainingHooks))
    \<and> length (filter (\<lambda>h. hook_class h = ''_StopOnPredicateHook'') (existing_hooks r' EstimatorTrainingHooks)) = 1"
  using wrapped_call_one_stop_hook [of "\<lambda>x::estimator \<times> nat. (Inr (ex_spec (Some [ex_hook ''SummaryHook'' 100])) :: exc + estimator_spec)"
      "(chief_estimator, 7)" "ex_spec (Some [ex_hook ''SummaryHook'' 100])" "[(''training_hooks'', Param_list 0)]" 0
      "init_runtime\<lparr>heap := [0 \<mapsto> [ex_hook ''CheckpointHook'' 1]], next_obj := 2\<rparr>" "[ex_hook ''CheckpointHook'' 1]"]
  by (simp add: chief_estimator_def)

text \<open>
  C7 (end to end, the chief stops within ten seconds): on the chief, when the wrapper
  is installed with training hooks configured as a list and neither that list nor the
  spec holds a \<^verbatim>\<open>_StopOnPredicateHook\<close>, training with the training hooks the
  wrapped call returns, started before the agent sets \<^verbatim>\<open>should_stop\<close> at step
  \<open>k\<close> and never clears it, ends at the latest at any step that finishes ten seconds
  after step \<open>k\<close>.
\<close>

theorem wrapped_chief_training_stops:
  assumes "orig args = Inr r"
    and "map_of p ''training_hooks'' = Some (Param_list a)"
    and "heap s a = Some hs"
    and "is_chief (config (fst args))"
    and "''_StopOnPredicateHook'' \<notin> hook_class ` set hs"
    and "mono clock"
    and "\<forall>s. should_stop_set (env k s)"
    and "\<forall>i s. k < i \<longrightarrow> should_stop_set s \<longrightarrow> should_stop_set (env i s)"
    and "step < k" and "k \<le> j" and "clock k + 10 \<le> clock j"
  shows "\<exists>r' s'. call_model_fn_impl orig (Dlrover_call_model_fn (Some p) Original_call_model_fn) args s = (Inr r', s')
    \<and> fst (train_loop clock env (existing_hooks r' EstimatorTrainingHooks) last_step step init_session s') \<le> j"
proof -
  let ?h = "fst (make_early_stopping_hook (fst args) s 10)"
  obtain r' s' where call: "call_model_fn_impl orig (Dlrover_call_model_fn (Some p) Original_call_model_fn) args s
      = (Inr r', s')" and train: "existing_hooks r' EstimatorTrainingHooks =
        first_by hook_class (hs @ ?h # existing_hooks r EstimatorTrainingHooks)"
    using assms(1-3) by (rule wrapped_call_training_hooks)
  have h: "?h = \<lparr>hook_class = ''_StopOnPredicateHook'', hook_obj = next_obj s, hook_action = Stop_on_predicate 10\<rparr>"
    using assms(4) by (rule stop_hook_eq)
  have "?h \<in> set (existing_hooks r' EstimatorTrainingHooks)"
    unfolding train using assms(5) h by (intro mem_first_by_new) simp
  then have "fst (train_loop clock env (existing_hooks r' EstimatorTrainingHooks) last_step step init_session s') \<le> j"
    using assms(6-11) h
    by (intro train_loop_stop_bound [of clock ?h _ 10 env k j step])
      (simp_all add: init_session_def timers_consistent_def)
  with call show ?thesis by blast
qed

theorem wrapped_chief_training_stops_witness:
  "\<exists>r' s'. call_model_fn_impl (\<lambda>x::estimator \<times> nat. (Inr (ex_spec None) :: exc + estimator_spec))
        (Dlrover_call_model_fn (Some [(''training_hooks'', Param_list 0)]) Original_call_model_fn) (chief_estimator, 7)
        (init_runtime\<lparr>heap := [0 \<mapsto> []], next_obj := 1\<rparr>) = (Inr r', s')
    \<and> fst (train_loop (\<lambda>i. i) (\<lambda>i s. if i = 3 then s\<lparr>global_dict := (global_dict s)(''should_stop'' \<mapsto> PyBool True)\<rparr> else s) (existing_hooks r' EstimatorTrainingHooks) 100 0 init_session s') \<le> 13"
  using wrapped_chief_training_stops [where orig = "\<lambda>x::estimator \<times> nat. (Inr (ex_spec None) :: exc + estimator_spec)"
      and args = "(chief_estimator, 7)" and r = "ex_spec None" and p = "[(''training_hooks'', Param_list 0)]" and a = 0
      and s = "init_runtime\<lparr>heap := [0 \<mapsto> []], next_obj := 1\<rparr>" and hs = "[]" and clock = "\<lambda>i. i"
      and env = "\<lambda>i s. if i = 3 then s\<lparr>global_dict := (global_dict s)(''should_stop'' \<mapsto> PyBool True)\<rparr> else s" and k = 3 and step = 0 and j = 13 and last_step = 100]
  by (simp add: mono_def should_stop_fn_def model_simps)

text \<open>
  C10 (end to end, a worker ignores the stop signal): on a worker that is not the
  chief, TensorFlow's \<^verbatim>\<open>make_early_stopping_hook\<close> returns a
  \<^verbatim>\<open>_CheckForStoppingHook\<close>, which never calls \<^verbatim>\<open>should_stop_fn\<close>. When the
  configured and existing training hooks are ordinary hooks, training with the training
  hooks the wrapped call returns runs to the last step whatever the agent writes into
  the worker's \<^verbatim>\<open>GlobalDict\<close>, as long as the stop variable is unset.
\<close>

theorem wrapped_worker_training_ignores_signal:
  assumes "orig args = Inr r"
    and "map_of p ''training_hooks'' = Some (Param_list a)"
    and "heap s a = Some hs"
    and "\<not> is_chief (config (fst args))"
    and "\<forall>h\<in>set (hs @ existing_hooks r EstimatorTrainingHooks). hook_action h = Opaque_hook"
  shows "\<exists>r' s'. call_model_fn_impl orig (Dlrover_call_model_fn (Some p) Original_call_model_fn) args s = (Inr r', s')
    \<and> (\<forall>env. fst (train_loop clock env (existing_hooks r' EstimatorTrainingHooks) last_step step init_session s')
           = max step last_step)"
proof -
  obtain r' s' where call: "call_model_fn_impl orig (Dlrover_call_model_fn (Some p) Original_call_model_fn) args s
      = (Inr r', s')"
    and acts: "\<forall>g\<in>set (existing_hooks r' EstimatorTrainingHooks). hook_action g \<in> {Opaque_hook, Check_for_stopping}"
    using assms by (rule wrapped_worker_hooks_predicate_free)
  have "fst (train_loop clock env (existing_hooks r' EstimatorTrainingHooks) last_step step init_session s')
      = max step last_step" for env
    using acts by (rule train_loop_no_predicate) (simp_all add: init_session_def)
  with call show ?thesis by blast
qed

theorem wrapped_worker_training_ignores_signal_witness:
  "\<exists>r' s'. call_model_fn_impl (\<lambda>x::estimator \<times> nat. (Inr (ex_spec None) :: exc + estimator_spec))
        (Dlrover_call_model_fn (Some [(''training_hooks'', Param_list 0)]) Original_call_model_fn) (worker_estimator, 7)
        (init_runtime\<lparr>heap := [0 \<mapsto> []], next_obj := 1\<rparr>) = (Inr r', s')
    \<and> fst (train_loop (\<lambda>i. i) (\<lambda>i s. if i = 3 then s\<lparr>global_dict := (global_dict s)(''should_stop'' \<mapsto> PyBool True)\<rparr> else s) (existing_hooks r' EstimatorTrainingHooks) 100 0 init_session s') = 100"
proof -
  have "\<exists>r' s'. call_model_fn_impl (\<lambda>x::estimator \<times> nat. (Inr (ex_spec None) :: exc + estimator_spec))
        (Dlrover_call_model_fn (Some [(''training_hooks'', Param_list 0)]) Original_call_model_fn) (worker_estimator, 7)
        (init_runtime\<lparr>heap := [0 \<mapsto> []], next_obj := 1\<rparr>) = (Inr r', s')
    \<and> (\<forall>env. fst (train_loop (\<lambda>i. i) env (existing_hooks r' EstimatorTrainingHooks) 100 0 init_session s')
           = max 0 100)"
    by (rule wrapped_worker_training_ignores_signal [where r = "ex_spec None" and a = 0 and hs = "[]"])
      (simp_all add: model_simps)
  then obtain r' s' where "call_model_fn_impl (\<lambda>x::estimator \<times> nat. (Inr (ex_spec None) :: exc + estimator_spec))
        (Dlrover_call_model_fn (Some [(''training_hooks'', Param_list 0)]) Original_call_model_fn) (worker_estimator, 7)
        (init_runtime\<lparr>heap := [0 \<mapsto> []], next_obj := 1\<rparr>) = (Inr r', s')"
    and "\<forall>env. fst (train_loop (\<lambda>i. i) env (existing_hooks r' EstimatorTrainingHooks) 100 0 init_session s')
           = max 0 100"
    by blast
  then show ?thesis by (intro exI [of _ r'] exI [of _ s']) simp
qed

text \<open>
  C29 (end to end, the chief's stop reaches the other workers): a chief and a worker
  have each made a wrapped call with the training hooks configured as a list that holds
  no hook of the early-stopping class built there. They train with the training hooks
  the calls returned and share the stop variable. If the agent sets
  \<^verbatim>\<open>should_stop\<close> on the chief while the chief's first step runs, that step sets the
  shared variable and finishes the chief, and the worker is finished after its next
  scheduled step, whatever else the schedule holds.
\<close>

theorem cluster_stop_from_wrapped_calls:
  assumes "orig ac = Inr rc" and "orig aw = Inr rw"
    and "map_of p ''training_hooks'' = Some (Param_list a)"
    and "heap sc a = Some hsc" and "heap sw a = Some hsw"
    and "is_chief (config (fst ac))" and "\<not> is_chief (config (fst aw))"
    and "''_StopOnPredicateHook'' \<notin> hook_class ` set hsc"
    and "''_CheckForStoppingHook'' \<notin> hook_class ` set hsw"
    and "0 < last_step"
    and "\<forall>s. should_stop_set (env 0 1 s)"
  shows "\<exists>rc' sc' rw' sw'. call_model_fn_impl orig (Dlrover_call_model_fn (Some p) Original_call_model_fn) ac sc = (Inr rc', sc') \<and> call_model_fn_impl orig (Dlrover_call_model_fn (Some p) Original_call_model_fn) aw sw = (Inr rw', sw')
    \<and> (\<forall>sched. shared_stop (run_cluster clock env last_step (0 # sched)
           \<lparr>shared_stop = False, workers =
              [\<lparr>w_hooks = existing_hooks rc' EstimatorTrainingHooks, w_session = init_session, w_runtime = sc', w_step = 0\<rparr>,
               \<lparr>w_hooks = existing_hooks rw' EstimatorTrainingHooks, w_session = init_session, w_runtime = sw', w_step = 0\<rparr>]\<rparr>)
       \<and> (1 \<in> set sched \<longrightarrow> finished last_step (workers (run_cluster clock env last_step (0 # sched)
           \<lparr>shared_stop = False, workers =
              [\<lparr>w_hooks = existing_hooks rc' EstimatorTrainingHooks, w_session = init_session, w_runtime = sc', w_step = 0\<rparr>,
               \<lparr>w_hooks = existing_hooks rw' EstimatorTrainingHooks, w_session = init_session, w_runtime = sw', w_step = 0\<rparr>]\<rparr>) ! 1)))"
proof -
  let ?hc = "fst (make_early_stopping_hook (fst ac) sc 10)"
  let ?hw = "fst (make_early_stopping_hook (fst aw) sw 10)"
  obtain rc' sc' where callc: "call_model_fn_impl orig (Dlrover_call_model_fn (Some p) Original_call_model_fn) ac sc = (Inr rc', sc')"
    and trainc: "existing_hooks rc' EstimatorTrainingHooks = first_by hook_class (hsc @ ?hc # existing_hooks rc EstimatorTrainingHooks)"
    using assms(1,3,4) by (rule wrapped_call_training_hooks)
  obtain rw' sw' where callw: "call_model_fn_impl orig (Dlrover_call_model_fn (Some p) Original_call_model_fn) aw sw = (Inr rw', sw')"
    and trainw: "existing_hooks rw' EstimatorTrainingHooks = first_by hook_class (hsw @ ?hw # existing_hooks rw EstimatorTrainingHooks)"
    using assms(2,3,5) by (rule wrapped_call_training_hooks)
  have hc: "?hc = \<lparr>hook_class = ''_StopOnPredicateHook'', hook_obj = next_obj sc, hook_action = Stop_on_predicate 10\<rparr>"
    using assms(6) by (rule stop_hook_eq)
  have hw: "?hw = \<lparr>hook_class = ''_CheckForStoppingHook'', hook_obj = next_obj sw, hook_action = Check_for_stopping\<rparr>"
    using assms(7) by (rule check_hook_eq)
  have inc: "?hc \<in> set (existing_hooks rc' EstimatorTrainingHooks)"
    unfolding trainc using assms(8) hc by (intro mem_first_by_new) simp
  have inw: "?hw \<in> set (existing_hooks rw' EstimatorTrainingHooks)"
    unfolding trainw using assms(9) hw by (intro mem_first_by_new) simp
  let ?c = "\<lparr>shared_stop = False, workers =
      [\<lparr>w_hooks = existing_hooks rc' EstimatorTrainingHooks, w_session = init_session, w_runtime = sc', w_step = 0\<rparr>,
       \<lparr>w_hooks = existing_hooks rw' EstimatorTrainingHooks, w_session = init_session, w_runtime = sw', w_step = 0\<rparr>]\<rparr>"
  have "shared_stop (run_cluster clock env last_step (0 # sched) ?c)
      \<and> finished last_step (workers (run_cluster clock env last_step (0 # sched) ?c) ! 1)"
    if "1 \<in> set sched" for sched
  proof -
    have r: "shared_stop (run_cluster clock env last_step (0 # sched) ?c)
      \<and> finished last_step (workers (run_cluster clock env last_step (0 # sched) ?c) ! 0)
      \<and> (\<forall>j<length (workers ?c). j \<in> set sched \<longrightarrow>
           (\<exists>g\<in>set (w_hooks (workers ?c ! j)). hook_action g = Check_for_stopping) \<longrightarrow>
           finished last_step (workers (run_cluster clock env last_step (0 # sched) ?c) ! j))"
      using inc hc assms(10,11)
      by (intro chief_stop_reaches_workers [where h = ?hc and secs = 10])
        (simp_all add: finished_def init_session_def should_trigger_for_step_def)
    moreover have "\<exists>g\<in>set (w_hooks (workers ?c ! 1)). hook_action g = Check_for_stopping"
      using inw hw by (auto simp: bexI [of _ ?hw])
    ultimately show ?thesis using that by simp
  qed
  moreover have "shared_stop (run_cluster clock env last_step (0 # sched) ?c)" for sched
    using inc hc assms(10,11)
    by (intro chief_stop_reaches_workers [where h = ?hc and secs = 10, THEN conjunct1])
      (simp_all add: finished_def init_session_def should_trigger_for_step_def)
  ultimately show ?thesis using callc callw by blast
qed

theorem cluster_stop_from_wrapped_calls_witness:
  "\<exists>rc' sc' rw' sw'. call_model_fn_impl (\<lambda>x::estimator \<times> nat. (Inr (ex_spec None) :: exc + estimator_spec)) (Dlrover_call_model_fn (Some [(''training_hooks'', Param_list 0)]) Original_call_model_fn) (chief_estimator, 7) (init_runtime\<lparr>heap := [0 \<mapsto> []], next_obj := 1\<rparr>) = (Inr rc', sc') \<and> call_model_fn_impl (\<lambda>x::estimator \<times> nat. (Inr (ex_spec None) :: exc + estimator_spec)) (Dlrover_call_model_fn (Some [(''training_hooks'', Param_list 0)]) Original_call_model_fn) (worker_estimator, 7) (init_runtime\<lparr>heap := [0 \<mapsto> []], next_obj := 1\<rparr>) = (Inr rw', sw')
    \<and> (\<forall>sched. shared_stop (run_cluster (\<lambda>i n. n) (\<lambda>i n s. if n = 1 then s\<lparr>global_dict := (global_dict s)(''should_stop'' \<mapsto> PyBool True)\<rparr> else s) 100 (0 # sched)
           \<lparr>shared_stop = False, workers =
              [\<lparr>w_hooks = existing_hooks rc' EstimatorTrainingHooks, w_session = init_session, w_runtime = sc', w_step = 0\<rparr>,
               \<lparr>w_hooks = existing_hooks rw' EstimatorTrainingHooks, w_session = init_session, w_runtime = sw', w_step = 0\<rparr>]\<rparr>)
       \<and> (1 \<in> set sched \<longrightarrow> finished 100 (workers (run_cluster (\<lambda>i n. n) (\<lambda>i n s. if n = 1 then s\<lparr>global_dict := (global_dict s)(''should_stop'' \<mapsto> PyBool True)\<rparr> else s) 100 (0 # sched)
           \<lparr>shared_stop = False, workers =
              [\<lparr>w_hooks = existing_hooks rc' EstimatorTrainingHooks, w_session = init_session, w_runtime = sc', w_step = 0\<rparr>,
               \<lparr>w_hooks = existing_hooks rw' EstimatorTrainingHooks, w_session = init_session, w_runtime = sw', w_step = 0\<rparr>]\<rparr>) ! 1)))"
  by (rule cluster_stop_from_wrapped_calls [where orig = "(\<lambda>x::estimator \<times> nat. (Inr (ex_spec None) :: exc + estimator_spec))" and rc = "ex_spec None" and rw = "ex_spec None"
      and a = 0 and hsc = "[]" and hsw = "[]"])
    (simp_all add: should_stop_fn_def model_simps)



end
